(* ===== verification/Prelude.thy ===== *)
theory Prelude
  imports Main "HOL-Library.Word" "HOL-Library.Sublist"
begin

text \<open>
  What the components share: the error codes the handlers branch on, undefined behaviour as a
  value, the fixed-width types of the settings, transition systems with their reachable states
  (and the locale that lifts a preserved predicate to all of them), executable runs for concrete
  scenarios, and the generic lemmas on lists used throughout.
\<close>

named_theorems op_defs \<open>definitions of the operations of a component, for unfolding a handler\<close>

type_synonym u16 = "16 word"
type_synonym u32 = "32 word"
type_synonym u64 = "64 word"

section \<open>Error codes\<close>

text \<open>
  An \<open>error_code\<close> of Boost.System is only ever tested for "is there an error", compared with the
  five values that the code names, and printed.  Every other value is \<open>Other_error\<close>, tagged by
  an uninterpreted number.
\<close>

datatype error_code =
    No_error
  | End_of_stream          \<comment> \<open>\<open>beast::http::error::end_of_stream\<close>\<close>
  | Ws_closed              \<comment> \<open>\<open>websocket::error::closed\<close>\<close>
  | Stream_truncated       \<comment> \<open>\<open>net::ssl::error::stream_truncated\<close>\<close>
  | No_such_file           \<comment> \<open>\<open>beast::errc::no_such_file_or_directory\<close>\<close>
  | Asio_eof               \<comment> \<open>\<open>boost::asio::error::eof\<close>\<close>
  | Other_error nat

abbreviation is_error :: "error_code \<Rightarrow> bool" where
  "is_error ec \<equiv> ec \<noteq> No_error"

text \<open>The ways in which the code can run into undefined behaviour, as values.\<close>

datatype ub =
    Assert_failed          \<comment> \<open>\<open>BOOST_ASSERT\<close>, and \<open>erase(begin())\<close> on an empty vector\<close>
  | Parser_absent          \<comment> \<open>\<open>parser_->\<close> on an empty optional\<close>
  | Dangling_settings      \<comment> \<open>a reference to an object that has been destroyed\<close>
  | Moved_stream           \<comment> \<open>a null pointer: an SSL stream that has been moved from\<close>
  | Null_io_context        \<comment> \<open>\<open>_ioc->\<close> on a null \<open>shared_ptr\<close>\<close>
  | Dangling_io_context    \<comment> \<open>an I/O object whose \<open>io_context\<close> has been destroyed\<close>

section \<open>The process\<close>

definition exit_success :: int where
  "exit_success = 0"

definition exit_failure :: int where
  "exit_failure = 1"

definition newline :: string where
  "newline = [CHR 0x0A]"

section \<open>Streams\<close>

text \<open>
  The stream that a class owns, over a socket: a \<open>tcp_stream\<close> or an \<open>ssl_stream\<close>.  A \<open>tcp_stream\<close> that
  has been moved from is a closed one; an \<open>ssl_stream\<close> keeps what it needs behind a pointer, which
  moving it leaves null.
\<close>

datatype stream = Tcp nat | Tls nat | Tcp_moved | Tls_moved

fun moved_from :: "stream \<Rightarrow> stream" where
  "moved_from (Tcp n) = Tcp_moved"
| "moved_from (Tls n) = Tls_moved"
| "moved_from st = st"

text \<open>An \<open>ssl_stream\<close> constructed on a \<open>tcp_stream\<close>, which is moved into it.\<close>

fun ssl_over :: "stream \<Rightarrow> stream" where
  "ssl_over (Tcp n) = Tls n"
| "ssl_over st = st"

fun is_tls :: "stream \<Rightarrow> bool" where
  "is_tls (Tls n) = True"
| "is_tls Tls_moved = True"
| "is_tls st = False"

text \<open>The sockets that a stream owns.\<close>

fun sockets_of :: "stream \<Rightarrow> nat list" where
  "sockets_of (Tcp n) = [n]"
| "sockets_of (Tls n) = [n]"
| "sockets_of st = []"

lemma sockets_of_moved [simp]: "sockets_of (moved_from st) = []"
  by (cases st) simp_all

section \<open>Transition systems\<close>

inductive reach :: "('s \<Rightarrow> bool) \<Rightarrow> ('s \<Rightarrow> 'e \<Rightarrow> 's \<Rightarrow> bool) \<Rightarrow> 's \<Rightarrow> bool"
  for init step where
  reach_init: "init s \<Longrightarrow> reach init step s"
| reach_step: "reach init step s \<Longrightarrow> step s e t \<Longrightarrow> reach init step t"

lemma reach_from:
  assumes "reach (\<lambda>x. x = s) step t" and "reach init step s"
  shows "reach init step t"
  using assms by (induction rule: reach.induct) (auto intro: reach.intros)

lemma reach_weaken:
  assumes "reach init step s" and "\<And>s. init s \<Longrightarrow> init' s"
  shows "reach init' step s"
  using assms(1) by (induction rule: reach.induct) (auto intro: reach.intros assms(2))

text \<open>
  The interface between a component's step relation and an invariant of it: whoever shows the two
  laws gets the invariant for every reachable state, and for the state after any further steps.
\<close>

locale invariant_of =
  fixes init :: "'s \<Rightarrow> bool"
    and step :: "'s \<Rightarrow> 'e \<Rightarrow> 's \<Rightarrow> bool"
    and inv :: "'s \<Rightarrow> bool"
  assumes inv_init: "init s \<Longrightarrow> inv s"
    and inv_step: "step s e t \<Longrightarrow> inv s \<Longrightarrow> inv t"
begin

lemma inv_reach:
  assumes "reach init step s"
  shows "inv s"
  using assms by (induction rule: reach.induct) (auto intro: inv_init inv_step)

lemma inv_later:
  assumes "reach init step s" and "step s e t"
  shows "inv t"
  using assms inv_reach inv_step by blast

end

text \<open>
  The interface between a component and an abstract specification of it: each step from a state that
  satisfies the invariant is a step of the specification or does not change the abstract state.
  Then the abstraction of a reachable state is reachable, and what the specification guarantees
  holds of it.
\<close>

locale simulation = invariant_of init step inv
  for init :: "'s \<Rightarrow> bool" and step :: "'s \<Rightarrow> 'e \<Rightarrow> 's \<Rightarrow> bool" and inv :: "'s \<Rightarrow> bool" +
  fixes ainit :: "'a \<Rightarrow> bool"
    and astep :: "'a \<Rightarrow> 'l \<Rightarrow> 'a \<Rightarrow> bool"
    and absf :: "'s \<Rightarrow> 'a"
  assumes sim_init: "init s \<Longrightarrow> ainit (absf s)"
    and sim_step: "step s e t \<Longrightarrow> inv s \<Longrightarrow> absf t = absf s \<or> (\<exists>l. astep (absf s) l (absf t))"
begin

lemma refines_step:
  assumes "reach init step s" and "step s e t"
  shows "absf t = absf s \<or> (\<exists>l. astep (absf s) l (absf t))"
  using sim_step [OF assms(2)] inv_reach [OF assms(1)] .

lemma refines_reach:
  assumes "reach init step s"
  shows "reach ainit astep (absf s)"
  using assms
proof (induction rule: reach.induct)
  case (reach_init s)
  then show ?case by (intro reach.reach_init sim_init)
next
  case (reach_step s e t)
  with refines_step [OF reach_step.hyps(1,2)] show ?case by (auto intro: reach.reach_step)
qed

lemma guaranteed:
  assumes "reach init step s" and "\<And>a. reach ainit astep a \<Longrightarrow> P a"
  shows "P (absf s)"
  using assms(2) refines_reach [OF assms(1)] by blast

end

text \<open>Runs of a given number of steps.\<close>

inductive steps :: "('s \<Rightarrow> 'e \<Rightarrow> 's \<Rightarrow> bool) \<Rightarrow> 's \<Rightarrow> nat \<Rightarrow> 's \<Rightarrow> bool" for step where
  steps_none: "steps step s 0 s"
| steps_more: "step s e t \<Longrightarrow> steps step t n u \<Longrightarrow> steps step s (Suc n) u"

lemma steps_reach: "steps step s n t \<Longrightarrow> reach init step s \<Longrightarrow> reach init step t"
  by (induction rule: steps.induct) (auto intro: reach_step)

lemma steps_measure:
  assumes "\<And>s e t. step s e t \<Longrightarrow> P s \<Longrightarrow> P t \<and> m t < m s"
    and "steps step s n t" and "P s"
  shows "n + m t \<le> (m s :: nat)"
  using assms(2,3) by (induction rule: steps.induct) (auto dest!: assms(1))

text \<open>
  Runs of an executable step function: \<open>None\<close> as soon as an event is not enabled or its handler
  is undefined.
\<close>

fun run_events :: "('s \<Rightarrow> 'e \<Rightarrow> 's option) \<Rightarrow> 's \<Rightarrow> 'e list \<Rightarrow> 's option" where
  "run_events nxt s [] = Some s"
| "run_events nxt s (e # es) = (case nxt s e of None \<Rightarrow> None | Some t \<Rightarrow> run_events nxt t es)"

lemma run_events_reach:
  assumes "\<And>s e t. nxt s e = Some t \<Longrightarrow> step s e t"
    and "reach init step s"
    and "run_events nxt s es = Some t"
  shows "reach init step t"
  using assms(2,3)
proof (induction es arbitrary: s)
  case Nil
  then show ?case by simp
next
  case (Cons e es)
  then obtain u where "nxt s e = Some u" and "run_events nxt u es = Some t"
    by (auto split: option.splits)
  with Cons.IH Cons.prems(1) show ?case
    by (blast intro: reach_step assms(1))
qed

lemma run_events_append:
  "run_events nxt s (xs @ ys) = Option.bind (run_events nxt s xs) (\<lambda>t. run_events nxt t ys)"
  by (induction xs arbitrary: s) (auto split: option.splits)

lemma run_events_snoc:
  "run_events nxt s (xs @ [e]) = Option.bind (run_events nxt s xs) (\<lambda>t. nxt t e)"
proof -
  have "run_events nxt t [e] = nxt t e" for t by (simp split: option.splits)
  then show ?thesis by (simp add: run_events_append del: run_events.simps)
qed

section \<open>Lists\<close>

lemma take_Suc_0: "take (Suc 0) xs = (if xs = [] then [] else [hd xs])"
  by (cases xs) auto

lemma prefix_eq_length: "prefix xs ys \<Longrightarrow> xs = ys \<longleftrightarrow> length xs = length ys"
  by (auto simp: prefix_def)

lemma takeWhile_append_all: "(\<And>x. x \<in> set xs \<Longrightarrow> P x) \<Longrightarrow> takeWhile P (xs @ ys) = xs @ takeWhile P ys"
  by (induction xs) auto

end
