(* ===== verification/Property_Tree.thy ===== *)
theory Property_Tree
  imports Prelude
begin

text \<open>
  The library interface of the settings: a \<open>boost::property_tree::ptree\<close>, the lexical conversions
  of its stream translator and \<open>boost::algorithm::to_lower\<close>.  None of it is code of the
  repository, so it is a record of functions, an argument of every definition that uses it; what
  the library documents of them are the laws \<open>ptree_law\<close> and \<open>lexical_law\<close>.  A second part gives
  one concrete instance of both, on which concrete scenarios are evaluated.
\<close>

section \<open>The interface\<close>

record 't ptree_api =
  pt_empty :: "'t"
  pt_get :: "'t \<Rightarrow> string \<Rightarrow> string option"     \<comment> \<open>the data at a dotted path, if the node exists\<close>
  pt_put :: "'t \<Rightarrow> string \<Rightarrow> string \<Rightarrow> 't"

record lexical =
  read_u16 :: "string \<Rightarrow> u16 option"
  read_i32 :: "string \<Rightarrow> u32 option"            \<comment> \<open>an \<open>int\<close>: 32 bits, two's complement\<close>
  read_u64 :: "string \<Rightarrow> u64 option"
  show_u16 :: "u16 \<Rightarrow> string"
  show_i32 :: "u32 \<Rightarrow> string"
  show_u64 :: "u64 \<Rightarrow> string"
  to_lower :: "string \<Rightarrow> string"

text \<open>\<open>get<T>(path, default)\<close>: the converted data, or the default when there is no node or no value.\<close>

definition get_or :: "('t, 'm) ptree_api_scheme \<Rightarrow> (string \<Rightarrow> 'a option) \<Rightarrow> 't \<Rightarrow> string \<Rightarrow> 'a \<Rightarrow> 'a" where
  "get_or P conv tr path dflt =
     (case pt_get P tr path of
        None \<Rightarrow> dflt
      | Some d \<Rightarrow> (case conv d of None \<Rightarrow> dflt | Some v \<Rightarrow> v))"

text \<open>
  Putting a value creates the nodes on the way to it, so it may make the proper prefixes of its
  path exist; every other path is left alone.
\<close>

definition path_above :: "string \<Rightarrow> string \<Rightarrow> bool" where
  "path_above q p \<longleftrightarrow> q = '''' \<or> prefix (q @ ''.'') p"

definition ptree_law :: "'t ptree_api \<Rightarrow> bool" where
  "ptree_law P \<longleftrightarrow>
     (\<forall>p. p \<noteq> '''' \<longrightarrow> pt_get P (pt_empty P) p = None) \<and>
     (\<forall>t p v. pt_get P (pt_put P t p v) p = Some v) \<and>
     (\<forall>t p q v. q \<noteq> p \<longrightarrow> \<not> path_above q p \<longrightarrow> pt_get P (pt_put P t p v) q = pt_get P t q)"

definition lexical_law :: "lexical \<Rightarrow> bool" where
  "lexical_law L \<longleftrightarrow>
     (\<forall>w. read_u16 L (show_u16 L w) = Some w) \<and>
     (\<forall>w. read_i32 L (show_i32 L w) = Some w) \<and>
     (\<forall>w. read_u64 L (show_u64 L w) = Some w) \<and>
     (\<forall>w. read_i32 L (show_u64 L w) = (if unat w < 2 ^ 31 then Some (ucast w) else None)) \<and>
     (\<forall>s. to_lower L (to_lower L s) = to_lower L s)"

lemma get_or_empty [simp]:
  "ptree_law P \<Longrightarrow> p \<noteq> '''' \<Longrightarrow> get_or P conv (pt_empty P) p d = d"
  by (simp add: get_or_def ptree_law_def)

lemma get_or_put_same:
  "ptree_law P \<Longrightarrow> get_or P conv (pt_put P t p v) p d = (case conv v of None \<Rightarrow> d | Some x \<Rightarrow> x)"
  by (simp add: get_or_def ptree_law_def)

lemma get_or_put_other:
  "ptree_law P \<Longrightarrow> q \<noteq> p \<Longrightarrow> \<not> path_above q p \<Longrightarrow>
     get_or P conv (pt_put P t p v) q d = get_or P conv t q d"
  by (simp add: get_or_def ptree_law_def)

lemmas get_or_put = get_or_put_same get_or_put_other path_above_def

end
