(* ===== verification/Functions.thy ===== *)
theory Functions
  imports Prelude
begin

text \<open>
  \<open>src/c++/systemicai/http/server/functions.cpp\<close>: the MIME type of a path, joining the document
  root with a request target, and the report of a failure.  A \<open>string_view\<close> and a
  \<open>std::string\<close> are both a \<open>string\<close> (a list of octets).  \<open>beast::iequals\<close> and
  \<open>error_code::message\<close> are library functions and arguments of the definitions.
\<close>

section \<open>Searching in strings\<close>

text \<open>\<open>find\<close> and \<open>rfind\<close> of the standard strings; \<open>None\<close> is \<open>npos\<close>.\<close>

definition matches_at :: "string \<Rightarrow> string \<Rightarrow> nat \<Rightarrow> bool" where
  "matches_at pat s i \<longleftrightarrow> take (length pat) (drop i s) = pat"

definition find_str :: "string \<Rightarrow> string \<Rightarrow> nat option" where
  "find_str pat s = List.find (matches_at pat s) [0..<Suc (length s) - length pat]"

definition rfind_str :: "string \<Rightarrow> string \<Rightarrow> nat option" where
  "rfind_str pat s = List.find (matches_at pat s) (rev [0..<Suc (length s) - length pat])"

lemma matches_at_iff: "matches_at pat s i \<longleftrightarrow> (\<exists>qs. drop i s = pat @ qs)"
  unfolding matches_at_def by (metis append_eq_conv_conj append_take_drop_id)

lemma find_str_None: "find_str pat s = None \<longleftrightarrow> \<not> sublist pat s"
proof -
  have "sublist pat s \<longleftrightarrow> (\<exists>i < Suc (length s) - length pat. matches_at pat s i)"
  proof
    assume "sublist pat s"
    then obtain ps qs where s: "s = ps @ pat @ qs" by (auto simp: sublist_def)
    then have "matches_at pat s (length ps)" by (simp add: matches_at_def)
    with s show "\<exists>i < Suc (length s) - length pat. matches_at pat s i"
      by (intro exI [of _ "length ps"]) simp
  next
    assume "\<exists>i < Suc (length s) - length pat. matches_at pat s i"
    then obtain i qs where "drop i s = pat @ qs" by (auto simp: matches_at_iff)
    then show "sublist pat s" by (metis append_take_drop_id sublist_def)
  qed
  then show ?thesis by (auto simp: find_str_def find_None_iff)
qed

lemma matches_char [simp]: "matches_at [c] s i \<longleftrightarrow> i < length s \<and> s ! i = c"
  by (cases "i < length s") (auto simp: matches_at_def take_Suc hd_drop_conv_nth)

lemma rfind_char_None: "rfind_str [c] s = None \<longleftrightarrow> c \<notin> set s"
  by (auto simp: rfind_str_def find_None_iff in_set_conv_nth)

lemma find_append_hit:
  "List.find P xs = None \<Longrightarrow> P y \<Longrightarrow> List.find P (xs @ y # ys) = Some y"
  by (induction xs) (auto split: if_splits)

lemma rfind_char_last:
  assumes "c \<notin> set e"
  shows "rfind_str [c] (p @ c # e) = Some (length p)"
proof -
  let ?s = "p @ c # e"
  have split: "[0..<length ?s] = [0..<length p] @ length p # [Suc (length p)..<length ?s]"
    using upt_add_eq_append [of 0 "length p" "Suc (length e)"]
    by (simp add: upt_conv_Cons del: upt_Suc)
  have "?s ! i \<noteq> c" if "i \<in> {Suc (length p)..<length ?s}" for i
  proof -
    from that have "?s ! i = e ! (i - Suc (length p))" and "i - Suc (length p) < length e"
      by (auto simp: nth_append)
    with assms show ?thesis by (metis nth_mem)
  qed
  then have none: "List.find (matches_at [c] ?s) (rev [Suc (length p)..<length ?s]) = None"
    by (auto simp: find_None_iff simp del: upt_Suc)
  have "List.find (matches_at [c] ?s) (rev [0..<length ?s]) = Some (length p)"
    unfolding split rev_append rev.simps append_assoc append_Cons append_Nil
    by (rule find_append_hit [OF none]) simp
  then show ?thesis by (simp add: rfind_str_def)
qed

section \<open>The MIME type of a path\<close>

definition extension :: "string \<Rightarrow> string" where
  "extension path = (case rfind_str ''.'' path of None \<Rightarrow> '''' | Some pos \<Rightarrow> drop pos path)"

definition mime_type :: "(string \<Rightarrow> string \<Rightarrow> bool) \<Rightarrow> string \<Rightarrow> string" where
  "mime_type iequals path = (let ext = extension path in
     if iequals ext ''.htm''  then ''text/html''
     else if iequals ext ''.html'' then ''text/html''
     else if iequals ext ''.php''  then ''text/html''
     else if iequals ext ''.css''  then ''text/css''
     else if iequals ext ''.txt''  then ''text/plain''
     else if iequals ext ''.js''   then ''application/javascript''
     else if iequals ext ''.json'' then ''application/json''
     else if iequals ext ''.xml''  then ''application/xml''
     else if iequals ext ''.swf''  then ''application/x-shockwave-flash''
     else if iequals ext ''.flv''  then ''video/x-flv''
     else if iequals ext ''.png''  then ''image/png''
     else if iequals ext ''.jpe''  then ''image/jpeg''
     else if iequals ext ''.jpeg'' then ''image/jpeg''
     else if iequals ext ''.jpg''  then ''image/jpeg''
     else if iequals ext ''.gif''  then ''image/gif''
     else if iequals ext ''.bmp''  then ''image/bmp''
     else if iequals ext ''.ico''  then ''image/vnd.microsoft.icon''
     else if iequals ext ''.tiff'' then ''image/tiff''
     else if iequals ext ''.tif''  then ''image/tiff''
     else if iequals ext ''.svg''  then ''image/svg+xml''
     else if iequals ext ''.svgz'' then ''image/svg+xml''
     else ''application/text'')"
text \<open>
  The reference: look the lower-case extension up in a table.  What \<open>beast::iequals\<close> is documented
  to do, for low-ASCII strings only, is the law \<open>iequals_law\<close>.
\<close>

definition ascii_lower :: "char \<Rightarrow> char" where
  "ascii_lower c = (if 65 \<le> (of_char c :: nat) \<and> (of_char c :: nat) \<le> 90
     then char_of ((of_char c :: nat) + 32) else c)"

definition is_ascii :: "char \<Rightarrow> bool" where
  "is_ascii c \<longleftrightarrow> (of_char c :: nat) < 128"

definition iequals_law :: "(string \<Rightarrow> string \<Rightarrow> bool) \<Rightarrow> bool" where
  "iequals_law ieq \<longleftrightarrow> (\<forall>a b. list_all is_ascii a \<longrightarrow> list_all is_ascii b \<longrightarrow>
     ieq a b = (map ascii_lower a = map ascii_lower b))"

definition ascii_iequals :: "string \<Rightarrow> string \<Rightarrow> bool" where
  "ascii_iequals a b \<longleftrightarrow> map ascii_lower a = map ascii_lower b"

lemma ascii_iequals_law: "iequals_law ascii_iequals"
  by (simp add: iequals_law_def ascii_iequals_def)

definition mime_table :: "(string \<times> string) list" where
  "mime_table =
    [(''.htm'', ''text/html''), (''.html'', ''text/html''), (''.php'', ''text/html''),
     (''.css'', ''text/css''), (''.txt'', ''text/plain''),
     (''.js'', ''application/javascript''), (''.json'', ''application/json''),
     (''.xml'', ''application/xml''), (''.swf'', ''application/x-shockwave-flash''),
     (''.flv'', ''video/x-flv''), (''.png'', ''image/png''), (''.jpe'', ''image/jpeg''),
     (''.jpeg'', ''image/jpeg''), (''.jpg'', ''image/jpeg''), (''.gif'', ''image/gif''),
     (''.bmp'', ''image/bmp''), (''.ico'', ''image/vnd.microsoft.icon''),
     (''.tiff'', ''image/tiff''), (''.tif'', ''image/tiff''),
     (''.svg'', ''image/svg+xml''), (''.svgz'', ''image/svg+xml'')]"

definition mime_lookup :: "string \<Rightarrow> string" where
  "mime_lookup ext = (case map_of mime_table (map ascii_lower ext) of
     None \<Rightarrow> ''application/text'' | Some t \<Rightarrow> t)"

fun first_match :: "('a \<Rightarrow> bool) \<Rightarrow> ('a \<times> 'b) list \<Rightarrow> 'b \<Rightarrow> 'b" where
  "first_match P [] d = d"
| "first_match P ((k, v) # kvs) d = (if P k then v else first_match P kvs d)"

lemma first_match_map_of:
  assumes "\<And>k. k \<in> fst ` set kvs \<Longrightarrow> P k \<longleftrightarrow> x = k"
  shows "first_match P kvs d = (case map_of kvs x of None \<Rightarrow> d | Some v \<Rightarrow> v)"
  using assms by (induction kvs) auto

lemma mime_type_first_match:
  "mime_type ieq path = first_match (ieq (extension path)) mime_table ''application/text''"
  by (simp add: mime_type_def mime_table_def Let_def)

lemma mime_table_ascii: "\<forall>k \<in> fst ` set mime_table. list_all is_ascii k"
  by code_simp

lemma mime_table_lower: "\<forall>k \<in> fst ` set mime_table. map ascii_lower k = k"
  by code_simp

lemma extension_no_dot: "CHR ''.'' \<notin> set path \<Longrightarrow> extension path = ''''"
  by (simp add: extension_def iffD2 [OF rfind_char_None])

lemma extension_last_dot: "CHR ''.'' \<notin> set e \<Longrightarrow> extension (p @ CHR ''.'' # e) = CHR ''.'' # e"
  by (simp add: extension_def rfind_char_last)

lemma set_extension: "set (extension path) \<subseteq> set path"
  by (auto simp: extension_def dest: in_set_dropD split: option.splits)

lemma mime_type_lookup:
  assumes "iequals_law ieq" and "list_all is_ascii path"
  shows "mime_type ieq path = mime_lookup (extension path)"
proof -
  have "list_all is_ascii (extension path)"
    using assms(2) set_extension [of path] by (auto simp: list_all_iff)
  then have "ieq (extension path) k \<longleftrightarrow> map ascii_lower (extension path) = k"
    if "k \<in> fst ` set mime_table" for k
    using assms(1) that mime_table_ascii mime_table_lower unfolding iequals_law_def by metis
  then show ?thesis
    by (simp add: mime_type_first_match mime_lookup_def first_match_map_of)
qed

section \<open>Joining the document root and a target\<close>

text \<open>\<open>path_cat\<close> has one body per platform, chosen by \<open>BOOST_MSVC\<close>.\<close>

definition strip_back :: "char \<Rightarrow> string \<Rightarrow> string" where
  "strip_back sep result =
     (if last result = sep then take (length result - 1) result else result)"

definition path_cat :: "string \<Rightarrow> string \<Rightarrow> string" where
  "path_cat base path =
     (if base = '''' then path else strip_back (CHR ''/'') base @ path)"

definition backslash :: char where
  "backslash = CHR 0x5C"

definition path_cat_msvc :: "string \<Rightarrow> string \<Rightarrow> string" where
  "path_cat_msvc base path =
     (if base = '''' then path
      else map (\<lambda>c. if c = CHR ''/'' then backslash else c) (strip_back backslash base @ path))"

lemma strip_back_cases:
  assumes "base \<noteq> ''''"
  obtains "strip_back sep base = base" "last base \<noteq> sep"
    | xs where "base = xs @ [sep]" "strip_back sep base = xs"
  using assms by (cases base rule: rev_cases) (auto simp: strip_back_def)

text \<open>
  The two bodies agree up to the separator, unless the base ends in one: each drops only its own, so
  that on Windows a base that ends in a slash gives a doubled separator.
\<close>

theorem path_cat_msvc_slashes:
  fixes slashes defines "slashes \<equiv> map (\<lambda>c. if c = CHR ''/'' then backslash else c)"
  assumes "base \<noteq> ''''"
  shows "last base \<notin> {CHR ''/'', backslash} \<Longrightarrow> path_cat_msvc base path = slashes (path_cat base path)"
    and "path_cat_msvc (base @ [CHR ''/'']) (CHR ''/'' # path) = slashes base @ [backslash, backslash] @ slashes path"
    and "path_cat (base @ [CHR ''/'']) (CHR ''/'' # path) = base @ CHR ''/'' # path"
  using assms(2) by (auto simp: slashes_def path_cat_msvc_def path_cat_def strip_back_def backslash_def)

section \<open>Reporting a failure\<close>

text \<open>The lines that \<open>fail\<close> writes to \<open>std::cerr\<close>.\<close>

definition fail :: "(error_code \<Rightarrow> string) \<Rightarrow> error_code \<Rightarrow> string \<Rightarrow> string list" where
  "fail message ec what =
     (if ec = Stream_truncated then []
      else [what @ '': '' @ message ec @ [CHR 0x0A]])"

end
