(* ===== verification/Reference_Tree.thy ===== *)
theory Reference_Tree
  imports Property_Tree Functions
begin

text \<open>
  One concrete property tree and one concrete set of conversions that satisfy the laws of the
  interface: a map from dotted paths to data, decimal numbers, and ASCII lower case.  The model of
  the server never mentions them; they show that the laws can hold and are what concrete
  scenarios evaluate.
\<close>

definition ref_tree :: "(string \<Rightarrow> string option) ptree_api" where
  "ref_tree = \<lparr>pt_empty = (\<lambda>q. if q = '''' then Some '''' else None),
     pt_get = (\<lambda>t q. t q),
     pt_put = (\<lambda>t p v q. if q = p then Some v
        else if path_above q p \<and> t q = None then Some '''' else t q)\<rparr>"

lemma ref_tree_law: "ptree_law ref_tree"
  by (simp add: ptree_law_def ref_tree_def)

section \<open>Decimal numbers\<close>

definition digit :: "nat \<Rightarrow> char" where
  "digit n = char_of (48 + n)"

fun show_nat :: "nat \<Rightarrow> string" where
  "show_nat n = (if n < 10 then [digit n] else show_nat (n div 10) @ [digit (n mod 10)])"

declare show_nat.simps [simp del]

definition digit_val :: "char \<Rightarrow> nat option" where
  "digit_val c = (let k = of_char c :: nat in if 48 \<le> k \<and> k \<le> 57 then Some (k - 48) else None)"

fun read_digits :: "nat \<Rightarrow> string \<Rightarrow> nat option" where
  "read_digits acc [] = Some acc"
| "read_digits acc (c # cs) =
     (case digit_val c of None \<Rightarrow> None | Some d \<Rightarrow> read_digits (10 * acc + d) cs)"

definition read_nat :: "string \<Rightarrow> nat option" where
  "read_nat s = (if s = '''' then None else read_digits 0 s)"

lemma digit_val_digit [simp]: "n < 10 \<Longrightarrow> digit_val (digit n) = Some n"
  by (simp add: digit_val_def digit_def)

lemma read_digits_append:
  "read_digits acc (xs @ ys) = Option.bind (read_digits acc xs) (\<lambda>a. read_digits a ys)"
  by (induction xs arbitrary: acc) (auto split: option.splits)

lemma show_nat_ne [simp]: "show_nat n \<noteq> ''''"
  by (subst show_nat.simps) simp

lemma read_digits_show: "read_digits 0 (show_nat n) = Some n"
proof (induction n rule: show_nat.induct)
  case (1 n)
  then show ?case
    by (cases "n < 10") (simp_all add: show_nat.simps [of n] read_digits_append)
qed

lemma read_nat_show [simp]: "read_nat (show_nat n) = Some n"
  by (simp add: read_nat_def read_digits_show)

lemma hd_show_nat: "\<exists>d < 10. hd (show_nat n) = digit d"
proof (induction n rule: show_nat.induct)
  case (1 n)
  then show ?case by (cases "n < 10") (auto simp: show_nat.simps [of n])
qed

definition minus_sign :: char where
  "minus_sign = CHR ''-''"

lemma digit_not_minus: "d < 10 \<Longrightarrow> digit d \<noteq> minus_sign"
proof
  assume "d < 10" and "digit d = minus_sign"
  then have "digit_val minus_sign = Some d" using digit_val_digit by metis
  then show False by (simp add: digit_val_def minus_sign_def)
qed

definition read_int :: "string \<Rightarrow> int option" where
  "read_int s = (case s of [] \<Rightarrow> None
     | c # cs \<Rightarrow> if c = minus_sign then map_option (\<lambda>n. - int n) (read_nat cs)
                else map_option int (read_nat s))"

definition show_int :: "int \<Rightarrow> string" where
  "show_int i = (if i < 0 then minus_sign # show_nat (nat (- i)) else show_nat (nat i))"

lemma read_int_show_nat: "read_int (show_nat n) = Some (int n)"
proof -
  obtain c cs where s: "show_nat n = c # cs" by (cases "show_nat n") auto
  moreover have "c \<noteq> minus_sign" using hd_show_nat [of n] s digit_not_minus by auto
  ultimately show ?thesis using read_nat_show [of n] by (simp add: read_int_def)
qed

lemma read_int_show: "read_int (show_int i) = Some i"
  by (cases "i < 0") (simp_all add: show_int_def read_int_show_nat, simp add: read_int_def)

section \<open>Conversions at their widths\<close>

definition in_range :: "int \<Rightarrow> int \<Rightarrow> (int \<Rightarrow> 'a) \<Rightarrow> int option \<Rightarrow> 'a option" where
  "in_range lo hi f r =
     (case r of None \<Rightarrow> None | Some i \<Rightarrow> if lo \<le> i \<and> i < hi then Some (f i) else None)"

definition ref_lexical :: lexical where
  "ref_lexical = \<lparr>
     read_u16 = (\<lambda>s. in_range 0 (2 ^ 16) word_of_int (read_int s)),
     read_i32 = (\<lambda>s. in_range (- (2 ^ 31)) (2 ^ 31) word_of_int (read_int s)),
     read_u64 = (\<lambda>s. in_range 0 (2 ^ 64) word_of_int (read_int s)),
     show_u16 = (\<lambda>w. show_nat (unat w)),
     show_i32 = (\<lambda>w. show_int (sint w)),
     show_u64 = (\<lambda>w. show_nat (unat w)),
     to_lower = map ascii_lower\<rparr>"

lemma ascii_lower_idem [simp]: "ascii_lower (ascii_lower c) = ascii_lower c"
  by (auto simp: ascii_lower_def)

lemma ascii_lower_comp [simp]: "ascii_lower \<circ> ascii_lower = ascii_lower"
  by auto

lemma unat_less_int: "int (unat (w :: 'a :: len word)) < 2 ^ LENGTH('a)"
  using uint_bounded [of w] by simp

lemma read_i32_show_u64:
  "read_i32 ref_lexical (show_u64 ref_lexical w) = (if unat w < 2 ^ 31 then Some (ucast w) else None)"
proof -
  have "int (unat w) < 2 ^ 31 \<longleftrightarrow> unat w < 2 ^ 31"
    using of_nat_less_iff [of "unat w" "2 ^ 31", where ?'a = int] by simp
  moreover have "word_of_int (int (unat w)) = (ucast w :: u32)"
    by (simp only: of_nat_unat ucast_eq)
  ultimately show ?thesis
    by (simp add: ref_lexical_def read_int_show_nat in_range_def del: of_nat_unat)
qed

lemma ref_lexical_law: "lexical_law ref_lexical"
proof -
  have "read_u16 ref_lexical (show_u16 ref_lexical w) = Some w" for w
    using unat_less_int [of w] by (simp add: ref_lexical_def read_int_show_nat in_range_def)
  moreover have "read_i32 ref_lexical (show_i32 ref_lexical w) = Some w" for w
    using sint_range_size [of w] by (simp add: ref_lexical_def read_int_show in_range_def word_size)
  moreover have "read_u64 ref_lexical (show_u64 ref_lexical w) = Some w" for w
    using unat_less_int [of w] by (simp add: ref_lexical_def read_int_show_nat in_range_def)
  moreover have "to_lower ref_lexical (to_lower ref_lexical s) = to_lower ref_lexical s" for s
    by (simp add: ref_lexical_def)
  ultimately show ?thesis by (simp add: lexical_law_def read_i32_show_u64)
qed

end
