(* ===== verification/Settings.thy ===== *)
theory Settings
  imports Reference_Tree
begin

text \<open>
  \<open>src/c++/systemicai/http/server/settings.h\<close>: the settings of the server, read from a property
  tree and written back to one.  The integers keep their widths: \<open>unsigned short\<close> is \<open>u16\<close>,
  \<open>int\<close> is \<open>u32\<close> read as two's complement, \<open>size_t\<close> is \<open>u64\<close>.
\<close>

record settings =
  interface_address :: string
  interface_port :: u16
  document_root :: string
  log_level :: string
  service_version :: string
  ssl_certificate :: string
  ssl_key :: string
  ssl_dh :: string
  thread_io :: u32
  timeout_header :: u64
  timeout_get :: u64
  timeout_put :: u64
  timeout_post :: u64

text \<open>
  \<open>load\<close> assigns the members in this order.  \<open>tr.get<>(path, 5)\<close> deduces its type from the
  default, an \<open>int\<close>, which is then converted to \<open>size_t\<close>.
\<close>

definition load :: "'t ptree_api \<Rightarrow> lexical \<Rightarrow> 't \<Rightarrow> settings \<Rightarrow> settings" where
  "load P L tr s0 = (
     let s = s0\<lparr>interface_address := get_or P Some tr ''service.interface.address'' ''127.0.0.1''\<rparr>;
         s = s\<lparr>interface_port := get_or P (read_u16 L) tr ''service.interface.port'' 8080\<rparr>;
         s = s\<lparr>document_root := get_or P Some tr ''document.root'' ''html''\<rparr>;
         s = s\<lparr>log_level := get_or P Some tr ''service.log.level'' ''info''\<rparr>;
         s = s\<lparr>log_level := to_lower L (log_level s)\<rparr>;
         s = s\<lparr>ssl_certificate := get_or P Some tr ''service.ssl.certificate'' ''cfg/dumb.cert''\<rparr>;
         s = s\<lparr>ssl_key := get_or P Some tr ''service.ssl.key'' ''cfg/dumb.key''\<rparr>;
         s = s\<lparr>ssl_dh := get_or P Some tr ''service.ssl.dh'' ''cfg/dumb.dh''\<rparr>;
         s = s\<lparr>thread_io := get_or P (read_i32 L) tr ''service.thread.io'' 1\<rparr>;
         s = s\<lparr>timeout_header := scast (get_or P (read_i32 L) tr ''service.timeout.header'' 5)\<rparr>;
         s = s\<lparr>timeout_get := get_or P (read_u64 L) tr ''service.timeout.get'' 300\<rparr>;
         s = s\<lparr>timeout_put := get_or P (read_u64 L) tr ''service.timeout.put'' 300\<rparr>;
         s = s\<lparr>timeout_post := get_or P (read_u64 L) tr ''service.timeout.post'' 300\<rparr>
     in s\<lparr>service_version := get_or P Some tr ''service.version'' ''alpha''\<rparr>)"

text \<open>\<open>operator pt::ptree\<close>.\<close>

definition to_ptree :: "'t ptree_api \<Rightarrow> lexical \<Rightarrow> settings \<Rightarrow> 't" where
  "to_ptree P L s = (
     let tr = pt_empty P;
         tr = pt_put P tr ''service.interface.address'' (interface_address s);
         tr = pt_put P tr ''service.interface.port'' (show_u16 L (interface_port s));
         tr = pt_put P tr ''document.root'' (document_root s);
         tr = pt_put P tr ''service.log.level'' (log_level s);
         tr = pt_put P tr ''service.ssl.certificate'' (ssl_certificate s);
         tr = pt_put P tr ''service.ssl.key'' (ssl_key s);
         tr = pt_put P tr ''service.ssl.dh'' (ssl_dh s);
         tr = pt_put P tr ''service.thread.io'' (show_i32 L (thread_io s));
         tr = pt_put P tr ''service.timeout.header'' (show_u64 L (timeout_header s));
         tr = pt_put P tr ''service.timeout.get'' (show_u64 L (timeout_get s));
         tr = pt_put P tr ''service.timeout.put'' (show_u64 L (timeout_put s));
         tr = pt_put P tr ''service.timeout.post'' (show_u64 L (timeout_post s))
     in pt_put P tr ''service.version'' (service_version s))"

text \<open>
  The constructor runs \<open>load\<close> on members that have no initialisers: the strings are empty, the
  numbers whatever the memory held, here an argument.
\<close>

definition new_settings :: "'t ptree_api \<Rightarrow> lexical \<Rightarrow> settings \<Rightarrow> 't \<Rightarrow> settings" where
  "new_settings P L uninitialised tr = load P L tr uninitialised"

section \<open>Every member is assigned\<close>

lemma load_forgets: "load P L tr s = load P L tr s'"
  by (cases s; cases s') (simp add: load_def Let_def)

section \<open>Reading back what was written\<close>

lemma scast_ucast_small:
  fixes w :: u64
  assumes "unat w < 2 ^ 31"
  shows "scast (ucast w :: u32) = w"
proof -
  have "uint w < 2 ^ 31"
    using assms of_nat_less_iff [of "unat w" "2 ^ 31", where ?'a = int] by simp
  then have "sint (ucast w :: u32) = uint w"
    using order_trans [OF _ uint_nonnegative [of w], of "- (2 ^ 31)"]
    by (simp add: signed_take_bit_int_eq_self sint_uint unsigned_ucast_eq take_bit_int_eq_self)
  then show ?thesis by (simp add: signed_of_int scast_eq)
qed

lemma load_to_ptree:
  assumes "ptree_law P" and "lexical_law L"
  shows "load P L (to_ptree P L s) s0 =
    s\<lparr>log_level := to_lower L (log_level s),
      timeout_header := if unat (timeout_header s) < 2 ^ 31 then timeout_header s else 5\<rparr>"
proof -
  note conv = assms(2) [unfolded lexical_law_def]
  show ?thesis
    using conv scast_ucast_small [of "timeout_header s"]
    by (simp add: load_def to_ptree_def Let_def get_or_put assms(1))
qed

end
