(* ===== verification/Paths.thy ===== *)
theory Paths
  imports Functions
begin

text \<open>
  What a path names in a file system, for the confinement of the served files: a path is split at
  its separators and the components are resolved lexically, \<open>..\<close> going up one directory and empty
  components and \<open>.\<close> staying.  This is specification, not code of the server.
\<close>

fun split_on :: "char \<Rightarrow> string \<Rightarrow> string list" where
  "split_on c [] = [[]]"
| "split_on c (x # xs) =
     (if x = c then [] # split_on c xs
      else case split_on c xs of [] \<Rightarrow> [[x]] | w # ws \<Rightarrow> (x # w) # ws)"

fun resolve :: "string list \<Rightarrow> string list \<Rightarrow> string list" where
  "resolve st [] = st"
| "resolve st (w # ws) =
     (if w = '''' \<or> w = ''.'' then resolve st ws
      else if w = ''..'' then resolve (butlast st) ws
      else resolve (st @ [w]) ws)"

definition location :: "string \<Rightarrow> string list" where
  "location path = resolve [] (split_on (CHR ''/'') path)"

lemma split_on_ne [simp]: "split_on c s \<noteq> []"
  by (induction s) (auto split: list.splits)

lemma split_on_append: "split_on c (a @ c # b) = split_on c a @ split_on c b"
  by (induction a) (auto split: list.splits)

lemma split_on_hd_prefix: "prefix (hd (split_on c s)) s"
  by (induction s) (auto split: list.splits)

lemma split_on_sublist: "w \<in> set (split_on c s) \<Longrightarrow> sublist w s"
proof (induction s arbitrary: w)
  case Nil
  then show ?case by simp
next
  case (Cons x xs)
  obtain v vs where split: "split_on c xs = v # vs" by (cases "split_on c xs") auto
  show ?case
  proof (cases "x \<noteq> c \<and> w = x # v")
    case True
    have "prefix v xs" using split_on_hd_prefix [of c xs] split by simp
    with True have "prefix w (x # xs)" by simp
    then show ?thesis by (rule prefix_imp_sublist)
  next
    case False
    with Cons.prems split have "w = [] \<or> w \<in> set (split_on c xs)"
      by (auto split: if_splits)
    with Cons.IH show ?thesis by (auto simp: sublist_Cons_right)
  qed
qed

lemma resolve_append: "resolve st (us @ vs) = resolve (resolve st us) vs"
  by (induction us arbitrary: st) auto

lemma resolve_descends: "''..'' \<notin> set ws \<Longrightarrow> prefix st (resolve st ws)"
proof (induction ws arbitrary: st)
  case Nil
  then show ?case by simp
next
  case (Cons w ws)
  then have "prefix (st @ [w]) (resolve (st @ [w]) ws)" by simp
  then have "prefix st (resolve (st @ [w]) ws)" by (rule append_prefixD)
  with Cons show ?case by auto
qed

text \<open>A path below a directory that never mentions \<open>..\<close> names something inside the directory.\<close>

lemma location_below:
  assumes "\<not> sublist ''..'' t"
  shows "prefix (location d) (location (d @ CHR ''/'' # t))"
proof -
  have "''..'' \<notin> set (split_on (CHR ''/'') t)"
    using assms split_on_sublist by blast
  then show ?thesis
    unfolding location_def split_on_append resolve_append by (rule resolve_descends)
qed

lemma location_trailing_slash: "location (d @ ''/'') = location d"
  using split_on_append [of "CHR ''/''" d "''''"] by (simp add: location_def resolve_append)

lemma location_strip_back: "base \<noteq> '''' \<Longrightarrow> location (strip_back (CHR ''/'') base) = location base"
  by (cases base rule: strip_back_cases [where sep = "CHR ''/''"])
     (auto simp: location_trailing_slash)

text \<open>Below a non-empty document root, or below the file system's root when it is empty.\<close>

lemma location_path_cat:
  assumes "\<not> sublist ''..'' t"
  shows "prefix (location base) (location (path_cat base (CHR ''/'' # t)))"
proof (cases "base = ''''")
  case True
  then show ?thesis by (simp add: location_def)
next
  case False
  with location_below [OF assms] show ?thesis
    by (metis location_strip_back path_cat_def)
qed

end
