(* ===== verification/Handlers.thy ===== *)
theory Handlers
  imports Settings Paths
begin

text \<open>
  \<open>src/c++/systemicai/http/server/handlers/handler.hpp\<close> and \<open>handlers/default.hpp\<close>: the registry of
  handlers, the default handler that serves files below the document root, and the dispatch.
  The HTTP messages are Beast's: a request is what its observers return, a response is what the
  code sets in it.  The library functions the handlers call are the record \<open>beast_api\<close>.
\<close>

section \<open>Messages\<close>

datatype verb = Verb_get | Verb_head | Verb_other nat

datatype status = Status_ok | Status_bad_request | Status_not_found | Status_internal_server_error

record request =
  verb_of :: verb
  target :: string
  version :: u32                 \<comment> \<open>\<open>req.version()\<close>: 10 or 11\<close>
  keep_alive :: bool             \<comment> \<open>\<open>req.keep_alive()\<close>\<close>
  is_upgrade :: bool             \<comment> \<open>\<open>websocket::is_upgrade(req)\<close>\<close>

datatype body = Empty_body | String_body string | File_body string

text \<open>A response with the values passed to its setters; \<open>None\<close> where a setter has not been called.\<close>

record response =
  res_status :: status
  res_version :: u32
  res_server :: "string option"
  res_content_type :: "string option"
  res_keep_alive :: "bool option"
  res_content_length :: "nat option"
  res_body :: body

definition new_response :: "status \<Rightarrow> u32 \<Rightarrow> body \<Rightarrow> response" where
  "new_response st v b = \<lparr>res_status = st, res_version = v, res_server = None,
     res_content_type = None, res_keep_alive = None, res_content_length = None, res_body = b\<rparr>"

text \<open>
  \<open>file_body::value_type::open\<close> sets the error code and, when there is none, gives access to the
  file's octets; the file system it reads is a function of the path.
\<close>

record beast_api =
  api_iequals :: "string \<Rightarrow> string \<Rightarrow> bool"
  api_message :: "error_code \<Rightarrow> string"
  api_open :: "string \<Rightarrow> error_code \<times> string"
  api_prepare_payload :: "response \<Rightarrow> response"
  api_need_eof :: "response \<Rightarrow> bool"
  api_version :: string                      \<comment> \<open>\<open>BOOST_BEAST_VERSION_STRING\<close>\<close>

text \<open>
  What Beast documents of two of them: \<open>prepare_payload\<close> sets the content length of a response
  whose body is a string, and a response with a content length needs the end of the file exactly
  when its connection is not kept alive.
\<close>

definition prepare_payload_law :: "beast_api \<Rightarrow> bool" where
  "prepare_payload_law B \<longleftrightarrow> (\<forall>r s. res_body r = String_body s \<longrightarrow>
     api_prepare_payload B r = r\<lparr>res_content_length := Some (length s)\<rparr>)"

definition need_eof_law :: "beast_api \<Rightarrow> bool" where
  "need_eof_law B \<longleftrightarrow> (\<forall>r n b. res_content_length r = Some n \<longrightarrow> res_keep_alive r = Some b \<longrightarrow>
     api_need_eof B r = (\<not> b))"

section \<open>The default handler\<close>

definition bad_request :: "beast_api \<Rightarrow> request \<Rightarrow> settings \<Rightarrow> string \<Rightarrow> response" where
  "bad_request B req s why = (
     let res = new_response Status_bad_request (version req) (String_body '''');
         res = res\<lparr>res_server := Some (service_version s)\<rparr>;
         res = res\<lparr>res_content_type := Some ''text/html''\<rparr>;
         res = res\<lparr>res_keep_alive := Some (keep_alive req)\<rparr>;
         res = res\<lparr>res_body := String_body why\<rparr>
     in api_prepare_payload B res)"

definition quote :: string where
  "quote = [CHR 0x27]"

definition not_found :: "beast_api \<Rightarrow> request \<Rightarrow> settings \<Rightarrow> string \<Rightarrow> response" where
  "not_found B req s tgt = (
     let res = new_response Status_not_found (version req) (String_body '''');
         res = res\<lparr>res_server := Some (service_version s)\<rparr>;
         res = res\<lparr>res_content_type := Some ''text/html''\<rparr>;
         res = res\<lparr>res_keep_alive := Some (keep_alive req)\<rparr>;
         res = res\<lparr>res_body :=
           String_body (''The resource '' @ quote @ tgt @ quote @ '' was not found.'')\<rparr>
     in api_prepare_payload B res)"

definition server_error :: "beast_api \<Rightarrow> request \<Rightarrow> settings \<Rightarrow> string \<Rightarrow> response" where
  "server_error B req s what = (
     let res = new_response Status_internal_server_error (version req) (String_body '''');
         res = res\<lparr>res_server := Some (service_version s)\<rparr>;
         res = res\<lparr>res_content_type := Some ''text/html''\<rparr>;
         res = res\<lparr>res_keep_alive := Some (keep_alive req)\<rparr>;
         res = res\<lparr>res_body := String_body (''An error occurred: '' @ quote @ what @ quote)\<rparr>
     in api_prepare_payload B res)"

text \<open>\<open>path.c_str()\<close> ends at the first NUL.\<close>

definition c_str :: "string \<Rightarrow> string" where
  "c_str path = takeWhile (\<lambda>c. c \<noteq> CHR 0x00) path"

definition file_path :: "string \<Rightarrow> string \<Rightarrow> string" where
  "file_path doc_root tgt = (
     let path = path_cat doc_root tgt
     in if last tgt = CHR ''/'' then path @ ''index.html'' else path)"

text \<open>
  The handler sends through its argument \<open>send\<close>, which acts on a state of any type: in the server
  it is the queue of the session.
\<close>

definition default_handle_request ::
    "beast_api \<Rightarrow> string \<Rightarrow> request \<Rightarrow> (response \<Rightarrow> 'q \<Rightarrow> 'q) \<Rightarrow> settings \<Rightarrow> 'q \<Rightarrow> 'q" where
  "default_handle_request B doc_root req send s q =
     (if verb_of req \<noteq> Verb_get \<and> verb_of req \<noteq> Verb_head
      then send (bad_request B req s ''Unknown HTTP-method'') q
      else if target req = '''' \<or> target req ! 0 \<noteq> CHR ''/'' \<or> find_str ''..'' (target req) \<noteq> None
      then send (bad_request B req s ''Illegal request-target'') q
      else
        let path = file_path doc_root (target req);
            (ec, content) = api_open B (c_str path)
        in if ec = No_such_file then send (not_found B req s (target req)) q
           else if is_error ec then send (server_error B req s (api_message B ec)) q
           else
             let size = length content
             in if verb_of req = Verb_head then
                  let res = new_response Status_ok (version req) Empty_body;
                      res = res\<lparr>res_server := Some (service_version s)\<rparr>;
                      res = res\<lparr>res_content_type := Some (mime_type (api_iequals B) path)\<rparr>;
                      res = res\<lparr>res_content_length := Some size\<rparr>;
                      res = res\<lparr>res_keep_alive := Some (keep_alive req)\<rparr>
                  in send res q
                else
                  let res = new_response Status_ok (version req) (File_body content);
                      res = res\<lparr>res_server := Some (service_version s)\<rparr>;
                      res = res\<lparr>res_content_type := Some (mime_type (api_iequals B) path)\<rparr>;
                      res = res\<lparr>res_content_length := Some size\<rparr>;
                      res = res\<lparr>res_keep_alive := Some (keep_alive req)\<rparr>
                  in send res q)"

section \<open>The registry and the dispatch\<close>

text \<open>
  A handler is a function pointer that gets the request and the send object by reference and says
  whether it handled the request.
\<close>

type_synonym 'q handler_function =
  "request \<Rightarrow> (response \<Rightarrow> 'q \<Rightarrow> 'q) \<Rightarrow> settings \<Rightarrow> 'q \<Rightarrow> bool \<times> request \<times> 'q"

record 'q handler_registry =
  registered :: "'q handler_function list"

definition new_registry :: "'q handler_registry" where
  "new_registry = \<lparr>registered = []\<rparr>"

text \<open>The move constructor: what the new registry holds.\<close>

definition move_registry :: "'q handler_registry \<Rightarrow> 'q handler_registry" where
  "move_registry hr = \<lparr>registered = registered hr\<rparr>"

definition addHandler :: "'q handler_function \<Rightarrow> 'q handler_registry \<Rightarrow> 'q handler_registry" where
  "addHandler h r = r\<lparr>registered := registered r @ [h]\<rparr>"

definition handlers :: "'q handler_registry \<Rightarrow> 'q handler_function list" where
  "handlers r = registered r"

text \<open>
  \<open>GlobalHandlerRegistry::global()\<close>: a static object, constructed empty when it is first used.
\<close>

definition global_registry :: "'q handler_registry" where
  "global_registry = new_registry"

text \<open>The loop of \<open>handle_request\<close>: stop at the first handler that handled the request.\<close>

fun try_handlers ::
    "'q handler_function list \<Rightarrow> request \<Rightarrow> (response \<Rightarrow> 'q \<Rightarrow> 'q) \<Rightarrow> settings \<Rightarrow> 'q
       \<Rightarrow> bool \<times> request \<times> 'q" where
  "try_handlers [] req send s q = (False, req, q)"
| "try_handlers (h # hs) req send s q =
     (case h req send s q of (handled, req', q') \<Rightarrow>
        if handled then (True, req', q') else try_handlers hs req' send s q')"

definition handle_request ::
    "beast_api \<Rightarrow> 'q handler_registry \<Rightarrow> string \<Rightarrow> request \<Rightarrow> (response \<Rightarrow> 'q \<Rightarrow> 'q) \<Rightarrow> settings \<Rightarrow> 'q
       \<Rightarrow> 'q" where
  "handle_request B registry doc_root req send s q = (
     let gHandlers = handlers registry
     in if gHandlers = [] then
          case try_handlers gHandlers req send s q of (handled, req', q') \<Rightarrow>
            if \<not> handled then default_handle_request B (document_root s) req' send s q' else q'
        else default_handle_request B (document_root s) req send s q)"

text \<open>The handler classes of \<open>handler.hpp\<close> and \<open>default.hpp\<close>: their \<open>handle\<close> methods.\<close>

datatype handler_class = Handler | Bad_request_handler | Live_request_handler

fun handle :: "handler_class \<Rightarrow> request \<Rightarrow> int" where
  "handle Handler req = 200"
| "handle Bad_request_handler req = 400"
| "handle Live_request_handler req = 200"

section \<open>What the default handler answers\<close>

text \<open>The one response it sends, seen through a \<open>send\<close> that just keeps it.\<close>

definition default_response :: "beast_api \<Rightarrow> string \<Rightarrow> request \<Rightarrow> settings \<Rightarrow> response" where
  "default_response B doc_root req s =
     default_handle_request B doc_root req (\<lambda>r _. r) s (new_response Status_ok 0 Empty_body)"

definition known_method :: "request \<Rightarrow> bool" where
  "known_method req \<longleftrightarrow> verb_of req = Verb_get \<or> verb_of req = Verb_head"

definition legal_target :: "string \<Rightarrow> bool" where
  "legal_target t \<longleftrightarrow> prefix ''/'' t \<and> \<not> sublist ''..'' t"

lemma legal_target_iff:
  "legal_target t \<longleftrightarrow> \<not> (t = '''' \<or> t ! 0 \<noteq> CHR ''/'' \<or> find_str ''..'' t \<noteq> None)"
  by (cases t) (auto simp: legal_target_def find_str_None)

lemma legal_targetE:
  assumes "legal_target t"
  obtains u where "t = CHR ''/'' # u" and "\<not> sublist ''..'' u"
  using assms by (cases t) (auto simp: legal_target_def sublist_Cons_right)

abbreviation opened :: "beast_api \<Rightarrow> string \<Rightarrow> request \<Rightarrow> error_code \<times> string" where
  "opened B doc_root req \<equiv> api_open B (c_str (file_path doc_root (target req)))"

lemma default_handle_request_sends:
  "default_handle_request B doc_root req send s q = send (default_response B doc_root req s) q"
  by (simp add: default_response_def default_handle_request_def Let_def split: prod.splits)

text \<open>One equation per branch.\<close>

lemma response_unknown_method:
  "\<not> known_method req \<Longrightarrow>
     default_response B doc_root req s = bad_request B req s ''Unknown HTTP-method''"
  by (simp add: default_response_def default_handle_request_def known_method_def)

lemma response_illegal_target:
  "known_method req \<Longrightarrow> \<not> legal_target (target req) \<Longrightarrow>
     default_response B doc_root req s = bad_request B req s ''Illegal request-target''"
  unfolding legal_target_iff
  by (auto simp: default_response_def default_handle_request_def known_method_def)

lemma response_file_error:
  assumes "known_method req" and "legal_target (target req)"
    and "fst (opened B doc_root req) = ec" and "is_error ec"
  shows "default_response B doc_root req s =
    (if ec = No_such_file then not_found B req s (target req)
     else server_error B req s (api_message B ec))"
  using assms unfolding legal_target_iff
  by (auto simp: default_response_def default_handle_request_def known_method_def Let_def
      split: prod.splits)

lemma response_served:
  assumes "known_method req" and "legal_target (target req)"
    and "opened B doc_root req = (No_error, content)"
  shows "default_response B doc_root req s =
    \<lparr>res_status = Status_ok, res_version = version req, res_server = Some (service_version s),
     res_content_type = Some (mime_type (api_iequals B) (file_path doc_root (target req))),
     res_keep_alive = Some (keep_alive req), res_content_length = Some (length content),
     res_body = (if verb_of req = Verb_head then Empty_body else File_body content)\<rparr>"
  using assms unfolding legal_target_iff
  by (auto simp: default_response_def default_handle_request_def known_method_def Let_def
      new_response_def)

lemma bad_request_eq:
  "prepare_payload_law B \<Longrightarrow> bad_request B req s why =
    \<lparr>res_status = Status_bad_request, res_version = version req,
     res_server = Some (service_version s), res_content_type = Some ''text/html'',
     res_keep_alive = Some (keep_alive req), res_content_length = Some (length why),
     res_body = String_body why\<rparr>"
  by (simp add: bad_request_def prepare_payload_law_def new_response_def)

lemma not_found_eq:
  "prepare_payload_law B \<Longrightarrow> not_found B req s tgt =
    (let text = ''The resource '' @ quote @ tgt @ quote @ '' was not found.'' in
    \<lparr>res_status = Status_not_found, res_version = version req,
     res_server = Some (service_version s), res_content_type = Some ''text/html'',
     res_keep_alive = Some (keep_alive req), res_content_length = Some (length text),
     res_body = String_body text\<rparr>)"
  by (simp add: not_found_def prepare_payload_law_def new_response_def Let_def)

lemma server_error_eq:
  "prepare_payload_law B \<Longrightarrow> server_error B req s what =
    (let text = ''An error occurred: '' @ quote @ what @ quote in
    \<lparr>res_status = Status_internal_server_error, res_version = version req,
     res_server = Some (service_version s), res_content_type = Some ''text/html'',
     res_keep_alive = Some (keep_alive req), res_content_length = Some (length text),
     res_body = String_body text\<rparr>)"
  by (simp add: server_error_def prepare_payload_law_def new_response_def Let_def)

lemmas error_responses = bad_request_eq not_found_eq server_error_eq

text \<open>The five outcomes of a request, as a case rule over the equations above.\<close>

lemma response_cases:
  obtains (bad_method) "\<not> known_method req"
      "default_response B doc_root req s = bad_request B req s ''Unknown HTTP-method''"
    | (illegal) "known_method req" "\<not> legal_target (target req)"
      "default_response B doc_root req s = bad_request B req s ''Illegal request-target''"
    | (missing) content where "known_method req" "legal_target (target req)"
      "opened B doc_root req = (No_such_file, content)"
      "default_response B doc_root req s = not_found B req s (target req)"
    | (failed) ec content where "known_method req" "legal_target (target req)"
      "opened B doc_root req = (ec, content)" "is_error ec" "ec \<noteq> No_such_file"
      "default_response B doc_root req s = server_error B req s (api_message B ec)"
    | (served) content where "known_method req" "legal_target (target req)"
      "opened B doc_root req = (No_error, content)"
      "default_response B doc_root req s =
        \<lparr>res_status = Status_ok, res_version = version req, res_server = Some (service_version s),
         res_content_type = Some (mime_type (api_iequals B) (file_path doc_root (target req))),
         res_keep_alive = Some (keep_alive req), res_content_length = Some (length content),
         res_body = (if verb_of req = Verb_head then Empty_body else File_body content)\<rparr>"
proof (cases "known_method req \<and> legal_target (target req)")
  case False
  then show ?thesis
    using that(1,2) response_unknown_method response_illegal_target by blast
next
  case True
  then obtain ec content where o: "opened B doc_root req = (ec, content)" by fastforce
  show ?thesis
  proof (cases "is_error ec")
    case True
    with \<open>known_method req \<and> _\<close> o response_file_error [of req B doc_root ec s]
    show ?thesis using that(3,4) by (cases "ec = No_such_file") auto
  next
    case False
    with \<open>known_method req \<and> _\<close> o response_served [of req B doc_root content s]
    show ?thesis using that(5) by auto
  qed
qed

text \<open>
  The opened path lies below the document root: it is the root, the target and possibly the index
  file, cut at the first NUL, and none of this mentions \<open>..\<close>.
\<close>

lemma sublist_dots_append:
  assumes "\<not> sublist ''..'' u" and "last u = CHR ''/''"
  shows "\<not> sublist ''..'' (u @ ''index.html'')"
proof
  assume "sublist ''..'' (u @ ''index.html'')"
  then show False
    using assms by (auto simp: sublist_append sublist_Cons_right append_eq_Cons_conv Cons_eq_append_conv
        suffix_def)
qed

lemma file_path_below:
  assumes "legal_target t"
  obtains v where "file_path root t = path_cat root (CHR ''/'' # v)" and "\<not> sublist ''..'' v"
proof -
  from assms obtain u where t: "t = CHR ''/'' # u" and u: "\<not> sublist ''..'' u"
    by (rule legal_targetE)
  show ?thesis
  proof (cases "last t = CHR ''/''")
    case True
    have "\<not> sublist ''..'' (u @ ''index.html'')"
      using u True t sublist_dots_append [of u] by (cases "u = ''''") (auto simp: sublist_Cons_right)
    moreover have "file_path root t = path_cat root (CHR ''/'' # u @ ''index.html'')"
      using True t by (simp add: file_path_def path_cat_def)
    ultimately show ?thesis by (rule that [rotated])
  next
    case False
    with t u show ?thesis by (intro that [of u]) (simp_all add: file_path_def)
  qed
qed

lemma c_str_path_cat:
  assumes "CHR 0x00 \<notin> set root"
  shows "c_str (path_cat root (CHR ''/'' # v)) = path_cat root (CHR ''/'' # c_str v)"
proof -
  have "c_str (d @ CHR ''/'' # v) = d @ CHR ''/'' # c_str v" if "CHR 0x00 \<notin> set d" for d
    using that unfolding c_str_def by (subst takeWhile_append_all) auto
  moreover have "CHR 0x00 \<notin> set (strip_back (CHR ''/'') root)"
    using assms by (auto simp: strip_back_def dest: in_set_takeD)
  ultimately show ?thesis by (simp add: path_cat_def c_str_def)
qed

lemma opened_below:
  assumes "legal_target t" and "CHR 0x00 \<notin> set root"
  shows "prefix (location root) (location (c_str (file_path root t)))"
proof -
  from assms(1) obtain v where fp: "file_path root t = path_cat root (CHR ''/'' # v)"
    and v: "\<not> sublist ''..'' v"
    by (rule file_path_below)
  have "prefix (c_str v) v" by (simp add: c_str_def takeWhile_is_prefix)
  with v have "\<not> sublist ''..'' (c_str v)"
    using prefix_imp_sublist sublist_order.order_trans by blast
  then show ?thesis
    unfolding fp c_str_path_cat [OF assms(2)] by (rule location_path_cat)
qed

text \<open>What every response has in common, whichever branch built it.\<close>

fun octets :: "body \<Rightarrow> string" where
  "octets Empty_body = []"
| "octets (String_body t) = t"
| "octets (File_body t) = t"

lemma response_meta:
  fixes doc_root req s
  assumes "prepare_payload_law B"
  defines "r \<equiv> default_response B doc_root req s"
  shows "res_version r = version req" "res_server r = Some (service_version s)"
    "res_keep_alive r = Some (keep_alive req)" "res_content_length r \<noteq> None"
    "res_body r \<noteq> Empty_body \<Longrightarrow> res_content_length r = Some (length (octets (res_body r)))"
    "res_body r = Empty_body \<Longrightarrow> verb_of req = Verb_head"
  unfolding r_def
  by (cases rule: response_cases [where B = B and doc_root = doc_root and req = req and s = s];
      simp add: error_responses [OF assms(1)] Let_def split: if_splits)+

lemma response_need_eof:
  assumes "prepare_payload_law B" and "need_eof_law B"
  shows "api_need_eof B (default_response B doc_root req s) \<longleftrightarrow> \<not> keep_alive req"
  using assms(2) response_meta(3,4) [OF assms(1)] unfolding need_eof_law_def by blast

end
