(* ===== verification/Websocket_Session.thy ===== *)
theory Websocket_Session
  imports Handlers
begin

text \<open>
  The class template \<open>websocket_session\<close> of \<open>src/c++/systemicai/http/server/sessions.hpp\<close>, which
  echoes messages, and its two derived classes, which own the stream.  An asynchronous operation is
  initiated by a member function, which counts it as outstanding; an event completes an outstanding
  operation and runs the handler bound to it.
\<close>

section \<open>State and operations\<close>

type_synonym ws_message = "bool \<times> string"       \<comment> \<open>text or binary, and the payload\<close>

datatype ws_op =
    Ws_suggested_timeout                          \<comment> \<open>of the server role\<close>
  | Ws_decorator string                           \<comment> \<open>the Server field of the handshake response\<close>
  | Ws_accept request
  | Ws_read
  | Ws_text bool
  | Ws_write string
  | Ws_fail error_code string
  | Ws_closed_by_peer                             \<comment> \<open>the silent return on \<open>error::closed\<close>\<close>

record ws_session =
  ws_stream :: stream                             \<comment> \<open>\<open>ws_\<close>, by the stream below it\<close>
  ws_buffer :: string
  ws_accepts :: nat
  ws_reads :: nat
  ws_writes :: nat
  ws_ops :: "ws_op list"
  ws_cerr :: "string list"
  received :: "ws_message list"                   \<comment> \<open>history: messages read\<close>
  echoed :: "ws_message list"                     \<comment> \<open>history: messages whose write was started\<close>

definition new_ws_session :: "stream \<Rightarrow> ws_session" where
  "new_ws_session st = \<lparr>ws_stream = st, ws_buffer = '''', ws_accepts = 0, ws_reads = 0, ws_writes = 0, ws_ops = [],
     ws_cerr = [], received = [], echoed = []\<rparr>"

definition ws_do_fail :: "beast_api \<Rightarrow> error_code \<Rightarrow> string \<Rightarrow> ws_session \<Rightarrow> ws_session" where
  "ws_do_fail B ec what w = w\<lparr>ws_ops := ws_ops w @ [Ws_fail ec what],
     ws_cerr := ws_cerr w @ fail (api_message B) ec what\<rparr>"

text \<open>The two constructors.\<close>

definition new_plain_websocket_session :: "stream \<Rightarrow> ws_session" where
  "new_plain_websocket_session st = new_ws_session st"

definition new_ssl_websocket_session :: "stream \<Rightarrow> ws_session" where
  "new_ssl_websocket_session st = new_ws_session st"

definition ws_do_accept :: "beast_api \<Rightarrow> request \<Rightarrow> ws_session \<Rightarrow> ws_session" where
  "ws_do_accept B req w = w\<lparr>
     ws_ops := ws_ops w @ [Ws_suggested_timeout, Ws_decorator (api_version B @ '' advanced-server-flex''),
       Ws_accept req],
     ws_accepts := ws_accepts w + 1\<rparr>"

definition ws_run :: "beast_api \<Rightarrow> request \<Rightarrow> ws_session \<Rightarrow> ws_session" where
  "ws_run B req w = ws_do_accept B req w"

text \<open>
  The two overloads of \<open>make_websocket_session\<close>, chosen by the type of the stream: a new session for
  the stream, started with the request.
\<close>

definition make_websocket_session :: "beast_api \<Rightarrow> stream \<Rightarrow> request \<Rightarrow> ws_session" where
  "make_websocket_session B st req =
     (if is_tls st then ws_run B req (new_ssl_websocket_session st)
      else ws_run B req (new_plain_websocket_session st))"

definition ws_do_read :: "ws_session \<Rightarrow> ws_session" where
  "ws_do_read w = w\<lparr>ws_ops := ws_ops w @ [Ws_read], ws_reads := ws_reads w + 1\<rparr>"

definition ws_on_accept :: "beast_api \<Rightarrow> error_code \<Rightarrow> ws_session \<Rightarrow> ws_session" where
  "ws_on_accept B ec w = (if is_error ec then ws_do_fail B ec ''accept'' w else ws_do_read w)"

text \<open>\<open>got_text\<close> is the stream's answer about the message just read.\<close>

definition ws_on_read :: "beast_api \<Rightarrow> error_code \<Rightarrow> bool \<Rightarrow> ws_session \<Rightarrow> ws_session" where
  "ws_on_read B ec got_text w =
     (if ec = Ws_closed then w\<lparr>ws_ops := ws_ops w @ [Ws_closed_by_peer]\<rparr>
      else if is_error ec then ws_do_fail B ec ''read'' w
      else w\<lparr>ws_ops := ws_ops w @ [Ws_text got_text, Ws_write (ws_buffer w)],
             ws_writes := ws_writes w + 1,
             echoed := echoed w @ [(got_text, ws_buffer w)]\<rparr>)"

definition ws_on_write :: "beast_api \<Rightarrow> error_code \<Rightarrow> ws_session \<Rightarrow> ws_session" where
  "ws_on_write B ec w =
     (if is_error ec then ws_do_fail B ec ''write'' w
      else ws_do_read (w\<lparr>ws_buffer := drop (length (ws_buffer w)) (ws_buffer w)\<rparr>))"

text \<open>A read appends the octets of the message to the buffer.\<close>

datatype ws_event =
    Ws_accept_done error_code
  | Ws_read_done error_code bool string
  | Ws_write_done error_code

definition ws_finish_read :: "error_code \<Rightarrow> bool \<Rightarrow> string \<Rightarrow> ws_session \<Rightarrow> ws_session" where
  "ws_finish_read ec txt payload w = w\<lparr>ws_reads := ws_reads w - 1,
     ws_buffer := ws_buffer w @ payload,
     received := received w @ (if is_error ec then [] else [(txt, payload)])\<rparr>"

inductive ws_step :: "beast_api \<Rightarrow> ws_session \<Rightarrow> ws_event \<Rightarrow> ws_session \<Rightarrow> bool" for B where
  ws_accept_step: "0 < ws_accepts w \<Longrightarrow>
     ws_step B w (Ws_accept_done ec) (ws_on_accept B ec (w\<lparr>ws_accepts := ws_accepts w - 1\<rparr>))"
| ws_read_step: "0 < ws_reads w \<Longrightarrow>
     ws_step B w (Ws_read_done ec txt payload) (ws_on_read B ec txt (ws_finish_read ec txt payload w))"
| ws_write_step: "0 < ws_writes w \<Longrightarrow>
     ws_step B w (Ws_write_done ec) (ws_on_write B ec (w\<lparr>ws_writes := ws_writes w - 1\<rparr>))"

inductive_cases ws_stepE: "ws_step B w e w'"

fun ws_next :: "beast_api \<Rightarrow> ws_session \<Rightarrow> ws_event \<Rightarrow> ws_session option" where
  "ws_next B w (Ws_accept_done ec) =
     (if 0 < ws_accepts w then Some (ws_on_accept B ec (w\<lparr>ws_accepts := ws_accepts w - 1\<rparr>)) else None)"
| "ws_next B w (Ws_read_done ec txt payload) =
     (if 0 < ws_reads w then Some (ws_on_read B ec txt (ws_finish_read ec txt payload w)) else None)"
| "ws_next B w (Ws_write_done ec) =
     (if 0 < ws_writes w then Some (ws_on_write B ec (w\<lparr>ws_writes := ws_writes w - 1\<rparr>)) else None)"

lemma ws_next_step: "ws_next B w e = Some w' \<longleftrightarrow> ws_step B w e w'"
  by (cases e) (auto simp: ws_step.simps)

definition ws_started :: "beast_api \<Rightarrow> ws_session \<Rightarrow> bool" where
  "ws_started B w \<longleftrightarrow> (\<exists>st req. w = make_websocket_session B st req)"

lemma ws_started_make [intro, simp]: "ws_started B (make_websocket_session B st req)"
  unfolding ws_started_def by blast

abbreviation ws_reach :: "beast_api \<Rightarrow> ws_session \<Rightarrow> bool" where
  "ws_reach B \<equiv> reach (ws_started B) (ws_step B)"

section \<open>The invariant\<close>

fun ws_is_end :: "ws_op \<Rightarrow> bool" where
  "ws_is_end (Ws_fail ec what) = True"
| "ws_is_end Ws_closed_by_peer = True"
| "ws_is_end op = False"

definition ws_ended :: "ws_session \<Rightarrow> bool" where
  "ws_ended w \<longleftrightarrow> list_ex ws_is_end (ws_ops w)"

definition ws_inv :: "ws_session \<Rightarrow> bool" where
  "ws_inv w \<longleftrightarrow>
     ws_accepts w + ws_reads w + ws_writes w = (if ws_ended w then 0 else 1) \<and>
     (0 < ws_accepts w + ws_reads w \<longrightarrow> ws_buffer w = '''') \<and>
     (0 < ws_writes w \<longrightarrow> received w \<noteq> [] \<and> ws_buffer w = snd (last (received w))) \<and>
     echoed w = received w"

declare ws_on_accept_def [op_defs] ws_on_read_def [op_defs] ws_on_write_def [op_defs]
  ws_do_read_def [op_defs] ws_do_fail_def [op_defs] ws_finish_read_def [op_defs]

lemmas ws_start_defs = make_websocket_session_def ws_run_def ws_do_accept_def
  new_plain_websocket_session_def new_ssl_websocket_session_def new_ws_session_def

lemma ws_started_inv:
  assumes "ws_started B w"
  shows "ws_inv w"
proof -
  from assms obtain st req where w: "w = make_websocket_session B st req" by (auto simp: ws_started_def)
  show ?thesis
    unfolding w by (cases "is_tls st") (simp_all add: ws_inv_def ws_ended_def ws_start_defs)
qed

text \<open>The stream stays the one that it was made with.\<close>

lemma ws_stream_make [simp]: "ws_stream (make_websocket_session B st req) = st"
  by (simp add: ws_start_defs)

lemma ws_stream_step: "ws_step B w e w' \<Longrightarrow> ws_stream w' = ws_stream w"
  by (erule ws_stepE) (auto simp: op_defs)

lemma ws_step_inv:
  assumes "ws_step B w e w'" and "ws_inv w"
  shows "ws_inv w'"
  using assms
  by cases (auto simp: ws_inv_def op_defs ws_ended_def split: if_splits)

interpretation ws: invariant_of "ws_started B" "ws_step B" ws_inv for B
  by unfold_locales (auto intro: ws_started_inv ws_step_inv)

section \<open>The specification\<close>

text \<open>
  An echo server for one peer: after the handshake it waits for a message, echoes it and waits
  again, until something ends it.
\<close>

datatype echo = Handshaking | Waiting | Echoing ws_message | Over

datatype echo_label = Shaken_hands | Got ws_message | Sent | Ended

inductive echo_step :: "echo \<Rightarrow> echo_label \<Rightarrow> echo \<Rightarrow> bool" where
  echo_accept: "echo_step Handshaking Shaken_hands Waiting"
| echo_got: "echo_step Waiting (Got m) (Echoing m)"
| echo_sent: "echo_step (Echoing m) Sent Waiting"
| echo_end: "x \<noteq> Over \<Longrightarrow> echo_step x Ended Over"

inductive_simps echo_step_simps [simp]:
  "echo_step x Shaken_hands y" "echo_step x (Got m) y" "echo_step x Sent y" "echo_step x Ended y"

definition abs_ws :: "ws_session \<Rightarrow> echo" where
  "abs_ws w =
     (if 0 < ws_accepts w then Handshaking
      else if 0 < ws_reads w then Waiting
      else if 0 < ws_writes w then Echoing (last (echoed w))
      else Over)"

text \<open>What each event is in the specification.\<close>

fun echo_of :: "ws_event \<Rightarrow> echo_label" where
  "echo_of (Ws_accept_done ec) = (if is_error ec then Ended else Shaken_hands)"
| "echo_of (Ws_read_done ec txt payload) = (if is_error ec then Ended else Got (txt, payload))"
| "echo_of (Ws_write_done ec) = (if is_error ec then Ended else Sent)"

lemma ws_step_echo:
  assumes "ws_step B w e w'" and "ws_inv w"
  shows "echo_step (abs_ws w) (echo_of e) (abs_ws w')"
  using assms
  by cases (auto simp: abs_ws_def ws_inv_def op_defs split: if_splits)

interpretation ws_sim: simulation "ws_started B" "ws_step B" ws_inv "\<lambda>x. x = Handshaking" echo_step abs_ws
  for B
proof unfold_locales
  fix w
  assume "ws_started B w"
  then show "abs_ws w = Handshaking"
    by (auto simp: ws_started_def abs_ws_def ws_start_defs)
qed (use ws_step_echo in blast)

end
