(* ===== verification/Work_Queue.thy ===== *)
theory Work_Queue
  imports Prelude
begin

text \<open>
  The class \<open>http_session::queue\<close> of \<open>src/c++/systemicai/http/server/sessions.hpp\<close>, which holds the
  responses of pipelined requests.  A work item is its message; invoking a work item starts its
  write, so an operation returns, besides the new items, the item that it invoked, if any.

  The locale \<open>pipeline\<close> is the contract between this class and the session: first in first out, one
  item at the head at work, a limit.  What the session needs is proved from the contract.
\<close>

section \<open>The contract\<close>

locale pipeline =
  fixes content :: "'q \<Rightarrow> 'a list"
    and bound :: nat
    and full :: "'q \<Rightarrow> bool"
    and send :: "'q \<Rightarrow> 'a \<Rightarrow> 'q \<times> 'a option"
    and written :: "'q \<Rightarrow> (bool \<times> 'q \<times> 'a option) option"
  assumes full_iff: "full q \<longleftrightarrow> bound \<le> length (content q)"
    and bound_pos: "0 < bound"
    and content_send: "send q a = (q', st) \<Longrightarrow> content q' = content q @ [a]"
    and send_starts: "send q a = (q', st) \<Longrightarrow> st = (if content q = [] then Some a else None)"
    and written_None: "written q = None \<longleftrightarrow> content q = []"
    and written_full: "written q = Some (was, q', st) \<Longrightarrow> was = full q"
    and content_written: "written q = Some (was, q', st) \<Longrightarrow> content q' = tl (content q)"
    and written_starts: "written q = Some (was, q', st) \<Longrightarrow>
          st = (if content q' = [] then None else Some (hd (content q')))"
begin

text \<open>
  The history of a queue: what was handed to it, what was started, what was completed.  The laws
  keep these three in step with the content.
\<close>

definition history :: "'q \<Rightarrow> 'a list \<Rightarrow> 'a list \<Rightarrow> 'a list \<Rightarrow> bool" where
  "history q queued started completed \<longleftrightarrow>
     queued = completed @ content q \<and> started = completed @ take 1 (content q)"

lemma history_send:
  assumes "history q queued started completed" and "send q a = (q', st)"
  shows "history q' (queued @ [a]) (started @ (case st of None \<Rightarrow> [] | Some x \<Rightarrow> [x])) completed"
  using assms(1) content_send [OF assms(2)] send_starts [OF assms(2)]
  by (auto simp: history_def take_Suc_0 Suc_le_eq)

lemma history_written:
  assumes "history q queued started completed" and "written q = Some (was, q', st)"
  shows "history q' queued (started @ (case st of None \<Rightarrow> [] | Some x \<Rightarrow> [x]))
           (completed @ [hd (content q)])"
proof -
  from assms(2) have "content q \<noteq> []" by (metis written_None option.distinct(1))
  then show ?thesis
    using assms(1) content_written [OF assms(2)] written_starts [OF assms(2)]
    by (cases "content q") (auto simp: history_def take_Suc_0)
qed

lemma not_full_written:
  assumes "written q = Some (was, q', st)" and "length (content q) \<le> bound"
  shows "\<not> full q'"
proof -
  from assms(1) have "content q \<noteq> []" by (metis written_None option.distinct(1))
  with assms(2) show ?thesis
    using content_written [OF assms(1)] by (cases "content q") (auto simp: full_iff)
qed

end

section \<open>The code's queue\<close>

definition limit :: nat where
  "limit = 8"

definition is_full :: "'a list \<Rightarrow> bool" where
  "is_full items \<longleftrightarrow> limit \<le> length items"

text \<open>
  Called when a message finishes sending: whether the queue was full, the remaining items and the
  item invoked.  On an empty queue the assertion fails.
\<close>

definition queue_on_write :: "'a list \<Rightarrow> (bool \<times> 'a list \<times> 'a option) option" where
  "queue_on_write items =
     (if items = [] then None
      else
        let was_full = is_full items;
            items' = tl items
        in Some (was_full, items', if items' \<noteq> [] then Some (hd items') else None))"

text \<open>Called by the HTTP handler to send a response.\<close>

definition queue_send :: "'a list \<Rightarrow> 'a \<Rightarrow> 'a list \<times> 'a option" where
  "queue_send items msg = (
     let items' = items @ [msg]
     in (items', if length items' = 1 then Some (hd items') else None))"

interpretation wq: pipeline "\<lambda>items. items" limit is_full queue_send queue_on_write
  by unfold_locales
     (auto simp: is_full_def limit_def queue_send_def queue_on_write_def Let_def split: if_splits)

section \<open>Any sequence of calls\<close>

datatype 'a queue_call = Send 'a | Write_completed

text \<open>
  The queue under a sequence of calls, with its history; \<open>None\<close> as soon as a call is undefined.
\<close>

fun queue_run :: "'a list \<times> 'a list \<times> 'a list \<times> 'a list \<Rightarrow> 'a queue_call list
    \<Rightarrow> ('a list \<times> 'a list \<times> 'a list \<times> 'a list) option" where
  "queue_run st [] = Some st"
| "queue_run (items, queued, started, completed) (Send a # cs) =
     (case queue_send items a of (items', x) \<Rightarrow>
        queue_run (items', queued @ [a], started @ (case x of None \<Rightarrow> [] | Some m \<Rightarrow> [m]), completed) cs)"
| "queue_run (items, queued, started, completed) (Write_completed # cs) =
     (case queue_on_write items of
        None \<Rightarrow> None
      | Some (was_full, items', x) \<Rightarrow>
          queue_run (items', queued, started @ (case x of None \<Rightarrow> [] | Some m \<Rightarrow> [m]),
            completed @ [hd items]) cs)"

lemma queue_run_history:
  assumes "queue_run (items, queued, started, completed) cs = Some (items', queued', started', completed')"
    and "wq.history items queued started completed"
  shows "wq.history items' queued' started' completed'"
  using assms
proof (induction "(items, queued, started, completed)" cs
    arbitrary: items queued started completed rule: queue_run.induct)
  case (1)
  then show ?case by simp
next
  case (2 items queued started completed a cs)
  obtain it x where q: "queue_send items a = (it, x)" by fastforce
  from wq.history_send [OF "2.prems"(2) q] "2.hyps" [OF q [symmetric]] "2.prems"(1) q
  show ?case by simp
next
  case (3 items queued started completed cs)
  from "3.prems"(1) obtain was it x where q: "queue_on_write items = Some (was, it, x)"
    by (auto split: option.splits)
  from wq.history_written [OF "3.prems"(2) q] "3.hyps" [OF q] "3.prems"(1) q
  show ?case by simp
qed

fun is_send :: "'a queue_call \<Rightarrow> bool" where
  "is_send (Send a) = True"
| "is_send Write_completed = False"

fun sent :: "'a queue_call list \<Rightarrow> 'a list" where
  "sent [] = []"
| "sent (Send a # cs) = a # sent cs"
| "sent (Write_completed # cs) = sent cs"

definition pending :: "nat \<Rightarrow> 'a queue_call list \<Rightarrow> int" where
  "pending n cs = int n + int (length (filter is_send cs)) - int (length (filter (Not \<circ> is_send) cs))"

lemma pending_simps [simp]:
  "pending n [] = int n"
  "pending n (Send a # cs) = pending (Suc n) cs"
  "pending (Suc n) (Write_completed # cs) = pending n cs"
  by (simp_all add: pending_def)

lemma queue_run_queued:
  "queue_run (items, queued, started, completed) cs = Some (items', queued', started', completed') \<Longrightarrow>
     queued' = queued @ sent cs"
  by (induction "(items, queued, started, completed)" cs
      arbitrary: items queued started completed rule: queue_run.induct)
     (auto split: prod.splits option.splits)

lemma queue_run_defined_iff:
  "queue_run (items, queued, started, completed) cs \<noteq> None \<longleftrightarrow>
     (\<forall>n \<le> length cs. 0 \<le> pending (length items) (take n cs))"
proof (induction cs arbitrary: items queued started completed)
  case Nil
  then show ?case by simp
next
  case (Cons c cs)
  have all_Suc: "(\<forall>n \<le> Suc k. P n) \<longleftrightarrow> P 0 \<and> (\<forall>n \<le> k. P (Suc n))" for P and k :: nat
    by (metis Suc_le_mono le0 not0_implies_Suc)
  show ?case
  proof (cases c)
    case (Send a)
    with Cons.IH show ?thesis by (simp add: queue_send_def Let_def all_Suc)
  next
    case Write_completed
    show ?thesis
    proof (cases items)
      case Nil
      then have "\<not> 0 \<le> pending (length items) (take 1 (c # cs))"
        using Write_completed by (simp add: pending_def)
      then have "\<not> (\<forall>n \<le> length (c # cs). 0 \<le> pending (length items) (take n (c # cs)))"
        by (metis One_nat_def Suc_le_mono le0 length_Cons)
      with Nil Write_completed show ?thesis by (simp add: queue_on_write_def)
    next
      case (Cons x xs)
      with Write_completed Cons.IH show ?thesis by (simp add: queue_on_write_def Let_def all_Suc)
    qed
  qed
qed

text \<open>
  C20: The queue is a pipeline that only an excess completion breaks.  A sequence of calls on an
  empty queue is defined exactly if no prefix has more completed writes than responses; and then
  the responses sent are those completed followed by those waiting, in order, and a write has been
  started for exactly the completed ones and the first of the waiting.
\<close>

theorem queue_pipeline:
  "(queue_run ([], [], [], []) cs \<noteq> None \<longleftrightarrow> (\<forall>n \<le> length cs. 0 \<le> pending 0 (take n cs))) \<and>
   (case queue_run ([], [], [], []) cs of
      None \<Rightarrow> True
    | Some (items, queued, started, completed) \<Rightarrow>
        sent cs = completed @ items \<and> queued = sent cs \<and> started = completed @ take 1 items)"
proof
  show "queue_run ([], [], [], []) cs \<noteq> None \<longleftrightarrow> (\<forall>n \<le> length cs. 0 \<le> pending 0 (take n cs))"
    using queue_run_defined_iff [of "[]" "[]" "[]" "[]" cs] by simp
  have "wq.history [] [] [] []" by (simp add: wq.history_def)
  then show "case queue_run ([], [], [], []) cs of
      None \<Rightarrow> True
    | Some (items, queued, started, completed) \<Rightarrow>
        sent cs = completed @ items \<and> queued = sent cs \<and> started = completed @ take 1 items"
    using queue_run_history [of "[]" "[]" "[]" "[]" cs] queue_run_queued [of "[]" "[]" "[]" "[]" cs]
    by (auto simp: wq.history_def split: option.splits)
qed

theorem queue_pipeline_witness:
  "(case queue_run ([], [], [], []) [Send ''a'', Send ''b'', Write_completed] of
      None \<Rightarrow> False | Some (items, queued, started, completed) \<Rightarrow>
        items = [''b''] \<and> started = completed @ [''b''])"
  using queue_pipeline [of "[Send ''a'', Send ''b'', Write_completed]"]
  by (simp add: queue_send_def queue_on_write_def Let_def)

end
