(* ===== verification/Http_Session.thy ===== *)
theory Http_Session
  imports Websocket_Session Work_Queue
begin

text \<open>
  The class template \<open>http_session\<close> and its two instances \<open>plain_http_session\<close> and
  \<open>ssl_http_session\<close> of \<open>src/c++/systemicai/http/server/sessions.hpp\<close>.

  An asynchronous operation is initiated by a member function, which counts it as outstanding, and
  completes later by an event that calls the handler bound to it.  An event is enabled only while
  its operation is outstanding; which event comes next, with which error code, is left open.  The
  type counts any number of outstanding operations, so that there is never more than one is
  something to prove.  The members that the class template takes from the derived class
  (\<open>do_eof\<close>) are an argument of its operations, and the locale \<open>derived_session\<close> says what the
  template relies on.
\<close>

section \<open>State\<close>

type_synonym addr = nat

record parser =
  body_limit :: nat
  message :: "request option"

text \<open>What the session asks of the stream, its timer and the classes it creates.\<close>

datatype io_op =
    New_parser nat                 \<comment> \<open>\<open>parser_.emplace()\<close> with its body limit\<close>
  | Expires_after nat
  | Expires_never
  | Read
  | Write response bool            \<comment> \<open>with the \<open>close\<close> flag bound to its completion handler\<close>
  | Shutdown_send
  | Handshake string
  | Ssl_shutdown
  | Release_stream
  | Websocket_run request
  | Fail error_code string

record http_session =
  doc_root :: string
  items :: "response list"                 \<comment> \<open>\<open>queue_.items_\<close>\<close>
  stream :: stream                         \<comment> \<open>\<open>stream_\<close> of the derived class\<close>
  settings_ref :: addr                     \<comment> \<open>the reference \<open>settings_\<close>\<close>
  parser_opt :: "parser option"            \<comment> \<open>\<open>parser_\<close>\<close>
  buffer :: string                         \<comment> \<open>\<open>buffer_\<close>\<close>
  reads :: nat                             \<comment> \<open>outstanding operations\<close>
  writes :: "(response \<times> bool) list"
  handshakes :: nat
  shutdowns :: nat
  upgraded_to :: "ws_session option"        \<comment> \<open>history: what it has made of an upgrade\<close>
  null_stream_used :: bool                 \<comment> \<open>an operation has used \<open>Tls_moved\<close>\<close>
  ops :: "io_op list"                      \<comment> \<open>history: the operations in their order\<close>
  cerr :: "string list"
  handled :: "request list"                \<comment> \<open>history: requests given to \<open>handle_request\<close>\<close>
  queued :: "response list"                \<comment> \<open>history: responses given to the queue\<close>
  started :: "response list"               \<comment> \<open>history: responses whose write was started\<close>
  completed :: "response list"             \<comment> \<open>history: responses removed after their write\<close>

text \<open>The queue starts empty.\<close>

definition new_queue :: "response list" where
  "new_queue = []"

definition new_http_session :: "stream \<Rightarrow> string \<Rightarrow> string \<Rightarrow> addr \<Rightarrow> http_session" where
  "new_http_session st buf root ref = \<lparr>doc_root = root, items = new_queue, stream = st, settings_ref = ref,
     parser_opt = None, buffer = buf, reads = 0, writes = [], handshakes = 0, shutdowns = 0,
     upgraded_to = None, null_stream_used = False, ops = [], cerr = [], handled = [],
     queued = [], started = [], completed = []\<rparr>"

text \<open>
  What the session lives in: the library, the handler registry, and the memory that references
  point into.
\<close>

record env =
  lib :: beast_api
  registry :: "http_session handler_registry"
  heap :: "addr \<Rightarrow> settings option"

section \<open>Operations of the class template\<close>

definition session_fail :: "beast_api \<Rightarrow> error_code \<Rightarrow> string \<Rightarrow> http_session \<Rightarrow> http_session" where
  "session_fail B ec what s =
     s\<lparr>ops := ops s @ [Fail ec what], cerr := cerr s @ fail (api_message B) ec what\<rparr>"

text \<open>
  An operation that goes through the stream is undefined on a null stream; this is recorded where it
  happens, and a handler in which it has happened returns the undefinedness.
\<close>

definition uses_stream :: "http_session \<Rightarrow> http_session" where
  "uses_stream s = s\<lparr>null_stream_used := null_stream_used s \<or> stream s = Tls_moved\<rparr>"

definition returns :: "http_session \<Rightarrow> ub + http_session" where
  "returns s = (if null_stream_used s then Inl Moved_stream else Inr s)"

lemma returns_Inr [simp]: "returns s = Inr t \<longleftrightarrow> \<not> null_stream_used s \<and> t = s"
  by (auto simp: returns_def)

definition do_read :: "http_session \<Rightarrow> http_session" where
  "do_read s = uses_stream (s\<lparr>
     parser_opt := Some \<lparr>body_limit = 10000, message = None\<rparr>,
     reads := reads s + 1,
     ops := ops s @ [New_parser 10000, Expires_after 30, Read]\<rparr>)"

text \<open>\<open>work_impl::operator()\<close>: start the write of the item's message.\<close>

definition invoke_work :: "beast_api \<Rightarrow> response \<Rightarrow> http_session \<Rightarrow> http_session" where
  "invoke_work B msg s = uses_stream (s\<lparr>
     writes := writes s @ [(msg, api_need_eof B msg)],
     ops := ops s @ [Write msg (api_need_eof B msg)],
     started := started s @ [msg]\<rparr>)"

definition invoke_opt :: "beast_api \<Rightarrow> response option \<Rightarrow> http_session \<Rightarrow> http_session" where
  "invoke_opt B st s = (case st of None \<Rightarrow> s | Some msg \<Rightarrow> invoke_work B msg s)"

text \<open>\<open>queue_(msg)\<close>, the \<open>send\<close> of the handlers.\<close>

definition send_queue :: "beast_api \<Rightarrow> response \<Rightarrow> http_session \<Rightarrow> http_session" where
  "send_queue B msg s = (case queue_send (items s) msg of (items', st) \<Rightarrow>
     invoke_opt B st (s\<lparr>items := items', queued := queued s @ [msg]\<rparr>))"

text \<open>
  The upgrade hands the stream and the request to a new WebSocket session; the queue, and a write
  that may still be outstanding, stay behind.
\<close>

definition release_stream :: "http_session \<Rightarrow> stream \<times> http_session" where
  "release_stream s = (stream s,
     s\<lparr>stream := moved_from (stream s), ops := ops s @ [Release_stream]\<rparr>)"

definition upgrade :: "beast_api \<Rightarrow> request \<Rightarrow> http_session \<Rightarrow> http_session" where
  "upgrade B req s = (
     let s = uses_stream (s\<lparr>ops := ops s @ [Expires_never]\<rparr>)
     in case release_stream s of (st, s) \<Rightarrow>
          s\<lparr>upgraded_to := Some (make_websocket_session B st req), ops := ops s @ [Websocket_run req]\<rparr>)"

definition on_read ::
    "env \<Rightarrow> (http_session \<Rightarrow> http_session) \<Rightarrow> error_code \<Rightarrow> http_session \<Rightarrow> ub + http_session" where
  "on_read E do_eof ec s =
     (if ec = End_of_stream then returns (do_eof s)
      else if is_error ec then Inr (session_fail (lib E) ec ''read'' s)
      else case Option.bind (parser_opt s) message of
          None \<Rightarrow> Inl Parser_absent
        | Some req \<Rightarrow>
            let s = s\<lparr>parser_opt := map_option (\<lambda>p. p\<lparr>message := None\<rparr>) (parser_opt s)\<rparr>
            in if is_upgrade req then returns (upgrade (lib E) req s)
               else case heap E (settings_ref s) of
                   None \<Rightarrow> Inl Dangling_settings
                 | Some cfg \<Rightarrow>
                     let s = s\<lparr>handled := handled s @ [req]\<rparr>;
                         s = handle_request (lib E) (registry E) (doc_root s) req
                               (send_queue (lib E)) cfg s
                     in returns (if \<not> is_full (items s) then do_read s else s))"

definition on_write ::
    "env \<Rightarrow> (http_session \<Rightarrow> http_session) \<Rightarrow> bool \<Rightarrow> error_code \<Rightarrow> http_session \<Rightarrow> ub + http_session"
  where
  "on_write E do_eof close ec s =
     (if is_error ec then Inr (session_fail (lib E) ec ''write'' s)
      else if close then returns (do_eof s)
      else case queue_on_write (items s) of
          None \<Rightarrow> Inl Assert_failed
        | Some (was_full, items', st) \<Rightarrow>
            let s = invoke_opt (lib E) st
                      (s\<lparr>items := items', completed := completed s @ [hd (items s)]\<rparr>)
            in returns (if was_full then do_read s else s))"

section \<open>The derived classes\<close>

datatype kind = Plain | Ssl

text \<open>The constructors take over the stream; the SSL one puts SSL on top of it.\<close>

definition new_plain_http_session :: "stream \<Rightarrow> string \<Rightarrow> string \<Rightarrow> addr \<Rightarrow> http_session" where
  "new_plain_http_session st buf root ref = new_http_session st buf root ref"

definition new_ssl_http_session :: "stream \<Rightarrow> string \<Rightarrow> string \<Rightarrow> addr \<Rightarrow> http_session" where
  "new_ssl_http_session st buf root ref = new_http_session (ssl_over st) buf root ref"

definition plain_do_eof :: "http_session \<Rightarrow> http_session" where
  "plain_do_eof s = uses_stream (s\<lparr>ops := ops s @ [Shutdown_send]\<rparr>)"

definition ssl_do_eof :: "http_session \<Rightarrow> http_session" where
  "ssl_do_eof s = uses_stream (s\<lparr>ops := ops s @ [Expires_after 30, Ssl_shutdown],
     shutdowns := shutdowns s + 1\<rparr>)"

definition plain_run :: "http_session \<Rightarrow> http_session" where
  "plain_run s = do_read s"

definition ssl_run :: "http_session \<Rightarrow> http_session" where
  "ssl_run s = uses_stream (s\<lparr>ops := ops s @ [Expires_after 30, Handshake (buffer s)],
     handshakes := handshakes s + 1\<rparr>)"

text \<open>\<open>flat_buffer::consume(n)\<close> removes the first \<open>n\<close> octets, or all there are.\<close>

definition on_handshake :: "env \<Rightarrow> error_code \<Rightarrow> nat \<Rightarrow> http_session \<Rightarrow> http_session" where
  "on_handshake E ec bytes_used s =
     (if is_error ec then session_fail (lib E) ec ''handshake'' s
      else do_read (s\<lparr>buffer := drop bytes_used (buffer s)\<rparr>))"

definition on_shutdown :: "env \<Rightarrow> error_code \<Rightarrow> http_session \<Rightarrow> http_session" where
  "on_shutdown E ec s = (if is_error ec then session_fail (lib E) ec ''shutdown'' s else s)"

fun do_eof :: "kind \<Rightarrow> http_session \<Rightarrow> http_session" where
  "do_eof Plain = plain_do_eof"
| "do_eof Ssl = ssl_do_eof"

fun run_session :: "kind \<Rightarrow> http_session \<Rightarrow> http_session" where
  "run_session Plain = plain_run"
| "run_session Ssl = ssl_run"

fun fresh_stream :: "kind \<Rightarrow> nat \<Rightarrow> stream" where
  "fresh_stream Plain = Tcp"
| "fresh_stream Ssl = Tls"

fun new_session :: "kind \<Rightarrow> nat \<Rightarrow> string \<Rightarrow> string \<Rightarrow> addr \<Rightarrow> http_session" where
  "new_session Plain n = new_plain_http_session (Tcp n)"
| "new_session Ssl n = new_ssl_http_session (Tcp n)"

lemma new_session_eq: "new_session k n buf root ref = new_http_session (fresh_stream k n) buf root ref"
  by (cases k) (simp_all add: new_plain_http_session_def new_ssl_http_session_def)

section \<open>Events\<close>

text \<open>
  A completed read has filled the parser with a message and left the octets after it in the buffer.
\<close>

datatype event =
    Read_done error_code request string
  | Write_done nat error_code              \<comment> \<open>which of the outstanding writes\<close>
  | Handshake_done error_code nat
  | Shutdown_done error_code

definition finish_read :: "request \<Rightarrow> string \<Rightarrow> http_session \<Rightarrow> http_session" where
  "finish_read req buf s = s\<lparr>reads := reads s - 1, buffer := buf,
     parser_opt := map_option (\<lambda>p. p\<lparr>message := Some req\<rparr>) (parser_opt s)\<rparr>"

definition finish_write :: "nat \<Rightarrow> http_session \<Rightarrow> http_session" where
  "finish_write i s = s\<lparr>writes := take i (writes s) @ drop (Suc i) (writes s)\<rparr>"

inductive session_step ::
    "env \<Rightarrow> (http_session \<Rightarrow> http_session) \<Rightarrow> http_session \<Rightarrow> event \<Rightarrow> http_session \<Rightarrow> bool"
  for E eof where
  step_read: "0 < reads s \<Longrightarrow> on_read E eof ec (finish_read req buf s) = Inr t \<Longrightarrow>
     session_step E eof s (Read_done ec req buf) t"
| step_write: "i < length (writes s) \<Longrightarrow>
     on_write E eof (snd (writes s ! i)) ec (finish_write i s) = Inr t \<Longrightarrow>
     session_step E eof s (Write_done i ec) t"
| step_handshake: "0 < handshakes s \<Longrightarrow>
     t = on_handshake E ec n (s\<lparr>handshakes := handshakes s - 1\<rparr>) \<Longrightarrow>
     session_step E eof s (Handshake_done ec n) t"
| step_shutdown: "0 < shutdowns s \<Longrightarrow>
     t = on_shutdown E ec (s\<lparr>shutdowns := shutdowns s - 1\<rparr>) \<Longrightarrow>
     session_step E eof s (Shutdown_done ec) t"

inductive_cases session_stepE: "session_step E eof s e t"

text \<open>The same as a function, for concrete runs.\<close>

definition result_opt :: "'a + 'b \<Rightarrow> 'b option" where
  "result_opt r = (case r of Inl _ \<Rightarrow> None | Inr t \<Rightarrow> Some t)"

lemma result_opt_Some [simp]: "result_opt r = Some t \<longleftrightarrow> r = Inr t"
  by (cases r) (auto simp: result_opt_def)

fun session_next ::
    "env \<Rightarrow> (http_session \<Rightarrow> http_session) \<Rightarrow> http_session \<Rightarrow> event \<Rightarrow> http_session option" where
  "session_next E eof s (Read_done ec req buf) =
     (if 0 < reads s then result_opt (on_read E eof ec (finish_read req buf s)) else None)"
| "session_next E eof s (Write_done i ec) =
     (if i < length (writes s)
      then result_opt (on_write E eof (snd (writes s ! i)) ec (finish_write i s)) else None)"
| "session_next E eof s (Handshake_done ec n) =
     (if 0 < handshakes s then Some (on_handshake E ec n (s\<lparr>handshakes := handshakes s - 1\<rparr>)) else None)"
| "session_next E eof s (Shutdown_done ec) =
     (if 0 < shutdowns s then Some (on_shutdown E ec (s\<lparr>shutdowns := shutdowns s - 1\<rparr>)) else None)"

lemma session_next_step: "session_next E eof s e = Some t \<longleftrightarrow> session_step E eof s e t"
  by (cases e) (auto intro: session_step.intros elim: session_stepE split: if_splits)

definition started_by :: "(nat \<Rightarrow> stream) \<Rightarrow> (http_session \<Rightarrow> http_session) \<Rightarrow> http_session \<Rightarrow> bool" where
  "started_by fresh run s \<longleftrightarrow> (\<exists>n buf root ref. s = run (new_http_session (fresh n) buf root ref))"

abbreviation session_reach :: "kind \<Rightarrow> env \<Rightarrow> http_session \<Rightarrow> bool" where
  "session_reach k E \<equiv> reach (started_by (fresh_stream k) (run_session k)) (session_step E (do_eof k))"

lemma started_new_session: "started_by (fresh_stream k) (run_session k) (run_session k (new_session k n buf root ref))"
  unfolding started_by_def new_session_eq by blast

end
