(* ===== verification/Http_Session_Inv.thy ===== *)
theory Http_Session_Inv
  imports Http_Session
begin

text \<open>
  The invariants of an HTTP session.  \<open>derived_session\<close> is the contract between the class template
  and a derived class; the preservation lemmas are proved once under it and hold for the plain and
  the SSL session by interpretation.
\<close>

section \<open>The dispatch as seen by the session\<close>

lemma handle_request_default:
  "handle_request B reg root req send s q = send (default_response B (document_root s) req s) q"
  by (simp add: handle_request_def default_handle_request_sends Let_def)

abbreviation respond :: "env \<Rightarrow> settings \<Rightarrow> request \<Rightarrow> response" where
  "respond E cfg req \<equiv> default_response (lib E) (document_root cfg) req cfg"

section \<open>Case rules for the handlers\<close>

lemma on_read_cases:
  assumes "on_read E eof ec s = Inr t"
  obtains (eof) "ec = End_of_stream" "t = eof s" "\<not> null_stream_used t"
    | (error) "is_error ec" "ec \<noteq> End_of_stream" "t = session_fail (lib E) ec ''read'' s"
    | (upgrade) p req where "ec = No_error" "parser_opt s = Some p" "message p = Some req"
        "is_upgrade req" "t = upgrade (lib E) req (s\<lparr>parser_opt := Some (p\<lparr>message := None\<rparr>)\<rparr>)"
        "\<not> null_stream_used t"
    | (handle) p req cfg u where "ec = No_error" "parser_opt s = Some p" "message p = Some req"
        "\<not> is_upgrade req" "heap E (settings_ref s) = Some cfg"
        "u = send_queue (lib E) (respond E cfg req)
           (s\<lparr>parser_opt := Some (p\<lparr>message := None\<rparr>), handled := handled s @ [req]\<rparr>)"
        "t = (if \<not> is_full (items u) then do_read u else u)" "\<not> null_stream_used t"
  using assms unfolding on_read_def
  by (auto simp: Let_def handle_request_default bind_eq_Some_conv split: if_splits option.splits)

lemma on_write_cases:
  assumes "on_write E eof c ec s = Inr t"
  obtains (error) "is_error ec" "t = session_fail (lib E) ec ''write'' s"
    | (close) "ec = No_error" "c" "t = eof s" "\<not> null_stream_used t"
    | (written) u was_full items' st where "ec = No_error" "\<not> c"
        "queue_on_write (items s) = Some (was_full, items', st)"
        "u = invoke_opt (lib E) st (s\<lparr>items := items', completed := completed s @ [hd (items s)]\<rparr>)"
        "t = (if was_full then do_read u else u)" "\<not> null_stream_used t"
  using assms unfolding on_write_def
  by (auto simp: Let_def split: if_splits option.splits)

section \<open>Frames\<close>

text \<open>What the operations leave alone, and what they do to the rest.\<close>

lemmas op_frames = session_fail_def do_read_def invoke_opt_def invoke_work_def upgrade_def
  uses_stream_def release_stream_def
  finish_read_def finish_write_def on_shutdown_def on_handshake_def

lemma invoke_opt_frame [simp]:
  "items (invoke_opt B st s) = items s" "reads (invoke_opt B st s) = reads s"
  "settings_ref (invoke_opt B st s) = settings_ref s"
  "handshakes (invoke_opt B st s) = handshakes s" "parser_opt (invoke_opt B st s) = parser_opt s"
  "handled (invoke_opt B st s) = handled s" "queued (invoke_opt B st s) = queued s"
  "completed (invoke_opt B st s) = completed s"
  "started (invoke_opt B st s) = started s @ (case st of None \<Rightarrow> [] | Some m \<Rightarrow> [m])"
  "writes (invoke_opt B st s) = writes s @ (case st of None \<Rightarrow> [] | Some m \<Rightarrow> [(m, api_need_eof B m)])"
  "ops (invoke_opt B st s) = ops s @ (case st of None \<Rightarrow> [] | Some m \<Rightarrow> [Write m (api_need_eof B m)])"
  by (auto simp: invoke_opt_def invoke_work_def uses_stream_def split: option.splits)

lemma send_queue_frame [simp]:
  "items (send_queue B m s) = items s @ [m]" "reads (send_queue B m s) = reads s"
  "settings_ref (send_queue B m s) = settings_ref s"
  "handshakes (send_queue B m s) = handshakes s" "parser_opt (send_queue B m s) = parser_opt s"
  "handled (send_queue B m s) = handled s" "queued (send_queue B m s) = queued s @ [m]"
  "completed (send_queue B m s) = completed s"
  "started (send_queue B m s) = started s @ (if items s = [] then [m] else [])"
  "writes (send_queue B m s) = writes s @ (if items s = [] then [(m, api_need_eof B m)] else [])"
  "ops (send_queue B m s) = ops s @ (if items s = [] then [Write m (api_need_eof B m)] else [])"
  by (auto simp: send_queue_def queue_send_def Let_def)

lemma do_read_frame [simp]:
  "items (do_read s) = items s" "reads (do_read s) = Suc (reads s)" "writes (do_read s) = writes s"
  "settings_ref (do_read s) = settings_ref s"
  "handshakes (do_read s) = handshakes s" "parser_opt (do_read s) = Some \<lparr>body_limit = 10000, message = None\<rparr>"
  "handled (do_read s) = handled s" "queued (do_read s) = queued s"
  "completed (do_read s) = completed s" "started (do_read s) = started s"
  "ops (do_read s) = ops s @ [New_parser 10000, Expires_after 30, Read]"
  by (auto simp: do_read_def uses_stream_def)

lemma session_fail_frame [simp]:
  "items (session_fail B ec w s) = items s" "reads (session_fail B ec w s) = reads s"
  "settings_ref (session_fail B ec w s) = settings_ref s"
  "writes (session_fail B ec w s) = writes s" "handshakes (session_fail B ec w s) = handshakes s"
  "shutdowns (session_fail B ec w s) = shutdowns s"
  "parser_opt (session_fail B ec w s) = parser_opt s" "handled (session_fail B ec w s) = handled s"
  "queued (session_fail B ec w s) = queued s" "completed (session_fail B ec w s) = completed s"
  "started (session_fail B ec w s) = started s" "ops (session_fail B ec w s) = ops s @ [Fail ec w]"
  by (auto simp: session_fail_def)

lemma finish_frame [simp]:
  "items (finish_read req b s) = items s" "reads (finish_read req b s) = reads s - 1"
  "settings_ref (finish_read req b s) = settings_ref s"
  "writes (finish_read req b s) = writes s" "handshakes (finish_read req b s) = handshakes s"
  "handled (finish_read req b s) = handled s" "queued (finish_read req b s) = queued s"
  "completed (finish_read req b s) = completed s" "started (finish_read req b s) = started s"
  "ops (finish_read req b s) = ops s"
  "items (finish_write i s) = items s" "reads (finish_write i s) = reads s"
  "settings_ref (finish_write i s) = settings_ref s"
  "writes (finish_write i s) = take i (writes s) @ drop (Suc i) (writes s)"
  "handshakes (finish_write i s) = handshakes s" "parser_opt (finish_write i s) = parser_opt s"
  "handled (finish_write i s) = handled s" "queued (finish_write i s) = queued s"
  "completed (finish_write i s) = completed s" "started (finish_write i s) = started s"
  "ops (finish_write i s) = ops s"
  by (auto simp: finish_read_def finish_write_def)

section \<open>The invariant\<close>

fun is_stop :: "io_op \<Rightarrow> bool" where
  "is_stop Shutdown_send = True"
| "is_stop Ssl_shutdown = True"
| "is_stop (Websocket_run req) = True"
| "is_stop (Fail ec what) = True"
| "is_stop op = False"

text \<open>The session has failed, said goodbye, or become a WebSocket session.\<close>

definition stopped :: "http_session \<Rightarrow> bool" where
  "stopped s \<longleftrightarrow> list_ex is_stop (ops s)"

definition upgraded :: "http_session \<Rightarrow> bool" where
  "upgraded s \<longleftrightarrow> Release_stream \<in> set (ops s)"

text \<open>The queue's contract, its limit, and the answers it holds.\<close>

definition queue_inv :: "env \<Rightarrow> http_session \<Rightarrow> bool" where
  "queue_inv E s \<longleftrightarrow>
     wq.history (items s) (queued s) (started s) (completed s) \<and>
     length (items s) \<le> limit \<and>
     queued s = map (\<lambda>req. respond E (the (heap E (settings_ref s))) req) (handled s)"

text \<open>
  One read or handshake at a time and only while the queue has room; one write at a time, of the
  item at the head, with the flag computed from it.
\<close>

definition io_inv :: "env \<Rightarrow> http_session \<Rightarrow> bool" where
  "io_inv E s \<longleftrightarrow>
     reads s + handshakes s \<le> 1 \<and>
     (0 < reads s \<longrightarrow> \<not> is_full (items s) \<and> parser_opt s \<noteq> None) \<and>
     (0 < handshakes s \<longrightarrow> items s = []) \<and>
     (writes s = [] \<or> items s \<noteq> [] \<and> writes s = [(hd (items s), api_need_eof (lib E) (hd (items s)))])"

text \<open>Until it stops, the session has something to wait for.\<close>

definition live_inv :: "http_session \<Rightarrow> bool" where
  "live_inv s \<longleftrightarrow>
     (\<not> stopped s \<longrightarrow> (items s \<noteq> [] \<longrightarrow> writes s \<noteq> []) \<and>
        (reads s + handshakes s = 0 \<longrightarrow> is_full (items s))) \<and>
     (upgraded s \<longrightarrow> stopped s \<and> reads s + handshakes s = 0 \<and> \<not> is_full (items s))"

text \<open>Each read follows a new parser with the body limit and a 30 second timeout.\<close>

definition armed :: "io_op list \<Rightarrow> bool" where
  "armed xs \<longleftrightarrow> (\<forall>i < length xs. xs ! i = Read \<longrightarrow>
     1 < i \<and> xs ! (i - 1) = Expires_after 30 \<and> xs ! (i - 2) = New_parser 10000)"

definition session_inv :: "env \<Rightarrow> http_session \<Rightarrow> bool" where
  "session_inv E s \<longleftrightarrow> queue_inv E s \<and> io_inv E s \<and> live_inv s \<and> armed (ops s)"

lemma stopped_simps [simp]:
  "stopped (session_fail B ec w s)" "stopped (upgrade B req s)" "upgraded (upgrade B req s)"
  "upgraded (session_fail B ec w s) = upgraded s"
  by (simp_all add: stopped_def upgraded_def upgrade_def release_stream_def uses_stream_def)

lemma upgrade_frame [simp]:
  "items (upgrade B req s) = items s" "reads (upgrade B req s) = reads s"
  "settings_ref (upgrade B req s) = settings_ref s"
  "writes (upgrade B req s) = writes s" "handshakes (upgrade B req s) = handshakes s"
  "parser_opt (upgrade B req s) = parser_opt s" "handled (upgrade B req s) = handled s"
  "queued (upgrade B req s) = queued s" "completed (upgrade B req s) = completed s"
  "started (upgrade B req s) = started s"
  "ops (upgrade B req s) = ops s @ [Expires_never, Release_stream, Websocket_run req]"
  by (auto simp: upgrade_def release_stream_def uses_stream_def)

lemma armed_Nil [simp]: "armed []"
  by (simp add: armed_def)

lemma armed_append_plain:
  assumes "armed xs" and "Read \<notin> set ys"
  shows "armed (xs @ ys)"
proof -
  have "(xs @ ys) ! i \<noteq> Read" if "length xs \<le> i" "i < length (xs @ ys)" for i
    using assms(2) that by (metis leD le_add_diff_inverse length_append nat_add_left_cancel_less
        nth_append nth_mem)
  with assms(1) show ?thesis
    unfolding armed_def by (metis (no_types, lifting) less_imp_diff_less not_le nth_append)
qed

lemma armed_append_read:
  assumes "armed xs"
  shows "armed (xs @ [New_parser 10000, Expires_after 30, Read])"
proof -
  have "armed (xs @ [New_parser 10000, Expires_after 30])"
    using assms by (rule armed_append_plain) simp
  then show ?thesis
    unfolding armed_def
    by (auto simp: nth_append less_Suc_eq) (metis Suc_lessI length_greater_0_conv)
qed

section \<open>The handlers of the SSL session\<close>

lemma stopped_updates [simp]:
  "stopped (do_read s) = stopped s" "upgraded (do_read s) = upgraded s"
  "stopped (s\<lparr>handshakes := n\<rparr>) = stopped s" "upgraded (s\<lparr>handshakes := n\<rparr>) = upgraded s"
  "stopped (s\<lparr>shutdowns := n\<rparr>) = stopped s" "upgraded (s\<lparr>shutdowns := n\<rparr>) = upgraded s"
  "stopped (s\<lparr>buffer := b\<rparr>) = stopped s" "upgraded (s\<lparr>buffer := b\<rparr>) = upgraded s"
  by (auto simp: stopped_def upgraded_def)

lemma on_handshake_inv:
  assumes "session_inv E s" and "0 < handshakes s"
  shows "session_inv E (on_handshake E ec n (s\<lparr>handshakes := handshakes s - 1\<rparr>))"
proof (cases "is_error ec")
  case True
  with assms show ?thesis
    by (auto simp: session_inv_def queue_inv_def io_inv_def live_inv_def on_handshake_def
        intro: armed_append_plain)
next
  case False
  with assms show ?thesis
    by (auto simp: session_inv_def queue_inv_def io_inv_def live_inv_def on_handshake_def
        is_full_def limit_def intro: armed_append_read)
qed

lemma on_shutdown_inv:
  assumes "session_inv E s"
  shows "session_inv E (on_shutdown E ec (s\<lparr>shutdowns := n\<rparr>))"
  using assms
  by (auto simp: session_inv_def queue_inv_def io_inv_def live_inv_def on_shutdown_def
      intro: armed_append_plain)

section \<open>The contract with the derived class\<close>

locale derived_session =
  fixes eof :: "http_session \<Rightarrow> http_session"
    and run :: "http_session \<Rightarrow> http_session"
    and fresh :: "nat \<Rightarrow> stream"
  assumes eof_queue: "items (eof s) = items s" "handled (eof s) = handled s"
      "queued (eof s) = queued s" "started (eof s) = started s" "completed (eof s) = completed s"
    and eof_io: "reads (eof s) = reads s" "writes (eof s) = writes s"
      "handshakes (eof s) = handshakes s" "parser_opt (eof s) = parser_opt s"
      "settings_ref (eof s) = settings_ref s"
    and eof_ops: "\<exists>xs. ops (eof s) = ops s @ xs \<and> Read \<notin> set xs \<and> Release_stream \<notin> set xs \<and>
      list_ex is_stop xs \<and> (\<forall>m c. Write m c \<notin> set xs)"
    and run_session: "s = new_http_session (fresh n) buf root ref \<Longrightarrow> run s = do_read s \<or>
      (\<exists>xs b. run s = s\<lparr>ops := xs, handshakes := 1, null_stream_used := b\<rparr> \<and> Read \<notin> set xs \<and> Release_stream \<notin> set xs \<and>
        \<not> list_ex is_stop xs)"
begin

lemmas eof_frame [simp] = eof_queue eof_io

lemma eof_armed: "armed (ops s) \<Longrightarrow> armed (ops (eof s))"
  using eof_ops [of s] by (metis armed_append_plain)

lemma eof_stopped [simp]: "stopped (eof s)"
  using eof_ops [of s] by (auto simp: stopped_def)

lemma eof_upgraded [simp]: "upgraded (eof s) = upgraded s"
  using eof_ops [of s] by (auto simp: upgraded_def)

subsection \<open>The queue\<close>

lemma on_read_queue:
  assumes "on_read E eof ec s = Inr t" and "queue_inv E s" and "\<not> is_full (items s)"
  shows "queue_inv E t"
  using assms(1)
proof (cases rule: on_read_cases)
  case (handle p req cfg u)
  let ?m = "respond E cfg req"
  have hist: "wq.history (items s @ [?m]) (queued s @ [?m])
      (started s @ (if items s = [] then [?m] else [])) (completed s)"
    using wq.history_send [of "items s" "queued s" "started s" "completed s" ?m "items s @ [?m]"]
      assms(2) by (auto simp: queue_inv_def queue_send_def Let_def split: if_splits)
  have "length (items s @ [?m]) \<le> limit"
    using assms(3) by (simp add: is_full_def)
  with hist assms(2) handle show ?thesis
    by (auto simp: queue_inv_def)
qed (use assms(2) in \<open>auto simp: queue_inv_def\<close>)

lemma on_write_queue:
  assumes "on_write E eof c ec s = Inr t" and "queue_inv E s"
  shows "queue_inv E t"
  using assms(1)
proof (cases rule: on_write_cases)
  case (written u was_full items' st)
  have "length items' \<le> limit"
    using wq.content_written [OF written(3)] assms(2)
    by (simp add: queue_inv_def le_trans [OF diff_le_self])
  moreover have "wq.history items' (queued s)
      (started s @ (case st of None \<Rightarrow> [] | Some x \<Rightarrow> [x])) (completed s @ [hd (items s)])"
    using wq.history_written [OF _ written(3), of "queued s" "started s" "completed s"] assms(2)
    unfolding queue_inv_def by blast
  ultimately show ?thesis
    using written assms(2) by (auto simp: queue_inv_def)
qed (use assms(2) in \<open>auto simp: queue_inv_def\<close>)

subsection \<open>Outstanding operations\<close>

lemma on_read_io:
  assumes "on_read E eof ec s = Inr t" and "io_inv E s" and "reads s = 0" and "handshakes s = 0"
  shows "io_inv E t"
  using assms(1)
proof (cases rule: on_read_cases)
  case (handle p req cfg u)
  with assms(2-4) show ?thesis by (auto simp: io_inv_def)
qed (use assms(2-4) in \<open>auto simp: io_inv_def\<close>)

lemma on_write_io:
  assumes "on_write E eof c ec s = Inr t" and "writes s = []"
    and "reads s + handshakes s \<le> 1" and "0 < reads s \<Longrightarrow> \<not> is_full (items s) \<and> parser_opt s \<noteq> None"
    and "0 < handshakes s \<Longrightarrow> items s = []" and "length (items s) \<le> limit"
  shows "io_inv E t"
  using assms(1)
proof (cases rule: on_write_cases)
  case (written u was_full items' st)
  have "\<not> is_full items'"
    using wq.not_full_written [OF written(3)] assms(6) by simp
  moreover have "items s \<noteq> []"
    using written(3) wq.written_None [of "items s"] by auto
  ultimately show ?thesis
    using assms(2-5) written(4,5) wq.written_full [OF written(3)] wq.written_starts [OF written(3)]
    by (auto simp: io_inv_def)
qed (use assms(2-5) in \<open>auto simp: io_inv_def\<close>)

subsection \<open>Progress until the session stops\<close>

lemma on_read_live:
  assumes "on_read E eof ec s = Inr t" and "io_inv E s" and "reads s = 0" and "handshakes s = 0"
    and "\<not> stopped s \<Longrightarrow> items s \<noteq> [] \<Longrightarrow> writes s \<noteq> []"
    and "\<not> upgraded s" and "\<not> is_full (items s)"
  shows "live_inv t"
  using assms(1)
proof (cases rule: on_read_cases)
  case (handle p req cfg u)
  have "stopped t \<longleftrightarrow> stopped s" and "upgraded t \<longleftrightarrow> upgraded s"
    using handle(6,7) by (auto simp: stopped_def upgraded_def)
  with handle assms(3-) show ?thesis by (auto simp: live_inv_def)
qed (use assms(3-) in \<open>auto simp: live_inv_def upgraded_def\<close>)

lemma on_write_live:
  assumes "on_write E eof c ec s = Inr t" and "length (items s) \<le> limit"
    and "\<not> stopped s \<Longrightarrow> reads s + handshakes s = 0 \<Longrightarrow> is_full (items s)"
    and "upgraded s \<Longrightarrow> stopped s \<and> reads s + handshakes s = 0 \<and> \<not> is_full (items s)"
  shows "live_inv t"
  using assms(1)
proof (cases rule: on_write_cases)
  case (written u was_full items' st)
  have same: "stopped t \<longleftrightarrow> stopped s" "upgraded t \<longleftrightarrow> upgraded s"
    using written(4,5) by (auto simp: stopped_def upgraded_def split: option.splits)
  have st: "st = (if items' = [] then None else Some (hd items'))"
    using wq.written_starts [OF written(3)] .
  have "\<not> is_full items'" and "was_full = is_full (items s)"
    using wq.not_full_written [OF written(3)] wq.written_full [OF written(3)] assms(2) by simp_all
  with same st written(4,5) assms(3,4) show ?thesis
    by (auto simp: live_inv_def intro: gr0I)
qed (use assms(3,4) in \<open>auto simp: live_inv_def\<close>)

subsection \<open>Timeouts\<close>

lemma on_read_armed:
  assumes "on_read E eof ec s = Inr t" and "armed (ops s)"
  shows "armed (ops t)"
  using assms(1)
proof (cases rule: on_read_cases)
  case (handle p req cfg u)
  have "armed (ops u)"
    using assms(2) handle(6) by (auto intro: armed_append_plain)
  with handle(7) show ?thesis by (auto intro: armed_append_read)
qed (use assms(2) in \<open>auto intro: armed_append_plain eof_armed\<close>)

lemma on_write_armed:
  assumes "on_write E eof c ec s = Inr t" and "armed (ops s)"
  shows "armed (ops t)"
  using assms(1)
proof (cases rule: on_write_cases)
  case (written u was_full items' st)
  have "armed (ops u)"
    using assms(2) written(4) by (auto intro: armed_append_plain split: option.splits)
  with written(5) show ?thesis by (auto intro: armed_append_read)
qed (use assms(2) in \<open>auto intro: armed_append_plain eof_armed\<close>)

subsection \<open>All steps\<close>

lemma run_inv: "s = new_http_session (fresh n) buf root ref \<Longrightarrow> session_inv E (run s)"
  using run_session [of s n buf root ref]
  by (auto simp: session_inv_def queue_inv_def io_inv_def live_inv_def new_http_session_def new_queue_def
      wq.history_def stopped_def upgraded_def is_full_def limit_def armed_append_read [of "[]", simplified]
      intro: armed_append_plain [of "[]", simplified])

lemma step_inv:
  assumes "session_step E eof s e t" and "session_inv E s"
  shows "session_inv E t"
  using assms(1)
proof (cases rule: session_step.cases)
  case (step_read ec req buf)
  let ?s = "finish_read req buf s"
  from assms(2) step_read(2) have pre: "queue_inv E ?s" "io_inv E ?s" "reads ?s = 0" "handshakes ?s = 0"
    "\<not> is_full (items ?s)" "armed (ops ?s)" "\<not> upgraded ?s"
    "\<not> stopped ?s \<Longrightarrow> items ?s \<noteq> [] \<Longrightarrow> writes ?s \<noteq> []"
    by (auto simp: session_inv_def queue_inv_def io_inv_def live_inv_def stopped_def upgraded_def)
  show ?thesis
    unfolding session_inv_def
    using on_read_queue [OF step_read(3)] on_read_io [OF step_read(3)] on_read_live [OF step_read(3)]
      on_read_armed [OF step_read(3)] pre by blast
next
  case (step_write i ec)
  let ?s = "finish_write i s"
  from assms(2) step_write(2) have pre: "queue_inv E ?s" "writes ?s = []" "armed (ops ?s)"
    "length (items ?s) \<le> limit" "reads ?s + handshakes ?s \<le> 1"
    "0 < reads ?s \<Longrightarrow> \<not> is_full (items ?s) \<and> parser_opt ?s \<noteq> None"
    "0 < handshakes ?s \<Longrightarrow> items ?s = []"
    "\<not> stopped ?s \<Longrightarrow> reads ?s + handshakes ?s = 0 \<Longrightarrow> is_full (items ?s)"
    "upgraded ?s \<Longrightarrow> stopped ?s \<and> reads ?s + handshakes ?s = 0 \<and> \<not> is_full (items ?s)"
    by (auto simp: session_inv_def queue_inv_def io_inv_def live_inv_def stopped_def upgraded_def)
  show ?thesis
    unfolding session_inv_def
    using on_write_queue [OF step_write(3)] on_write_io [OF step_write(3)]
      on_write_live [OF step_write(3)] on_write_armed [OF step_write(3)] pre by blast
next
  case (step_handshake ec n)
  with assms(2) on_handshake_inv show ?thesis by blast
next
  case (step_shutdown ec)
  with assms(2) on_shutdown_inv show ?thesis by blast
qed

end

section \<open>What a closing response or a failed write does\<close>

text \<open>Only responses that keep the connection open are ever removed from the queue.\<close>

definition keep_open :: "env \<Rightarrow> http_session \<Rightarrow> bool" where
  "keep_open E s \<longleftrightarrow> (\<forall>m \<in> set (completed s). \<not> api_need_eof (lib E) m)"

text \<open>
  The writer has stopped when a response is at the head of the queue and nothing writes it.  From
  then on nothing is started, and requests are only taken in until the queue is full.
\<close>

definition writer_stopped :: "http_session \<Rightarrow> bool" where
  "writer_stopped s \<longleftrightarrow> items s \<noteq> [] \<and> writes s = []"

context derived_session
begin

lemma on_read_completed: "on_read E eof ec s = Inr t \<Longrightarrow> completed t = completed s"
  by (erule on_read_cases) auto

lemma step_keep_open:
  assumes "session_step E eof s e t" and "session_inv E s" and "keep_open E s"
  shows "keep_open E t"
  using assms(1)
proof (cases rule: session_step.cases)
  case (step_read ec req buf)
  with assms(3) on_read_completed show ?thesis by (fastforce simp: keep_open_def)
next
  case (step_write i ec)
  from assms(2) step_write(2) have w: "i = 0" "snd (writes s ! i) = api_need_eof (lib E) (hd (items s))"
    by (auto simp: session_inv_def io_inv_def)
  from step_write(3) show ?thesis
  proof (cases rule: on_write_cases)
    case (written u was_full items' st)
    with assms(3) w(2) show ?thesis by (auto simp: keep_open_def)
  qed (use assms(3) in \<open>auto simp: keep_open_def\<close>)
qed (use assms(3) in \<open>auto simp: keep_open_def on_handshake_def on_shutdown_def\<close>)

lemma step_writer_stopped:
  assumes "session_step E eof s e t" and "writer_stopped s"
  shows "writer_stopped t \<and> started t = started s \<and> completed t = completed s"
  using assms(1)
proof (cases rule: session_step.cases)
  case (step_read ec req buf)
  from step_read(3) assms(2) show ?thesis
    by (cases rule: on_read_cases) (auto simp: writer_stopped_def)
qed (use assms(2) in \<open>auto simp: writer_stopped_def on_handshake_def on_shutdown_def\<close>)

lemma reach_writer_stopped:
  assumes "reach (\<lambda>x. x = s) (session_step E eof) t" and "writer_stopped s"
  shows "writer_stopped t \<and> started t = started s \<and> completed t = completed s"
  using assms
proof (induction rule: reach.induct)
  case (reach_init t)
  then show ?case by simp
next
  case (reach_step t e u)
  then show ?case by (metis step_writer_stopped)
qed

lemma write_ends:
  assumes "session_step E eof s (Write_done i ec) t" and "session_inv E s"
    and "is_error ec \<or> snd (writes s ! i)"
  shows "writer_stopped t \<and> started t = started s"
  using assms(1)
proof (cases rule: session_step.cases)
  case step_write
  from assms(2) step_write(1) have w: "items s \<noteq> []" "writes (finish_write i s) = []"
    by (auto simp: session_inv_def io_inv_def)
  from step_write(2) show ?thesis
    by (cases rule: on_write_cases) (use w assms(3) in \<open>auto simp: writer_stopped_def\<close>)
qed

end

lemma handled_eq_queue:
  "session_inv E s \<Longrightarrow> length (handled s) = length (completed s) + length (items s)"
  unfolding session_inv_def queue_inv_def wq.history_def by (metis length_append length_map)

section \<open>Reachable states\<close>

definition full_inv :: "env \<Rightarrow> http_session \<Rightarrow> bool" where
  "full_inv E s \<longleftrightarrow> session_inv E s \<and> keep_open E s"

sublocale derived_session \<subseteq> runs: invariant_of "started_by fresh run" "session_step E eof" "full_inv E"
  for E
proof unfold_locales
  fix s
  assume "started_by fresh run s"
  then obtain n buf root ref where s: "s = run (new_http_session (fresh n) buf root ref)"
    by (auto simp: started_by_def)
  moreover have "completed s = []"
    using run_session [OF refl, of n buf root ref] s by (auto simp: new_http_session_def)
  ultimately show "full_inv E s"
    by (simp add: full_inv_def keep_open_def run_inv)
next
  fix s e t
  assume "session_step E eof s e t" and "full_inv E s"
  then show "full_inv E t"
    using step_inv step_keep_open by (auto simp: full_inv_def)
qed

section \<open>The two derived classes\<close>

interpretation plain: derived_session plain_do_eof plain_run Tcp
  by unfold_locales (auto simp: plain_do_eof_def plain_run_def uses_stream_def)

interpretation ssl: derived_session ssl_do_eof ssl_run Tls
  by unfold_locales (auto simp: ssl_do_eof_def ssl_run_def new_http_session_def uses_stream_def)

text \<open>The facts of both, with the class as an argument.\<close>

lemma kind_session: "derived_session (do_eof k) (run_session k) (fresh_stream k)"
  by (cases k) (simp_all add: plain.derived_session_axioms ssl.derived_session_axioms)

lemmas session_step_inv = derived_session.step_inv [OF kind_session]
  and kind_writer_stopped = derived_session.reach_writer_stopped [OF kind_session]
  and kind_keep_open = derived_session.step_keep_open [OF kind_session]
  and kind_write_ends = derived_session.write_ends [OF kind_session]

lemma session_reach_full: "session_reach k E s \<Longrightarrow> full_inv E s"
  by (cases k) (auto intro: plain.runs.inv_reach ssl.runs.inv_reach)

lemma session_reach_inv: "session_reach k E s \<Longrightarrow> session_inv E s"
  using session_reach_full by (simp add: full_inv_def)

lemma session_reach_from:
  assumes "reach (\<lambda>x. x = s) (session_step E (do_eof k)) t" and "session_inv E s"
  shows "session_inv E t"
  using assms by (induction rule: reach.induct) (auto intro: session_step_inv)

end
