(* ===== verification/Http_Session_Stream.thy ===== *)
theory Http_Session_Stream
  imports Http_Session_Inv
begin

text \<open>
  The stream of an HTTP session: it stays the one the session was constructed with until the
  upgrade moves it, once, to the WebSocket session; and no handler that returns has used a stream that
  is not there.
\<close>

section \<open>What the operations do to the stream\<close>

lemma stream_frame [simp]:
  "stream (do_read s) = stream s" "upgraded_to (do_read s) = upgraded_to s"
  "stream (session_fail B ec w s) = stream s" "upgraded_to (session_fail B ec w s) = upgraded_to s"
  "stream (invoke_opt B st s) = stream s" "upgraded_to (invoke_opt B st s) = upgraded_to s"
  "stream (send_queue B m s) = stream s" "upgraded_to (send_queue B m s) = upgraded_to s"
  "stream (do_eof k s) = stream s" "upgraded_to (do_eof k s) = upgraded_to s"
  "stream (finish_read req b s) = stream s" "upgraded_to (finish_read req b s) = upgraded_to s"
  "stream (finish_write i s) = stream s" "upgraded_to (finish_write i s) = upgraded_to s"
  "stream (upgrade B req s) = moved_from (stream s)" "upgraded_to (upgrade B req s) = Some (make_websocket_session B (stream s) req)"
  by (cases k; auto simp: op_frames send_queue_def queue_send_def Let_def plain_do_eof_def ssl_do_eof_def
      split: option.splits)+

lemma null_stream_frame [simp]:
  "null_stream_used (do_read s) \<longleftrightarrow> null_stream_used s \<or> stream s = Tls_moved"
  "null_stream_used (session_fail B ec w s) = null_stream_used s"
  "null_stream_used (invoke_opt B st s) \<longleftrightarrow> null_stream_used s \<or> st \<noteq> None \<and> stream s = Tls_moved"
  "null_stream_used (send_queue B m s) \<longleftrightarrow> null_stream_used s \<or> items s = [] \<and> stream s = Tls_moved"
  "null_stream_used (do_eof k s) \<longleftrightarrow> null_stream_used s \<or> stream s = Tls_moved"
  "null_stream_used (finish_read req b s) = null_stream_used s"
  "null_stream_used (finish_write i s) = null_stream_used s"
  "null_stream_used (upgrade B req s) \<longleftrightarrow> null_stream_used s \<or> stream s = Tls_moved"
  by (cases k; auto simp: op_frames send_queue_def queue_send_def Let_def plain_do_eof_def ssl_do_eof_def
      split: option.splits)+

lemma moved_from_fresh [simp]:
  "moved_from (fresh_stream k n) \<noteq> fresh_stream k m" "fresh_stream k m \<noteq> moved_from (fresh_stream k n)"
  "fresh_stream k n \<noteq> Tls_moved" "moved_from (fresh_stream k n) = Tls_moved \<longleftrightarrow> k = Ssl"
  by (cases k; simp)+

lemmas kind_eof_frame [simp] = derived_session.eof_queue [OF kind_session]
  derived_session.eof_io [OF kind_session] derived_session.eof_stopped [OF kind_session]

lemmas class_eof_frame [simp] = null_stream_frame(5) [of Plain, unfolded do_eof.simps]
  null_stream_frame(5) [of Ssl, unfolded do_eof.simps]

section \<open>The invariant\<close>

definition stream_inv :: "beast_api \<Rightarrow> kind \<Rightarrow> nat \<Rightarrow> http_session \<Rightarrow> bool" where
  "stream_inv B k n s \<longleftrightarrow> \<not> null_stream_used s \<and>
     (if upgraded s then stream s = moved_from (fresh_stream k n) \<and> 
        (\<exists>req. upgraded_to s = Some (make_websocket_session B (fresh_stream k n) req))
      else stream s = fresh_stream k n \<and> upgraded_to s = None)"

lemma upgraded_frame [simp]:
  "upgraded (do_eof k s) = upgraded s" "upgraded (finish_read req b s) = upgraded s"
  "upgraded (finish_write i s) = upgraded s" "upgraded (invoke_opt B st s) = upgraded s"
  "upgraded (send_queue B m s) = upgraded s"
  by (cases k; auto simp: upgraded_def plain_do_eof_def ssl_do_eof_def uses_stream_def split: option.splits)+

lemma upgraded_updates [simp]:
  "upgraded (s\<lparr>parser_opt := p\<rparr>) = upgraded s" "upgraded (s\<lparr>handled := hs\<rparr>) = upgraded s"
  "upgraded (s\<lparr>items := xs\<rparr>) = upgraded s" "upgraded (s\<lparr>completed := ys\<rparr>) = upgraded s"
  by (simp_all add: upgraded_def)

lemma stream_inv_run: "stream_inv B k n (run_session k (new_session k n buf root ref))"
  unfolding new_session_eq
  by (cases k)
     (simp_all add: stream_inv_def plain_run_def ssl_run_def new_http_session_def
      uses_stream_def do_read_def upgraded_def)

lemma stream_inv_step:
  assumes "session_step E (do_eof k) s e t" and "session_inv E s" and "stream_inv (lib E) k n s"
  shows "stream_inv (lib E) k n t"
  using assms(1)
proof (cases rule: session_step.cases)
  case (step_read ec req buf)
  have "\<not> upgraded s"
    using assms(2) step_read(2) by (auto simp: session_inv_def live_inv_def)
  with step_read(3) assms(3) show ?thesis
    by (cases rule: on_read_cases) (auto simp: stream_inv_def)
next
  case (step_write i ec)
  from step_write(3) assms(3) show ?thesis
    by (cases rule: on_write_cases) (auto simp: stream_inv_def split: if_splits)
next
  case (step_handshake ec m)
  have "\<not> upgraded s"
    using assms(2) step_handshake(2) by (auto simp: session_inv_def live_inv_def)
  with step_handshake(3) assms(3) show ?thesis
    by (auto simp: stream_inv_def on_handshake_def)
next
  case (step_shutdown ec)
  with assms(3) show ?thesis
    by (auto simp: stream_inv_def on_shutdown_def split: if_splits)
qed

lemma session_reach_stream: "session_reach k E s \<Longrightarrow> \<exists>n. stream_inv (lib E) k n s"
proof (induction rule: reach.induct)
  case (reach_init s)
  then show ?case
    unfolding started_by_def new_session_eq [symmetric] using stream_inv_run by blast
next
  case (reach_step s e t)
  then show ?case using stream_inv_step session_reach_inv by blast
qed

end
