(* ===== verification/Scenarios.thy ===== *)
theory Scenarios
  imports Http_Session_Stream
begin

text \<open>
  Concrete data for the scenarios in which the properties are evaluated: a library whose functions
  satisfy the documented laws, a small file system, settings, requests, and the session states that
  some runs of events lead to.
\<close>

definition ref_prepare :: "response \<Rightarrow> response" where
  "ref_prepare r = (case res_body r of
     String_body t \<Rightarrow> r\<lparr>res_content_length := Some (length t)\<rparr> | _ \<Rightarrow> r)"

definition ref_need_eof :: "response \<Rightarrow> bool" where
  "ref_need_eof r \<longleftrightarrow> res_content_length r = None \<or> res_keep_alive r \<noteq> Some True"

definition ref_beast :: "(string \<Rightarrow> error_code \<times> string) \<Rightarrow> beast_api" where
  "ref_beast fs = \<lparr>api_iequals = ascii_iequals, api_message = (\<lambda>ec. ''failed''),
     api_open = fs, api_prepare_payload = ref_prepare, api_need_eof = ref_need_eof,
     api_version = ''Boost.Beast/306''\<rparr>"

lemma ref_beast_laws [simp]:
  "prepare_payload_law (ref_beast fs)" "need_eof_law (ref_beast fs)"
  "iequals_law (api_iequals (ref_beast fs))"
  by (auto simp: prepare_payload_law_def need_eof_law_def ref_beast_def ref_prepare_def
      ref_need_eof_def ascii_iequals_law)

definition sample_files :: "string \<Rightarrow> error_code \<times> string" where
  "sample_files p = (if p = ''html/index.html'' then (No_error, ''hello'')
     else if p = ''html/private'' then (Other_error 13, '''')
     else (No_such_file, ''''))"

definition sample_settings :: settings where
  "sample_settings = \<lparr>interface_address = ''127.0.0.1'', interface_port = 8080,
     document_root = ''html'', log_level = ''info'', service_version = ''alpha'',
     ssl_certificate = ''cfg/dumb.cert'', ssl_key = ''cfg/dumb.key'', ssl_dh = ''cfg/dumb.dh'',
     thread_io = 2, timeout_header = 5, timeout_get = 300, timeout_put = 300, timeout_post = 300\<rparr>"

definition sample_request :: "string \<Rightarrow> bool \<Rightarrow> bool \<Rightarrow> request" where
  "sample_request tgt ka up =
     \<lparr>verb_of = Verb_get, target = tgt, version = 11, keep_alive = ka, is_upgrade = up\<rparr>"

definition sample_env :: env where
  "sample_env = \<lparr>lib = ref_beast sample_files, registry = global_registry,
     heap = (\<lambda>a. if a = 7 then Some sample_settings else None)\<rparr>"

definition sample_start :: "kind \<Rightarrow> http_session" where
  "sample_start k = run_session k (new_session k 3 '''' ''html'' 7)"

definition sample_run :: "kind \<Rightarrow> event list \<Rightarrow> http_session option" where
  "sample_run k es = run_events (session_next sample_env (do_eof k)) (sample_start k) es"

lemma sample_start_reach: "session_reach k sample_env (sample_start k)"
  unfolding sample_start_def by (rule reach_init) (rule started_new_session)

lemma sample_run_reach:
  assumes "sample_run k es = Some s"
  shows "session_reach k sample_env s"
  using run_events_reach [OF _ sample_start_reach assms [unfolded sample_run_def]]
  by (simp add: session_next_step)

abbreviation get_index :: event where
  "get_index \<equiv> Read_done No_error (sample_request ''/'' True False) ''''"

abbreviation get_missing_close :: event where
  "get_missing_close \<equiv> Read_done No_error (sample_request ''/missing'' False False) ''''"

abbreviation get_upgrade :: event where
  "get_upgrade \<equiv> Read_done No_error (sample_request ''/chat'' True True) ''''"

lemma sample_env_simps [simp]:
  "lib sample_env = ref_beast sample_files" "api_need_eof (ref_beast fs) = ref_need_eof"
  "heap sample_env a = (if a = 7 then Some sample_settings else None)"
  "document_root sample_settings = ''html''"
  by (auto simp: sample_env_def ref_beast_def sample_settings_def)

lemma sample_need_eof [simp]:
  "ref_need_eof (default_response (ref_beast fs) root req cfg) \<longleftrightarrow> \<not> keep_alive req"
  using response_need_eof [OF ref_beast_laws(1,2), of fs root req cfg] by simp

lemma sample_request_simps [simp]:
  "verb_of (sample_request t k u) = Verb_get" "target (sample_request t k u) = t"
  "keep_alive (sample_request t k u) = k" "is_upgrade (sample_request t k u) = u"
  by (simp_all add: sample_request_def)

text \<open>Unfolding a run; the responses stay the terms that compute them.\<close>

lemmas run_simps = sample_run_def sample_start_def new_plain_http_session_def new_ssl_http_session_def
  new_http_session_def new_queue_def uses_stream_def returns_def release_stream_def plain_run_def ssl_run_def
  on_read_def on_write_def on_handshake_def on_shutdown_def Let_def handle_request_default
  send_queue_def queue_send_def queue_on_write_def is_full_def limit_def invoke_opt_def
  invoke_work_def do_read_def finish_read_def finish_write_def result_opt_def upgrade_def
  plain_do_eof_def ssl_do_eof_def

abbreviation sample_respond :: "string \<Rightarrow> bool \<Rightarrow> response" where
  "sample_respond tgt ka \<equiv> respond sample_env sample_settings (sample_request tgt ka False)"

text \<open>Requests arriving while nothing is written fill the queue.\<close>

lemma sample_fill:
  assumes "n \<le> 8"
  shows "\<exists>s. sample_run Plain (replicate n get_index) = Some s \<and> settings_ref s = 7 \<and>
    length (items s) = n \<and> reads s = (if n < 8 then 1 else 0) \<and> handshakes s = 0 \<and>
    parser_opt s \<noteq> None \<and> \<not> stopped s \<and> length (writes s) = (if n = 0 then 0 else 1) \<and>
    (\<forall>(m, c) \<in> set (writes s). \<not> c) \<and> stream s = Tcp 3 \<and> \<not> null_stream_used s"
  using assms
proof (induction n)
  case 0
  then show ?case by (auto simp: run_simps stopped_def)
next
  case (Suc n)
  then obtain s where s: "sample_run Plain (replicate n get_index) = Some s" "settings_ref s = 7"
    "length (items s) = n" "reads s = 1" "handshakes s = 0" "parser_opt s \<noteq> None" "\<not> stopped s"
    "length (writes s) = (if n = 0 then 0 else 1)" "\<forall>(m, c) \<in> set (writes s). \<not> c"
    "stream s = Tcp 3" "\<not> null_stream_used s"
    by auto
  then have "sample_run Plain (replicate (Suc n) get_index) =
      session_next sample_env plain_do_eof s get_index"
    unfolding sample_run_def replicate_append_same [symmetric] replicate.simps
    by (simp add: run_events_snoc del: session_next.simps)
  then show ?case
    using s Suc.prems
    by (auto simp: on_read_def finish_read_def Let_def handle_request_default is_full_def limit_def
        stopped_def result_opt_def returns_def)
qed

end
