(* ===== verification/Http_Session_Props.thy ===== *)
theory Http_Session_Props
  imports Scenarios
begin

text \<open>
  The properties of an HTTP session over all runs of its events, for the plain and the SSL class.
\<close>

section \<open>Pipelining\<close>

text \<open>
  C1: Pipelining answers in request order.  In every reachable state the writes started so far are
  exactly the answers of the default handler to the first requests taken in, in their order, one
  each: those whose response has been written, and the one at the head of the queue if there is one.
\<close>

theorem responses_in_request_order:
  assumes "session_reach k E s" and "heap E (settings_ref s) = Some cfg"
  shows "started s = map (respond E cfg)
    (take (length (completed s) + (if items s = [] then 0 else 1)) (handled s))"
proof -
  from session_reach_inv [OF assms(1)] assms(2)
  have h: "queued s = completed s @ items s" "started s = completed s @ take 1 (items s)"
    and q: "queued s = map (respond E cfg) (handled s)"
    by (auto simp: session_inv_def queue_inv_def wq.history_def)
  have "started s = take (length (completed s) + (if items s = [] then 0 else 1)) (queued s)"
    unfolding h(2) unfolding h(1) by (simp add: take_Suc_0)
  then show ?thesis by (simp add: q take_map)
qed

theorem responses_in_request_order_witness:
  "\<exists>s. sample_run Plain [get_index, get_missing_close, Write_done 0 No_error] = Some s \<and>
     length (completed s) = 1 \<and>
     started s = [sample_respond ''/'' True, sample_respond ''/missing'' False]"
proof -
  obtain s where run: "sample_run Plain [get_index, get_missing_close, Write_done 0 No_error] = Some s"
    and s: "settings_ref s = 7" "items s = [sample_respond ''/missing'' False]"
      "length (completed s) = 1"
      "handled s = [sample_request ''/'' True False, sample_request ''/missing'' False False]"
    by (simp add: run_simps)
  show ?thesis
    using responses_in_request_order [OF sample_run_reach [OF run], of sample_settings] run s
    by auto
qed

text \<open>
  C3: Bounded work.  In every reachable state the queue holds at most eight responses, at most one
  read or handshake and at most one write are outstanding, and no read is outstanding while the
  queue is full.
\<close>

theorem session_bounded:
  assumes "session_reach k E s"
  shows "length (items s) \<le> 8 \<and> reads s + handshakes s \<le> 1 \<and> length (writes s) \<le> 1 \<and>
    (reads s = 1 \<longrightarrow> length (items s) < 8)"
  using session_reach_inv [OF assms]
  by (auto simp: session_inv_def queue_inv_def io_inv_def is_full_def limit_def)

theorem session_bounded_witness:
  "\<exists>s. sample_run Plain (replicate 8 get_index) = Some s \<and> length (items s) = 8 \<and> reads s = 0 \<and>
     length (writes s) \<le> 1"
proof -
  obtain s where run: "sample_run Plain (replicate 8 get_index) = Some s"
    and s: "length (items s) = 8" "reads s = 0"
    using sample_fill [of 8] by auto
  with session_bounded [OF sample_run_reach [OF run]] show ?thesis by auto
qed

text \<open>
  C4: A message outlives its write.  A write that is outstanding writes the message of the item at
  the head of the queue, which is still in the queue, and closes exactly if that message needs the
  end of the stream.
\<close>

theorem write_owned_by_queue:
  assumes "session_reach k E s" and "(m, c) \<in> set (writes s)"
  shows "items s \<noteq> [] \<and> m = hd (items s) \<and> c = api_need_eof (lib E) m"
  using session_reach_inv [OF assms(1)] assms(2)
  by (auto simp: session_inv_def io_inv_def)

theorem write_owned_by_queue_witness:
  "\<exists>s. sample_run Plain [get_index, get_missing_close] = Some s \<and>
     (sample_respond ''/'' True, False) \<in> set (writes s) \<and> hd (items s) = sample_respond ''/'' True"
proof -
  obtain s where run: "sample_run Plain [get_index, get_missing_close] = Some s"
    and w: "(sample_respond ''/'' True, False) \<in> set (writes s)"
    by (simp add: run_simps)
  with write_owned_by_queue [OF sample_run_reach [OF run] w] show ?thesis by auto
qed

section \<open>Definedness and progress\<close>

fun enabled :: "http_session \<Rightarrow> event \<Rightarrow> bool" where
  "enabled s (Read_done ec req buf) = (0 < reads s)"
| "enabled s (Write_done i ec) = (i < length (writes s))"
| "enabled s (Handshake_done ec n) = (0 < handshakes s)"
| "enabled s (Shutdown_done ec) = (0 < shutdowns s)"

text \<open>
  Where a handler does run into undefined behaviour: SSL is gone with the upgrade, and a write that
  was outstanding then completes, so that the next response is to be written, or the connection
  to be closed, through the stream that has been moved away.
\<close>

definition writes_on_null :: "http_session \<Rightarrow> event \<Rightarrow> bool" where
  "writes_on_null s e \<longleftrightarrow> stream s = Tls_moved \<and>
     (case e of Write_done i ec \<Rightarrow> ec = No_error \<and> (snd (writes s ! i) \<or> 1 < length (items s)) | _ \<Rightarrow> False)"

lemma read_before_upgrade:
  "session_inv E s \<Longrightarrow> stream_inv B k n s \<Longrightarrow> 0 < reads s \<Longrightarrow> stream s \<noteq> Tls_moved"
  by (auto simp: session_inv_def live_inv_def stream_inv_def split: if_splits)

lemma write_returns_iff:
  assumes "\<not> null_stream_used s" and "items s \<noteq> []" and "stream s = Tls_moved \<Longrightarrow> \<not> is_full (items s)"
  shows "(\<exists>t. on_write E (do_eof k) c ec (finish_write i s) = Inr t) \<longleftrightarrow>
    \<not> (stream s = Tls_moved \<and> ec = No_error \<and> (c \<or> 1 < length (items s)))"
  using assms by (cases "items s") (auto simp: on_write_def queue_on_write_def Let_def returns_def)

text \<open>
  C5: Undefined behaviour has one cause while the settings are alive.  In every reachable state the
  assertion in the queue holds, the parser is there when a read completes, and every event whose
  operation is outstanding has a successor state, but for one: after an SSL session has been
  upgraded, a write completes with another response waiting or with the connection to be closed.
\<close>

theorem handlers_defined:
  assumes "session_reach k E s" and "heap E (settings_ref s) = Some cfg" and "enabled s e"
  shows "(\<exists>t. session_step E (do_eof k) s e t) \<longleftrightarrow> \<not> writes_on_null s e"
proof -
  note inv = session_reach_inv [OF assms(1)]
  obtain n where st: "stream_inv (lib E) k n s" using session_reach_stream [OF assms(1)] by blast
  then have null: "\<not> null_stream_used s" by (simp add: stream_inv_def)
  show ?thesis
  proof (cases e)
    case (Read_done ec req buf)
    with assms(3) have r: "stream s \<noteq> Tls_moved" using read_before_upgrade [OF inv st] by simp
    from Read_done assms(3) inv have "\<exists>p. parser_opt s = Some p"
      by (auto simp: session_inv_def io_inv_def)
    with assms(2) null r have "\<exists>t. on_read E (do_eof k) ec (finish_read req buf s) = Inr t"
      by (auto simp: on_read_def finish_read_def Let_def handle_request_default)
    with Read_done assms(3) r show ?thesis by (auto simp: writes_on_null_def intro: step_read)
  next
    case (Write_done i ec)
    with assms(3) inv have ne: "items s \<noteq> []" by (auto simp: session_inv_def io_inv_def)
    have room: "\<not> is_full (items s)" if "stream s = Tls_moved"
      using that inv st by (auto simp: session_inv_def live_inv_def stream_inv_def split: if_splits)
    have "(\<exists>t. on_write E (do_eof k) (snd (writes s ! i)) ec (finish_write i s) = Inr t) \<longleftrightarrow>
        \<not> writes_on_null s e"
      by (subst write_returns_iff [OF null ne room]) (auto simp: writes_on_null_def Write_done)
    with Write_done assms(3) show ?thesis by (auto intro: step_write elim: session_stepE)
  qed (use assms(3) in \<open>auto simp: writes_on_null_def intro: session_step.intros\<close>)
qed

theorem handlers_defined_witness:
  "\<exists>s. sample_run Ssl [Handshake_done No_error 0, get_index, get_index, get_upgrade] = Some s \<and>
     \<not> (\<exists>t. session_step sample_env (do_eof Ssl) s (Write_done 0 No_error) t) \<and>
     (\<exists>t. session_step sample_env (do_eof Ssl) s (Write_done 0 Asio_eof) t)"
proof -
  obtain s where run: "sample_run Ssl [Handshake_done No_error 0, get_index, get_index, get_upgrade] = Some s"
    and s: "settings_ref s = 7" "length (writes s) = 1" "stream s = Tls_moved" "length (items s) = 2"
    by (simp add: run_simps)
  with handlers_defined [OF sample_run_reach [OF run], of sample_settings "Write_done 0 No_error"]
    handlers_defined [OF sample_run_reach [OF run], of sample_settings "Write_done 0 Asio_eof"]
  show ?thesis by (auto simp: writes_on_null_def)
qed

text \<open>
  C11: A session never stalls.  Until it has failed, closed or been upgraded, a reachable state waits
  for a read or a handshake, or the queue is full and its head is being written.
\<close>

theorem session_never_stalls:
  assumes "session_reach k E s" and "\<not> stopped s"
  shows "reads s = 1 \<or> handshakes s = 1 \<or> length (items s) = 8 \<and> length (writes s) = 1"
  using session_reach_inv [OF assms(1)] assms(2)
  by (auto simp: session_inv_def live_inv_def io_inv_def queue_inv_def is_full_def limit_def)

theorem session_never_stalls_witness:
  "\<exists>s. sample_run Plain (replicate 8 get_index) = Some s \<and> \<not> stopped s \<and> length (writes s) = 1"
proof -
  obtain s where run: "sample_run Plain (replicate 8 get_index) = Some s"
    and s: "\<not> stopped s" "reads s = 0" "handshakes s = 0"
    using sample_fill [of 8] by auto
  with session_never_stalls [OF sample_run_reach [OF run]] show ?thesis by auto
qed

text \<open>One response leaves the queue when its write completes.\<close>

lemma write_head:
  assumes "session_reach k E s" and "\<not> stopped s" and "items s = m # ms" and "\<not> api_need_eof (lib E) m"
  shows "\<exists>t. session_step E (do_eof k) s (Write_done 0 No_error) t \<and> items t = ms \<and>
    completed t = completed s @ [m] \<and> handled t = handled s \<and> \<not> stopped t"
proof -
  note inv = session_reach_inv [OF assms(1)]
  obtain n where st: "stream_inv (lib E) k n s" using session_reach_stream [OF assms(1)] by blast
  from inv assms(2,3) have w: "writes s = [(m, api_need_eof (lib E) m)]" "\<not> upgraded s"
    by (auto simp: session_inv_def io_inv_def live_inv_def)
  with st have null: "\<not> null_stream_used s" "stream s \<noteq> Tls_moved" by (auto simp: stream_inv_def)
  let ?u = "invoke_opt (lib E) (if ms \<noteq> [] then Some (hd ms) else None)
     ((finish_write 0 s)\<lparr>items := ms, completed := completed s @ [m]\<rparr>)"
  let ?t = "if is_full (items s) then do_read ?u else ?u"
  have "on_write E (do_eof k) (snd (writes s ! 0)) No_error (finish_write 0 s) = Inr ?t"
    using w assms(3,4) null by (simp add: on_write_def queue_on_write_def Let_def)
  then have "session_step E (do_eof k) s (Write_done 0 No_error) ?t"
    using w by (intro step_write) simp_all
  moreover have "\<not> stopped ?t" using assms(2) by (auto simp: stopped_def)
  ultimately show ?thesis by (intro exI [of _ ?t]) auto
qed

lemma write_all:
  assumes "session_reach k E s" and "\<not> stopped s" and "\<forall>m \<in> set (items s). \<not> api_need_eof (lib E) m"
  shows "\<exists>t. steps (session_step E (do_eof k)) s (length (items s)) t \<and> items t = [] \<and>
    completed t = completed s @ items s \<and> handled t = handled s \<and> \<not> stopped t"
  using assms
proof (induction "items s" arbitrary: s)
  case Nil
  then show ?case by (auto intro: steps_none)
next
  case (Cons m ms)
  from Cons.prems Cons.hyps(2) write_head [of k E s m ms] obtain u where u:
    "session_step E (do_eof k) s (Write_done 0 No_error) u" "items u = ms"
    "completed u = completed s @ [m]" "handled u = handled s" "\<not> stopped u"
    by (metis list.set_intros(1))
  have "session_reach k E u" using Cons.prems(1) u(1) by (rule reach_step)
  moreover have "\<forall>m \<in> set (items u). \<not> api_need_eof (lib E) m"
    using Cons.prems(3) u(2) by (simp add: Cons.hyps(2) [symmetric])
  ultimately obtain t where "steps (session_step E (do_eof k)) u (length ms) t" "items t = []"
    "completed t = completed u @ items u" "handled t = handled u" "\<not> stopped t"
    using Cons.hyps(1) [of u] u(2,5) by auto
  with u show ?case
    by (auto simp: Cons.hyps(2) [symmetric] intro: steps_more)
qed

text \<open>
  C12: What has been asked gets answered.  As long as a session has not failed, closed or been
  upgraded and none of the waiting responses closes the connection, the writes can complete one
  after the other: in as many steps as responses are waiting every request taken in has been
  answered, and the session is still running.
\<close>

theorem queue_drains:
  assumes "session_reach k E s" and "\<not> stopped s" and "\<forall>m \<in> set (items s). \<not> api_need_eof (lib E) m"
  shows "\<exists>t. steps (session_step E (do_eof k)) s (length (items s)) t \<and> items t = [] \<and>
    length (completed t) = length (handled s) \<and> (reads t = 1 \<or> handshakes t = 1)"
proof -
  from write_all [OF assms] obtain t where t: "steps (session_step E (do_eof k)) s (length (items s)) t"
    "items t = []" "completed t = completed s @ items s" "\<not> stopped t" by blast
  have inv: "session_inv E t" using session_reach_inv [OF steps_reach [OF t(1) assms(1)]] .
  then have "reads t = 1 \<or> handshakes t = 1"
    using t(2,4) by (auto simp: session_inv_def live_inv_def io_inv_def is_full_def limit_def)
  with t handled_eq_queue [OF session_reach_inv [OF assms(1)]] show ?thesis by auto
qed

theorem queue_drains_witness:
  "\<exists>s t. sample_run Plain [get_index, get_index] = Some s \<and>
     steps (session_step sample_env (do_eof Plain)) s 2 t \<and> items t = [] \<and> length (completed t) = 2"
proof -
  obtain s where run: "sample_run Plain [get_index, get_index] = Some s"
    and s: "items s = [sample_respond ''/'' True, sample_respond ''/'' True]" "\<not> stopped s"
      "length (handled s) = 2"
    by (simp add: run_simps stopped_def)
  from queue_drains [OF sample_run_reach [OF run] s(2)] s run show ?thesis by (auto simp: numeral_2_eq_2)
qed

section \<open>Closing\<close>

text \<open>
  C15: A response that closes the connection is the last one.  Whenever a response has been started,
  every earlier request in the pipeline asked to keep the connection alive.
\<close>

theorem closing_response_is_last:
  assumes "prepare_payload_law (lib E)" and "need_eof_law (lib E)"
    and "session_reach k E s" and "heap E (settings_ref s) = Some cfg"
    and "Suc j < length (started s)"
  shows "keep_alive (handled s ! j)"
proof -
  from session_reach_full [OF assms(3)] assms(4)
  have st: "started s = completed s @ take 1 (items s)"
    and q: "map (respond E cfg) (handled s) = completed s @ items s"
    and op: "\<forall>m \<in> set (completed s). \<not> api_need_eof (lib E) m"
    by (auto simp: full_inv_def session_inv_def queue_inv_def wq.history_def keep_open_def)
  have j: "j < length (completed s)"
    using assms(5) by (auto simp: st take_Suc_0 split: if_splits)
  have "length (handled s) = length (completed s @ items s)"
    using q by (metis length_map)
  with j have jh: "j < length (handled s)" by simp
  have "respond E cfg (handled s ! j) = (completed s @ items s) ! j"
    using nth_map [OF jh, of "respond E cfg"] by (simp add: q)
  with j have "respond E cfg (handled s ! j) \<in> set (completed s)"
    by (simp add: nth_append)
  with op show ?thesis
    using response_need_eof [OF assms(1,2)] by metis
qed

theorem closing_response_is_last_witness:
  "\<exists>s. sample_run Plain [get_index, get_missing_close, Write_done 0 No_error] = Some s \<and>
     length (started s) = 2 \<and> keep_alive (handled s ! 0) \<and> \<not> keep_alive (handled s ! 1)"
proof -
  obtain s where run: "sample_run Plain [get_index, get_missing_close, Write_done 0 No_error] = Some s"
    and s: "settings_ref s = 7" "length (started s) = 2" "\<not> keep_alive (handled s ! 1)"
    by (simp add: run_simps)
  with closing_response_is_last [OF _ _ sample_run_reach [OF run], of sample_settings 0]
  show ?thesis by auto
qed

text \<open>
  After a closing response or a failed write the session winds down.  Whatever happens
  afterwards, no further write is started, and at most as many further requests are taken in as the
  queue had room for.
\<close>

theorem session_winds_down:
  assumes "session_reach k E s" and "session_step E (do_eof k) s (Write_done i ec) t"
    and "is_error ec \<or> snd (writes s ! i)"
    and "reach (\<lambda>x. x = t) (session_step E (do_eof k)) u"
  shows "started u = started s \<and> length (handled u) + length (items s) \<le> length (handled s) + 8"
proof -
  note inv = session_reach_inv [OF assms(1)]
  have inv_t: "session_inv E t" using session_step_inv [OF assms(2) inv] .
  from kind_write_ends [OF assms(2) inv assms(3)]
  have t: "writer_stopped t" "started t = started s" by simp_all
  from kind_writer_stopped [OF assms(4) t(1)]
  have u: "started u = started t" "completed u = completed t" by simp_all
  have "completed t = completed s"
    using assms(2,3) by cases (auto simp: on_write_def split: if_splits)
  moreover have inv_u: "session_inv E u" using session_reach_from [OF assms(4) inv_t] .
  moreover have "length (items u) \<le> 8"
    using inv_u by (simp add: session_inv_def queue_inv_def limit_def)
  ultimately show ?thesis
    using t u handled_eq_queue [OF inv] handled_eq_queue [OF inv_u] by simp
qed

text \<open>
  Abuse limits.  Every read is started with a fresh parser that accepts at most 10000 octets of
  body and right after the 30 second timeout has been set.
\<close>

theorem reads_are_limited:
  assumes "session_reach k E s" and "i < length (ops s)" and "ops s ! i = Read"
  shows "1 < i \<and> ops s ! (i - 1) = Expires_after 30 \<and> ops s ! (i - 2) = New_parser 10000"
  using session_reach_inv [OF assms(1)] assms(2,3) by (auto simp: session_inv_def armed_def)

theorem reads_are_limited_witness:
  "\<exists>s. sample_run Ssl [Handshake_done No_error 0] = Some s \<and> ops s ! 4 = Read \<and>
     ops s ! 3 = Expires_after 30"
proof -
  obtain s where run: "sample_run Ssl [Handshake_done No_error 0] = Some s"
    and s: "ops s ! 4 = Read" "length (ops s) = 5"
    by (simp add: run_simps)
  with reads_are_limited [OF sample_run_reach [OF run], of 4] show ?thesis by auto
qed

theorem session_winds_down_witness:
  "\<exists>s t. sample_run Plain [get_index, get_missing_close, Write_done 0 No_error] = Some s \<and>
     sample_run Plain [get_index, get_missing_close, Write_done 0 No_error, Write_done 0 No_error] = Some t \<and>
     started t = started s"
proof -
  let ?es = "[get_index, get_missing_close, Write_done 0 No_error]"
  obtain s where run: "sample_run Plain ?es = Some s"
    and s: "length (writes s) = 1" "snd (writes s ! 0)" "\<not> null_stream_used s" "stream s = Tcp 3"
    by (simp add: run_simps)
  obtain t where nx: "session_next sample_env (do_eof Plain) s (Write_done 0 No_error) = Some t"
    using s by (auto simp: on_write_def)
  then have step: "session_step sample_env (do_eof Plain) s (Write_done 0 No_error) t"
    by (simp only: session_next_step)
  have "sample_run Plain (?es @ [Write_done 0 No_error]) = Some t"
    using run nx unfolding sample_run_def run_events_snoc by simp
  with session_winds_down [OF sample_run_reach [OF run] step _ reach_init, of t] s run
  show ?thesis by auto
qed

section \<open>Flow control\<close>

text \<open>
  A completed write moves the queue on.  It starts the write of the next response if there is
  one, and it starts a read exactly if the queue had been full.
\<close>

theorem write_completion_advances:
  assumes "session_reach k E s" and "session_step E (do_eof k) s (Write_done i No_error) t"
    and "\<not> snd (writes s ! i)"
  shows "items t = tl (items s) \<and>
    writes t = map (\<lambda>m. (m, api_need_eof (lib E) m)) (take 1 (tl (items s))) \<and>
    reads t = (if length (items s) = 8 then 1 else reads s)"
  using assms(2)
proof cases
  case step_write
  from session_reach_inv [OF assms(1)] step_write(1)
  have s: "items s \<noteq> []" "finish_write i s = s\<lparr>writes := []\<rparr>" "length (items s) \<le> 8"
    "length (items s) = 8 \<Longrightarrow> reads s = 0"
    by (auto simp: session_inv_def io_inv_def queue_inv_def finish_write_def is_full_def limit_def)
  with step_write(2) assms(3) show ?thesis
    by (auto simp: on_write_def queue_on_write_def is_full_def limit_def Let_def take_Suc_0)
qed

theorem write_completion_advances_witness:
  "\<exists>s t. sample_run Plain (replicate 8 get_index) = Some s \<and>
     session_step sample_env (do_eof Plain) s (Write_done 0 No_error) t \<and> reads t = 1 \<and>
     length (items t) = 7"
proof -
  obtain s where run: "sample_run Plain (replicate 8 get_index) = Some s"
    and s: "settings_ref s = 7" "length (items s) = 8" "length (writes s) = 1"
      "\<forall>(m, c) \<in> set (writes s). \<not> c" "stream s = Tcp 3" "\<not> null_stream_used s"
    using sample_fill [of 8] by auto
  then have c: "\<not> snd (writes s ! 0)" by (cases "writes s") auto
  have "items s \<noteq> []" using s(2) by auto
  then obtain t where "session_next sample_env (do_eof Plain) s (Write_done 0 No_error) = Some t"
    using s(3,5,6) c by (auto simp: on_write_def queue_on_write_def Let_def)
  then have step: "session_step sample_env (do_eof Plain) s (Write_done 0 No_error) t"
    by (simp only: session_next_step)
  from write_completion_advances [OF sample_run_reach [OF run] step c] s(2) run step
  show ?thesis by auto
qed

lemma step_upgraded:
  assumes "session_step E (do_eof k) s e t" and "session_inv E s" and "upgraded s"
  shows "upgraded t \<and> handled t = handled s"
  using assms(1)
proof cases
  case (step_write i ec)
  from step_write(3) show ?thesis
    by (cases rule: on_write_cases) (use assms(3) in auto)
qed (use assms(2,3) in \<open>auto simp: session_inv_def live_inv_def on_shutdown_def\<close>)

text \<open>
  The upgrade ends the HTTP session.  Once the stream has been handed to a WebSocket session, no
  run of further events reads or takes in another request.
\<close>

theorem upgrade_ends_http:
  assumes "session_reach k E s" and "upgraded s"
    and "reach (\<lambda>x. x = s) (session_step E (do_eof k)) t"
  shows "handled t = handled s \<and> reads t = 0"
proof -
  from assms(3) have "upgraded t \<and> handled t = handled s \<and> session_inv E t"
  proof (induction rule: reach.induct)
    case (reach_init t)
    with assms(2) session_reach_inv [OF assms(1)] show ?case by simp
  next
    case (reach_step t e u)
    then show ?case using step_upgraded session_step_inv by metis
  qed
  then show ?thesis by (simp add: session_inv_def live_inv_def)
qed

theorem upgrade_ends_http_witness:
  "\<exists>s. sample_run Plain [get_index, get_upgrade] = Some s \<and> upgraded s \<and> items s \<noteq> [] \<and> reads s = 0"
proof -
  obtain s where run: "sample_run Plain [get_index, get_upgrade] = Some s"
    and s: "upgraded s" "items s \<noteq> []"
    by (simp add: run_simps upgraded_def)
  with upgrade_ends_http [OF sample_run_reach [OF run] s(1) reach_init, of s] show ?thesis by auto
qed

section \<open>The SSL handshake\<close>

lemma awaiting_handshake:
  assumes "session_reach Ssl E s" and "0 < handshakes s"
  shows "started_by Tls ssl_run s"
  using assms
proof (induction rule: reach.induct)
  case (reach_init s)
  then show ?case by simp
next
  case (reach_step s e t)
  note inv = session_reach_inv [OF reach_step.hyps(1)]
  have "handshakes t \<le> handshakes s"
    using reach_step.hyps(2)
    by cases (auto simp: on_handshake_def on_shutdown_def ssl_do_eof_def uses_stream_def elim!: on_read_cases on_write_cases)
  with reach_step have "0 < handshakes s" and "started_by Tls ssl_run s" by simp_all
  with reach_step.hyps(2) reach_step.prems show ?case
    by cases (auto simp: started_by_def ssl_run_def new_http_session_def uses_stream_def on_handshake_def)
qed

text \<open>
  No HTTP without a handshake.  When the SSL handshake fails, the session is over: no event can
  follow, and nothing has been read, taken in or written.
\<close>

theorem ssl_handshake_failure:
  assumes "session_reach Ssl E s" and "session_step E (do_eof Ssl) s (Handshake_done ec n) t"
    and "is_error ec"
  shows "\<not> session_step E (do_eof Ssl) t e u \<and> handled t = [] \<and> started t = [] \<and>
    Read \<notin> set (ops t)"
proof -
  from assms(2) have h: "0 < handshakes s"
    and t: "t = on_handshake E ec n (s\<lparr>handshakes := handshakes s - 1\<rparr>)"
    by (auto elim: session_stepE)
  from awaiting_handshake [OF assms(1) h] t assms(3)
  have over: "reads t = 0" "writes t = []" "handshakes t = 0" "shutdowns t = 0"
    and empty: "handled t = []" "started t = []" "Read \<notin> set (ops t)"
    by (auto simp: started_by_def ssl_run_def new_http_session_def new_queue_def uses_stream_def on_handshake_def)
  from over have "\<not> session_step E (do_eof Ssl) t e u"
    by (auto elim!: session_stepE)
  with empty show ?thesis by simp
qed

theorem ssl_handshake_failure_witness:
  "\<exists>t. session_step sample_env (do_eof Ssl) (sample_start Ssl) (Handshake_done Stream_truncated 0) t \<and>
     handled t = [] \<and> cerr t = []"
proof -
  define t where "t = on_handshake sample_env Stream_truncated 0 ((sample_start Ssl)\<lparr>handshakes := 0\<rparr>)"
  have step: "session_step sample_env (do_eof Ssl) (sample_start Ssl) (Handshake_done Stream_truncated 0) t"
    by (rule step_handshake) (simp_all add: t_def run_simps)
  have "cerr t = []"
    by (simp add: t_def on_handshake_def session_fail_def fail_def run_simps)
  with ssl_handshake_failure [OF sample_start_reach step] step show ?thesis by auto
qed

end
