(* ===== verification/Http_Session_End.thy ===== *)
theory Http_Session_End
  imports Scenarios
begin

text \<open>
  The end of an HTTP session.  A session object lives as long as the handler of an outstanding
  operation owns it; once the session has stopped, the operations still outstanding and those that
  their handlers start run out after a bounded number of events, and then the object is destroyed.
\<close>

definition outstanding :: "http_session \<Rightarrow> nat" where
  "outstanding s = reads s + length (writes s) + handshakes s + shutdowns s"

section \<open>The invariant\<close>

text \<open>
  An outstanding SSL shutdown comes from the end of reading or from a closing response.  When the
  session has stopped, its writer has stopped, or it does not read any more and never will.
\<close>

definition end_inv :: "http_session \<Rightarrow> bool" where
  "end_inv s \<longleftrightarrow>
     (if \<not> stopped s then shutdowns s = 0
      else if writer_stopped s then shutdowns s + reads s \<le> 2
      else reads s + handshakes s = 0 \<and> \<not> is_full (items s) \<and> shutdowns s \<le> 1)"

lemma shutdowns_frame [simp]:
  "shutdowns (do_read s) = shutdowns s" "shutdowns (session_fail B ec w s) = shutdowns s"
  "shutdowns (invoke_opt B st s) = shutdowns s" "shutdowns (send_queue B m s) = shutdowns s"
  "shutdowns (finish_read req b s) = shutdowns s" "shutdowns (finish_write i s) = shutdowns s"
  "shutdowns (upgrade B req s) = shutdowns s"
  "shutdowns (do_eof k s) = shutdowns s + (if k = Ssl then 1 else 0)"
  by (cases k; auto simp: op_frames send_queue_def queue_send_def Let_def plain_do_eof_def ssl_do_eof_def
      split: option.splits)+

lemma stopped_frame [simp]:
  "stopped (finish_read req b s) = stopped s" "stopped (finish_write i s) = stopped s"
  "stopped (send_queue B m s) = stopped s" "stopped (invoke_opt B st s) = stopped s"
  "stopped (s\<lparr>parser_opt := p, handled := hs\<rparr>) = stopped s"
  "stopped (s\<lparr>items := xs, completed := ys\<rparr>) = stopped s"
  by (auto simp: stopped_def split: option.splits)

text \<open>How many events can still follow.\<close>

definition to_come :: "http_session \<Rightarrow> nat" where
  "to_come s = shutdowns s +
     (if writer_stopped s then (if 0 < reads s then 2 * (9 - length (items s)) else 0)
      else 3 * length (items s))"

lemma on_read_end:
  assumes "on_read E (do_eof k) ec (finish_read req buf s) = Inr t" and "session_inv E s"
    and "0 < reads s" and "end_inv s"
  shows "end_inv t" and "stopped s \<Longrightarrow> stopped t \<and> to_come t < to_come s"
proof -
  from assms(2,3) have s: "reads s = 1" "handshakes s = 0" "\<not> is_full (items s)" "length (items s) < 8"
    "\<not> stopped s \<Longrightarrow> items s \<noteq> [] \<Longrightarrow> writes s \<noteq> []"
    by (auto simp: session_inv_def io_inv_def live_inv_def is_full_def limit_def)
  from assms(1) have "end_inv t \<and> (stopped s \<longrightarrow> stopped t \<and> to_come t < to_come s)"
    by (cases rule: on_read_cases)
       (use s assms(4) in \<open>auto simp: end_inv_def to_come_def writer_stopped_def is_full_def limit_def
          split: if_splits\<close>)
  then show "end_inv t" and "stopped s \<Longrightarrow> stopped t \<and> to_come t < to_come s" by simp_all
qed

lemma on_write_end:
  assumes "on_write E (do_eof k) c ec (finish_write i s) = Inr t" and "session_inv E s"
    and "i < length (writes s)" and "end_inv s"
  shows "end_inv t" and "stopped s \<Longrightarrow> stopped t \<and> to_come t < to_come s"
proof -
  from assms(2,3) have s: "items s \<noteq> []" "length (writes s) = 1" "i = 0" "length (items s) \<le> 8"
    "reads s + handshakes s \<le> 1" "handshakes s = 0"
    by (auto simp: session_inv_def io_inv_def queue_inv_def limit_def)
  then obtain m ms where ms: "items s = m # ms" by (cases "items s") auto
  from assms(1) have "end_inv t \<and> (stopped s \<longrightarrow> stopped t \<and> to_come t < to_come s)"
  proof (cases rule: on_write_cases)
    case (written u was_full items' st)
    then show ?thesis
      using s ms assms(4)
      by (auto simp: end_inv_def to_come_def writer_stopped_def queue_on_write_def is_full_def limit_def
          Let_def split: if_splits)
  qed (use s ms assms(4) in \<open>auto simp: end_inv_def to_come_def writer_stopped_def is_full_def limit_def
          split: if_splits\<close>)
  then show "end_inv t" and "stopped s \<Longrightarrow> stopped t \<and> to_come t < to_come s" by simp_all
qed

lemma step_end:
  assumes "session_step E (do_eof k) s e t" and "session_inv E s" and "end_inv s"
  shows "end_inv t" and "stopped s \<Longrightarrow> stopped t \<and> to_come t < to_come s"
proof -
  from assms(1) have "end_inv t \<and> (stopped s \<longrightarrow> stopped t \<and> to_come t < to_come s)"
  proof (cases rule: session_step.cases)
    case (step_read ec req buf)
    with on_read_end [OF step_read(3) assms(2) step_read(2) assms(3)] show ?thesis by blast
  next
    case (step_write i ec)
    with on_write_end [OF step_write(3) assms(2) step_write(2) assms(3)] show ?thesis by blast
  next
    case (step_handshake ec n)
    with assms(2,3) show ?thesis
      by (auto simp: end_inv_def on_handshake_def writer_stopped_def session_inv_def io_inv_def live_inv_def
          is_full_def limit_def split: if_splits)
  next
    case (step_shutdown ec)
    with assms(3) show ?thesis
      by (auto simp: end_inv_def to_come_def on_shutdown_def writer_stopped_def split: if_splits)
  qed
  then show "end_inv t" and "stopped s \<Longrightarrow> stopped t \<and> to_come t < to_come s" by simp_all
qed

lemma end_inv_start: "started_by (fresh_stream k) (run_session k) s \<Longrightarrow> end_inv s"
  by (cases k) (auto simp: started_by_def end_inv_def plain_run_def ssl_run_def new_http_session_def
      uses_stream_def do_read_def stopped_def)

interpretation ending: invariant_of "started_by (fresh_stream k) (run_session k)"
    "session_step E (do_eof k)" "\<lambda>s. full_inv E s \<and> end_inv s" for k E
proof unfold_locales
  fix s
  assume start: "started_by (fresh_stream k) (run_session k) s"
  have "session_reach k E s" by (rule reach_init) (rule start)
  with end_inv_start [OF start] session_reach_full show "full_inv E s \<and> end_inv s" by simp
next
  fix s e t
  assume st: "session_step E (do_eof k) s e t" and "full_inv E s \<and> end_inv s"
  then have "session_inv E s" "keep_open E s" "end_inv s" by (simp_all add: full_inv_def)
  with step_end(1) [OF st] session_step_inv [OF st] kind_keep_open [OF st]
  show "full_inv E t \<and> end_inv t" by (simp add: full_inv_def)
qed

section \<open>Property\<close>

text \<open>
  C13: A session that has stopped ends.  After a failure, an end of stream, a closing response or an
  upgrade at most 22 more events follow in any run, whatever they are, so that no session object
  is kept alive for ever by a peer; until then an operation is outstanding; and at most two SSL
  shutdowns are.
\<close>

theorem stopped_session_ends:
  assumes "session_reach k E s"
  shows "(stopped s \<longrightarrow> (\<forall>n t. steps (session_step E (do_eof k)) s n t \<longrightarrow> n \<le> 22)) \<and>
    (\<not> stopped s \<longrightarrow> 0 < outstanding s) \<and> shutdowns s \<le> 2"
proof (intro conjI impI allI)
  note inv = ending.inv_reach [OF assms]
  then show "shutdowns s \<le> 2" by (auto simp: end_inv_def split: if_splits)
  show "0 < outstanding s" if "\<not> stopped s"
    using inv that by (auto simp: full_inv_def session_inv_def live_inv_def io_inv_def outstanding_def
        is_full_def limit_def)
  fix n t
  assume st: "stopped s" and run: "steps (session_step E (do_eof k)) s n t"
  have "n + to_come t \<le> to_come s"
  proof (rule steps_measure [OF _ run])
    show "(full_inv E s \<and> end_inv s) \<and> stopped s" using inv st by simp
  next
    fix s e t
    assume st: "session_step E (do_eof k) s e t" and I: "(full_inv E s \<and> end_inv s) \<and> stopped s"
    have "stopped t \<and> to_come t < to_come s" using step_end(2) [OF st] I by (simp add: full_inv_def)
    with ending.inv_step [OF st] I
    show "((full_inv E t \<and> end_inv t) \<and> stopped t) \<and> to_come t < to_come s" by blast
  qed
  moreover have "to_come s \<le> 22"
    using inv st by (auto simp: end_inv_def to_come_def full_inv_def session_inv_def queue_inv_def
        writer_stopped_def is_full_def limit_def Suc_le_eq split: if_splits)
  ultimately show "n \<le> 22" by simp
qed

text \<open>
  Two shutdowns do happen: an SSL client that has asked for a response that closes the connection
  and then ends its stream before the response has been written.
\<close>

theorem stopped_session_ends_witness:
  "\<exists>s. sample_run Ssl [Handshake_done No_error 0, get_missing_close, Read_done End_of_stream
       (sample_request '''' False False) '''', Write_done 0 No_error] = Some s \<and>
     shutdowns s = 2 \<and> \<not> (\<exists>t. steps (session_step sample_env (do_eof Ssl)) s 23 t)"
proof -
  obtain s where run: "sample_run Ssl [Handshake_done No_error 0, get_missing_close, Read_done End_of_stream
       (sample_request '''' False False) '''', Write_done 0 No_error] = Some s"
    and s: "shutdowns s = 2" "stopped s"
    by (simp add: run_simps stopped_def)
  with stopped_session_ends [OF sample_run_reach [OF run]] show ?thesis by fastforce
qed

end
