(* ===== verification/Http_Session_Timer.thy ===== *)
theory Http_Session_Timer
  imports Scenarios
begin

text \<open>
  The timer of an HTTP session's stream.  A timeout set on a \<open>tcp_stream\<close> holds for all operations
  on it until another is set, so what counts for an outstanding operation is the last setting.
\<close>

fun is_timer :: "io_op \<Rightarrow> bool" where
  "is_timer (Expires_after n) = True"
| "is_timer Expires_never = True"
| "is_timer op = False"

definition timer_of :: "io_op list \<Rightarrow> io_op option" where
  "timer_of xs = (case filter is_timer xs of [] \<Rightarrow> None | x # ys \<Rightarrow> Some (last (x # ys)))"

lemma timer_of_append:
  "timer_of (xs @ ys) = (case timer_of ys of None \<Rightarrow> timer_of xs | Some x \<Rightarrow> Some x)"
  by (cases "filter is_timer xs"; cases "filter is_timer ys") (auto simp: timer_of_def)

lemma timer_of_simps [simp]:
  "timer_of [] = None"
  "is_timer x \<Longrightarrow> timer_of [x] = Some x" "\<not> is_timer x \<Longrightarrow> timer_of [x] = None"
  "timer_of (x # y # xs) = (case timer_of (y # xs) of None \<Rightarrow> timer_of [x] | Some z \<Rightarrow> Some z)"
  using timer_of_append [of "[x]" "y # xs"] by (simp_all add: timer_of_def)








end
