(* ===== verification/Http_Refinement.thy ===== *)
theory Http_Refinement
  imports Scenarios
begin

text \<open>
  An abstract specification of an HTTP server's connection, and the proof that the sessions of
  \<open>sessions.hpp\<close> implement it.  The specification knows neither parsers, buffers and timers nor the
  queue with its write in progress: it takes in requests, at most eight ahead of its answers, and
  finishes the answers in turn, ending with the first one that closes the connection.
\<close>

section \<open>The specification\<close>

record 'c pipe =
  config :: 'c
  asked :: "request list"         \<comment> \<open>requests taken in\<close>
  finished :: nat                 \<comment> \<open>of these, how many have been answered\<close>
  sent_out :: "response list"       \<comment> \<open>the answers given to the stream so far\<close>

datatype pipe_label = Ask request | Finish

definition pipe_start :: "'c pipe \<Rightarrow> bool" where
  "pipe_start p \<longleftrightarrow> asked p = [] \<and> finished p = 0 \<and> sent_out p = []"

inductive pipe_step ::
    "('c \<Rightarrow> request \<Rightarrow> response) \<Rightarrow> ('c \<Rightarrow> request \<Rightarrow> bool) \<Rightarrow> 'c pipe \<Rightarrow> pipe_label \<Rightarrow> 'c pipe \<Rightarrow> bool"
  for answer keep where
  pipe_ask: "length (asked p) < finished p + 8 \<Longrightarrow>
     p' = p\<lparr>asked := asked p @ [r],
       sent_out := sent_out p @ (if finished p = length (asked p) then [answer (config p) r] else [])\<rparr> \<Longrightarrow>
     pipe_step answer keep p (Ask r) p'"
| pipe_finish: "finished p < length (asked p) \<Longrightarrow> keep (config p) (asked p ! finished p) \<Longrightarrow>
     p' = p\<lparr>finished := finished p + 1,
       sent_out := sent_out p @ map (answer (config p)) (take 1 (drop (finished p + 1) (asked p)))\<rparr> \<Longrightarrow>
     pipe_step answer keep p Finish p'"

inductive_cases pipe_stepE: "pipe_step answer keep p l p'"

text \<open>What the specification guarantees.\<close>

definition pipe_inv :: "('c \<Rightarrow> request \<Rightarrow> response) \<Rightarrow> ('c \<Rightarrow> request \<Rightarrow> bool) \<Rightarrow> 'c pipe \<Rightarrow> bool" where
  "pipe_inv answer keep p \<longleftrightarrow>
     finished p \<le> length (asked p) \<and> length (asked p) \<le> finished p + 8 \<and>
     sent_out p = map (answer (config p)) (take (finished p + 1) (asked p)) \<and>
     (\<forall>r \<in> set (take (finished p) (asked p)). keep (config p) r)"

interpretation pipe: invariant_of pipe_start "pipe_step answer keep" "pipe_inv answer keep"
  for answer :: "'c \<Rightarrow> request \<Rightarrow> response" and keep
proof unfold_locales
  fix p p' :: "'c pipe" and l
  assume "pipe_step answer keep p l p'" and inv: "pipe_inv answer keep p"
  then show "pipe_inv answer keep p'"
  proof cases
    case (pipe_ask r)
    with inv show ?thesis by (auto simp: pipe_inv_def)
  next
    case pipe_finish
    have "take (Suc (Suc (finished p))) (asked p) =
        take (Suc (finished p)) (asked p) @ take 1 (drop (Suc (finished p)) (asked p))"
      by (metis Suc_eq_plus1 take_add)
    with pipe_finish inv show ?thesis
      by (auto simp: pipe_inv_def take_Suc_conv_app_nth)
  qed
qed (simp add: pipe_start_def pipe_inv_def)

section \<open>The implementation\<close>

definition abs_session :: "env \<Rightarrow> http_session \<Rightarrow> settings pipe" where
  "abs_session E s = \<lparr>config = the (heap E (settings_ref s)), asked = handled s,
     finished = length (completed s), sent_out = started s\<rparr>"

lemma abs_session_cong:
  "settings_ref t = settings_ref s \<Longrightarrow> handled t = handled s \<Longrightarrow> completed t = completed s \<Longrightarrow>
     started t = started s \<Longrightarrow> abs_session E t = abs_session E s"
  by (simp add: abs_session_def)

definition stays_open :: "env \<Rightarrow> settings \<Rightarrow> request \<Rightarrow> bool" where
  "stays_open E cfg req \<longleftrightarrow> \<not> api_need_eof (lib E) (respond E cfg req)"

lemma on_read_sim:
  assumes "on_read E (do_eof k) ec s = Inr t" and "queue_inv E s" and "\<not> is_full (items s)"
  shows "abs_session E t = abs_session E s \<or>
    (\<exists>l. pipe_step (respond E) (stays_open E) (abs_session E s) l (abs_session E t))"
  using assms(1)
proof (cases rule: on_read_cases)
  case (handle p req cfg u)
  from assms(2) have len: "length (handled s) = length (completed s) + length (items s)"
    unfolding queue_inv_def wq.history_def by (metis length_append length_map)
  have "pipe_step (respond E) (stays_open E) (abs_session E s) (Ask req) (abs_session E t)"
    using handle len assms(3)
    by (intro pipe_ask) (auto simp: abs_session_def is_full_def limit_def)
  then show ?thesis by blast
qed (auto intro!: abs_session_cong)

lemma on_write_sim:
  assumes "on_write E (do_eof k) (api_need_eof (lib E) (hd (items s))) ec s = Inr t"
    and "queue_inv E s" and "items s \<noteq> []"
  shows "abs_session E t = abs_session E s \<or>
    (\<exists>l. pipe_step (respond E) (stays_open E) (abs_session E s) l (abs_session E t))"
  using assms(1)
proof (cases rule: on_write_cases)
  case (written u was_full items' st)
  let ?cfg = "the (heap E (settings_ref s))"
  from assms(3) obtain m ms where ms: "items s = m # ms" by (cases "items s") auto
  from assms(2) have "queued s = map (respond E ?cfg) (handled s)" "queued s = completed s @ items s"
    unfolding queue_inv_def wq.history_def by blast+
  then have q: "map (respond E ?cfg) (handled s) = completed s @ items s" by metis
  then have len: "length (handled s) = length (completed s) + Suc (length ms)"
    using ms by (metis length_append length_map length_Cons)
  have "map (respond E ?cfg) (drop (length (completed s)) (handled s)) = m # ms"
    unfolding drop_map [symmetric] q ms by simp
  then have nth: "respond E ?cfg (handled s ! length (completed s)) = m"
    and rest: "map (respond E ?cfg) (drop (Suc (length (completed s))) (handled s)) = ms"
    using len by (auto simp: Cons_nth_drop_Suc [symmetric])
  have st: "st = (if ms = [] then None else Some (hd ms))" and it: "items' = ms"
    using written(3) ms by (auto simp: queue_on_write_def Let_def)
  have "map (respond E ?cfg) (take 1 (drop (Suc (length (completed s))) (handled s))) =
      (case st of None \<Rightarrow> [] | Some x \<Rightarrow> [x])"
    unfolding take_map [symmetric] rest st by (simp add: take_Suc_0)
  then have "pipe_step (respond E) (stays_open E) (abs_session E s) Finish (abs_session E t)"
    using written ms len nth by (intro pipe_finish) (auto simp: abs_session_def stays_open_def)
  then show ?thesis by blast
qed (auto intro!: abs_session_cong)

lemma session_sim:
  assumes "session_step E (do_eof k) s e t" and "session_inv E s"
  shows "abs_session E t = abs_session E s \<or>
    (\<exists>l. pipe_step (respond E) (stays_open E) (abs_session E s) l (abs_session E t))"
  using assms(1)
proof (cases rule: session_step.cases)
  case (step_read ec req buf)
  have "abs_session E (finish_read req buf s) = abs_session E s" by (rule abs_session_cong) simp_all
  with assms(2) step_read(2) on_read_sim [OF step_read(3)] show ?thesis
    by (auto simp: session_inv_def io_inv_def queue_inv_def)
next
  case (step_write i ec)
  have eq: "abs_session E (finish_write i s) = abs_session E s" by (rule abs_session_cong) simp_all
  from assms(2) step_write(2) have w: "items s \<noteq> []" "snd (writes s ! i) = api_need_eof (lib E) (hd (items s))"
    "queue_inv E (finish_write i s)"
    by (auto simp: session_inv_def io_inv_def queue_inv_def)
  with on_write_sim [of E k "finish_write i s" ec t] step_write(3) eq show ?thesis by simp
qed (auto simp: on_handshake_def on_shutdown_def intro!: abs_session_cong)

lemma kind_invariant:
  "invariant_of (started_by (fresh_stream k) (run_session k)) (session_step E (do_eof k)) (full_inv E)"
  by (cases k) (simp_all add: plain.runs.invariant_of_axioms ssl.runs.invariant_of_axioms)

lemma started_abs: "started_by (fresh_stream k) (run_session k) s \<Longrightarrow> pipe_start (abs_session E s)"
  by (cases k) (auto simp: started_by_def pipe_start_def abs_session_def plain_run_def ssl_run_def
      new_http_session_def uses_stream_def do_read_def)

interpretation http_sim: simulation "started_by (fresh_stream k) (run_session k)"
    "session_step E (do_eof k)" "full_inv E" pipe_start "pipe_step (respond E) (stays_open E)" "abs_session E"
  for k E
proof (intro simulation.intro simulation_axioms.intro kind_invariant)
  fix s e t
  assume "session_step E (do_eof k) s e t" and "full_inv E s"
  then show "abs_session E t = abs_session E s \<or>
      (\<exists>l. pipe_step (respond E) (stays_open E) (abs_session E s) l (abs_session E t))"
    by (intro session_sim) (simp_all add: full_inv_def)
qed (rule started_abs)

lemma stays_open_keep_alive:
  assumes "prepare_payload_law (lib E)" and "need_eof_law (lib E)"
  shows "stays_open E = (\<lambda>cfg. keep_alive)"
  using response_need_eof [OF assms] by (auto simp: stays_open_def fun_eq_iff)

section \<open>Property\<close>

text \<open>
  C2: An HTTP session implements the abstract pipelined server.  The abstraction of every reachable
  state is reachable in the specification that takes requests in at most eight ahead and finishes
  their answers in turn for as long as the requests keep the connection alive; every step of the
  session is a step of it or changes nothing that it sees; and so the answers given to the stream
  are those to the first requests, one more than have been finished.
\<close>

theorem session_refines_pipe:
  assumes "prepare_payload_law (lib E)" and "need_eof_law (lib E)" and "session_reach k E s"
  shows "reach pipe_start (pipe_step (respond E) (\<lambda>cfg. keep_alive)) (abs_session E s) \<and>
    pipe_inv (respond E) (\<lambda>cfg. keep_alive) (abs_session E s) \<and>
    (\<forall>e t. session_step E (do_eof k) s e t \<longrightarrow> abs_session E t = abs_session E s \<or>
      (\<exists>l. pipe_step (respond E) (\<lambda>cfg. keep_alive) (abs_session E s) l (abs_session E t)))"
  using http_sim.refines_reach [OF assms(3)] http_sim.refines_step [OF assms(3)]
    http_sim.guaranteed [OF assms(3), of "pipe_inv (respond E) (stays_open E)"] pipe.inv_reach
  unfolding stays_open_keep_alive [OF assms(1,2)] by blast

theorem session_refines_pipe_witness:
  "\<exists>s. sample_run Plain [get_index, get_missing_close, Write_done 0 No_error] = Some s \<and>
     finished (abs_session sample_env s) = 1 \<and>
     sent_out (abs_session sample_env s) = [sample_respond ''/'' True, sample_respond ''/missing'' False]"
proof -
  obtain s where run: "sample_run Plain [get_index, get_missing_close, Write_done 0 No_error] = Some s"
    and s: "settings_ref s = 7" "length (completed s) = 1"
      "handled s = [sample_request ''/'' True False, sample_request ''/missing'' False False]"
    by (simp add: run_simps)
  then show ?thesis
    using session_refines_pipe [OF _ _ sample_run_reach [OF run]] by (auto simp: pipe_inv_def abs_session_def)
qed

end
