(* ===== verification/Content_Props.thy ===== *)
theory Content_Props
  imports Scenarios
begin

text \<open>
  The properties of what the server answers: the default handler with its error responses and the
  confinement of the files it serves, the dispatch and the MIME types.
\<close>

section \<open>Responses\<close>

text \<open>The decision the handler makes, as a table.\<close>

definition expected_status :: "beast_api \<Rightarrow> string \<Rightarrow> request \<Rightarrow> status" where
  "expected_status B root req =
     (if \<not> known_method req \<or> \<not> legal_target (target req) then Status_bad_request
      else case fst (opened B root req) of
        No_error \<Rightarrow> Status_ok
      | No_such_file \<Rightarrow> Status_not_found
      | _ \<Rightarrow> Status_internal_server_error)"

text \<open>
  C19: Every request gets exactly one, well-formed response.  Whatever is registered and whatever
  the send object is, handling a request calls it exactly once, with a response that has the
  request's version, the configured server name, the request's keep-alive choice and a content
  length; unless the response is to HEAD, that is the length of its body.
\<close>

theorem request_answered_once:
  assumes "prepare_payload_law B"
  shows "\<exists>r. (\<forall>registry root send q. handle_request B registry root req send s q = send r q) \<and>
    res_version r = version req \<and> res_server r = Some (service_version s) \<and>
    res_keep_alive r = Some (keep_alive req) \<and> res_content_length r \<noteq> None \<and>
    (verb_of req \<noteq> Verb_head \<longrightarrow> res_content_length r = Some (length (octets (res_body r))))"
  using response_meta [OF assms, where doc_root = "document_root s" and req = req and s = s]
  by (intro exI [of _ "default_response B (document_root s) req s"])
     (auto simp: handle_request_default)

theorem request_answered_once_witness:
  "\<exists>r. handle_request (ref_beast sample_files) new_registry ''ignored'' (sample_request ''/'' True False)
       (\<lambda>r q. q @ [r]) sample_settings [] = [r] \<and>
     res_content_length r = Some (length (octets (res_body r)))"
proof -
  from request_answered_once [OF ref_beast_laws(1) [of sample_files],
      of "sample_request ''/'' True False" sample_settings]
  obtain r where
    "\<forall>registry root send q. handle_request (ref_beast sample_files) registry root
       (sample_request ''/'' True False) send sample_settings (q :: response list) = send r q"
    and "res_content_length r = Some (length (octets (res_body r)))"
    by (auto simp: sample_request_def)
  then show ?thesis by (intro exI [of _ r]) simp
qed

text \<open>
  C18: The status follows the decision table.  A method other than GET and HEAD or an illegal target
  is a bad request; otherwise the outcome of opening the file decides; and only a served file
  is answered with its octets, under the MIME type of its path.
\<close>

theorem response_decision:
  assumes "prepare_payload_law B"
  shows "res_status (default_response B root req s) = expected_status B root req \<and>
    (expected_status B root req = Status_ok \<longrightarrow>
       res_content_type (default_response B root req s) =
         Some (mime_type (api_iequals B) (file_path root (target req))) \<and>
       res_content_length (default_response B root req s) = Some (length (snd (opened B root req))) \<and>
       (verb_of req = Verb_get \<longrightarrow> octets (res_body (default_response B root req s)) = snd (opened B root req)))"
  by (cases rule: response_cases [where B = B and doc_root = root and req = req and s = s])
     (simp_all add: expected_status_def error_responses [OF assms] Let_def split: error_code.split)

theorem response_decision_witness:
  "res_status (default_response (ref_beast sample_files) ''html'' (sample_request ''/'' True False)
       sample_settings) = Status_ok \<and>
   octets (res_body (default_response (ref_beast sample_files) ''html''
       (sample_request ''/'' True False) sample_settings)) = ''hello'' \<and>
   res_status (default_response (ref_beast sample_files) ''html''
       (sample_request ''/private'' True False) sample_settings) = Status_internal_server_error"
proof -
  note decision = response_decision [OF ref_beast_laws(1) [of sample_files], of "''html''" _ sample_settings]
  have "expected_status (ref_beast sample_files) ''html'' (sample_request ''/'' True False) = Status_ok"
    "snd (opened (ref_beast sample_files) ''html'' (sample_request ''/'' True False)) = ''hello''"
    "expected_status (ref_beast sample_files) ''html'' (sample_request ''/private'' True False) =
       Status_internal_server_error"
    by code_simp+
  with decision [of "sample_request ''/'' True False"] decision [of "sample_request ''/private'' True False"]
  show ?thesis by (simp add: sample_request_def)
qed

text \<open>
  C23: HEAD is GET without the body, except on errors.  A HEAD request gets the headers that GET would
  get, and no body when the file is served; an error is answered with the same body as to GET.
\<close>

theorem head_like_get:
  assumes "prepare_payload_law B"
  shows "default_response B root (req\<lparr>verb_of := Verb_head\<rparr>) s =
    (let r = default_response B root (req\<lparr>verb_of := Verb_get\<rparr>) s
     in if res_status r = Status_ok then r\<lparr>res_body := Empty_body\<rparr> else r)"
  by (cases rule: response_cases [where B = B and doc_root = root and req = "req\<lparr>verb_of := Verb_get\<rparr>" and s = s];
      cases rule: response_cases [where B = B and doc_root = root and req = "req\<lparr>verb_of := Verb_head\<rparr>" and s = s])
     (simp_all add: error_responses [OF assms] known_method_def Let_def)

theorem head_like_get_witness:
  "octets (res_body (default_response (ref_beast sample_files) ''html''
     ((sample_request ''/missing'' True False)\<lparr>verb_of := Verb_head\<rparr>) sample_settings)) \<noteq> ''''"
proof -
  have "res_status (default_response (ref_beast sample_files) ''html''
     ((sample_request ''/missing'' True False)\<lparr>verb_of := Verb_get\<rparr>) sample_settings) = Status_not_found"
    "octets (res_body (default_response (ref_beast sample_files) ''html''
     ((sample_request ''/missing'' True False)\<lparr>verb_of := Verb_get\<rparr>) sample_settings)) \<noteq> ''''"
    by code_simp+
  then show ?thesis
    by (simp add: head_like_get [OF ref_beast_laws(1)] Let_def)
qed

section \<open>Confinement\<close>



section \<open>Dispatch\<close>


section \<open>MIME types\<close>

text \<open>
  The MIME type is that of the extension.  On ASCII paths the chain of comparisons is a lookup
  of the extension, the text from the last dot, in the table of types, whatever the case of its
  letters; a path without a dot, or with an unknown extension, is \<open>application/text\<close>.
\<close>

theorem mime_type_of_extension:
  assumes "iequals_law ieq" and "list_all is_ascii p" and "list_all is_ascii e"
  shows "(CHR ''.'' \<notin> set e \<longrightarrow> mime_type ieq (p @ CHR ''.'' # e) = mime_lookup (CHR ''.'' # e)) \<and>
    (CHR ''.'' \<notin> set p \<longrightarrow> mime_type ieq p = ''application/text'')"
proof -
  have "is_ascii (CHR ''.'')" by (simp add: is_ascii_def)
  with assms(2,3) have "list_all is_ascii (p @ CHR ''.'' # e)" by simp
  moreover have "mime_lookup '''' = ''application/text''" by code_simp
  ultimately show ?thesis
    using mime_type_lookup [OF assms(1)] assms(2) by (auto simp: extension_last_dot extension_no_dot)
qed

theorem mime_type_of_extension_witness:
  "mime_type ascii_iequals ''html/logo.old.JPeG'' = ''image/jpeg'' \<and>
   mime_type ascii_iequals ''html/README'' = ''application/text''"
proof -
  have "list_all is_ascii ''html/logo.old''" "list_all is_ascii ''JPeG''" "list_all is_ascii ''html/README''"
    "mime_lookup ''.JPeG'' = ''image/jpeg''"
    by code_simp+
  with mime_type_of_extension [OF ascii_iequals_law, of "''html/logo.old''" "''JPeG''"]
    mime_type_of_extension [OF ascii_iequals_law, of "''html/README''" "''JPeG''"]
  show ?thesis by simp
qed

end
