(* ===== verification/Connection.thy ===== *)
theory Connection
  imports Http_Session_Props
begin

text \<open>
  The class \<open>detect_session\<close> of \<open>src/c++/systemicai/http/server/server.cpp\<close>, which finds out whether
  a connection speaks SSL and creates the session for it, and the connection as a whole: the
  detector, the HTTP session that it creates, and the WebSocket session that an upgrade makes of it.

  The model keeps what the code's lifetimes depend on.  A \<open>detect_session\<close> is owned by the shared
  pointers to it: the temporary of the statement that creates it and the one bound into the handler
  of each of its outstanding operations, which goes away when the handler has run.  It holds the
  settings by value, at an address of its own; the sessions it creates hold a reference to that
  address.  When the last owner is gone the object is destroyed and the address no longer holds
  settings.
\<close>

section \<open>State and operations\<close>

record detect_session =
  d_stream :: stream               \<comment> \<open>\<open>stream_\<close>, a \<open>tcp_stream\<close>\<close>
  d_settings :: addr               \<comment> \<open>where its member \<open>settings_\<close> lives\<close>
  d_doc_root :: string
  d_buffer :: string
  d_ops :: "io_op list"
  dispatched :: nat                \<comment> \<open>outstanding dispatches of \<open>on_run\<close>\<close>
  detecting :: nat                 \<comment> \<open>outstanding \<open>async_detect_ssl\<close>\<close>
  owners :: nat                    \<comment> \<open>shared pointers to the object\<close>

record connection =
  mem :: "addr \<Rightarrow> settings option"
  detector :: "detect_session option"         \<comment> \<open>while it is alive\<close>
  session :: "(kind \<times> http_session) option"
  websocket :: "ws_session option"
  conn_cerr :: "string list"

text \<open>One shared pointer to the detector goes out of scope.\<close>

definition release_owner :: "connection \<Rightarrow> connection" where
  "release_owner c = (case detector c of
     None \<Rightarrow> c
   | Some d \<Rightarrow>
       if owners d \<le> 1 then c\<lparr>detector := None, mem := (mem c)(d_settings d := None)\<rparr>
       else c\<lparr>detector := Some (d\<lparr>owners := owners d - 1\<rparr>)\<rparr>)"

text \<open>The constructor takes over the socket and copies the settings into the object.\<close>

definition new_detect_session :: "nat \<Rightarrow> addr \<Rightarrow> settings \<Rightarrow> string \<Rightarrow> connection" where
  "new_detect_session n a cfg root = \<lparr>mem = (\<lambda>_. None)(a \<mapsto> cfg),
     detector = Some \<lparr>d_stream = Tcp n, d_settings = a, d_doc_root = root, d_buffer = '''', d_ops = [],
       dispatched = 0, detecting = 0, owners = 1\<rparr>,
     session = None, websocket = None, conn_cerr = []\<rparr>"

text \<open>\<open>run\<close> dispatches \<open>on_run\<close> with a shared pointer bound into the handler.\<close>

definition detect_run :: "connection \<Rightarrow> connection" where
  "detect_run c = c\<lparr>detector := map_option
     (\<lambda>d. d\<lparr>dispatched := dispatched d + 1, owners := owners d + 1\<rparr>) (detector c)\<rparr>"

definition on_run :: "connection \<Rightarrow> connection" where
  "on_run c = c\<lparr>detector := map_option
     (\<lambda>d. d\<lparr>d_ops := d_ops d @ [Expires_after 30], detecting := detecting d + 1,
        owners := owners d + 1\<rparr>) (detector c)\<rparr>"

text \<open>The stream and the buffer are moved into the new session, the settings are not.\<close>

definition on_detect :: "beast_api \<Rightarrow> error_code \<Rightarrow> bool \<Rightarrow> connection \<Rightarrow> connection" where
  "on_detect B ec result c = (case detector c of
     None \<Rightarrow> c
   | Some d \<Rightarrow>
       if is_error ec then c\<lparr>conn_cerr := conn_cerr c @ fail (api_message B) ec ''detect''\<rparr>
       else
         let c = c\<lparr>detector := Some (d\<lparr>d_stream := moved_from (d_stream d), d_buffer := ''''\<rparr>)\<rparr>
         in if result then
              c\<lparr>session := Some (Ssl,
                 ssl_run (new_ssl_http_session (d_stream d) (d_buffer d) (d_doc_root d) (d_settings d)))\<rparr>
            else
              c\<lparr>session := Some (Plain,
                 plain_run (new_plain_http_session (d_stream d) (d_buffer d) (d_doc_root d) (d_settings d)))\<rparr>)"

text \<open>
  \<open>std::make_shared<detect_session>(...)->run()\<close>: the temporary pointer dies with the statement.
\<close>

definition launch :: "nat \<Rightarrow> addr \<Rightarrow> settings \<Rightarrow> string \<Rightarrow> connection" where
  "launch n a cfg root = release_owner (detect_run (new_detect_session n a cfg root))"

text \<open>
  A step runs a handler and then drops the pointer that was bound into it.  What detection has read
  from the stream is in the buffer.  The session's handlers see the memory as it is, and the
  WebSocket session that an upgrade has made runs on from there.
\<close>

datatype conn_event =
    Dispatched
  | Detect_done error_code bool string
  | Session_event event
  | Websocket_event ws_event

inductive conn_step :: "env \<Rightarrow> connection \<Rightarrow> conn_event \<Rightarrow> connection \<Rightarrow> bool" for E where
  conn_run: "detector c = Some d \<Longrightarrow> 0 < dispatched d \<Longrightarrow>
     c' = release_owner (on_run (c\<lparr>detector := Some (d\<lparr>dispatched := dispatched d - 1\<rparr>)\<rparr>)) \<Longrightarrow>
     conn_step E c Dispatched c'"
| conn_detect: "detector c = Some d \<Longrightarrow> 0 < detecting d \<Longrightarrow>
     d' = d\<lparr>detecting := detecting d - 1, d_buffer := d_buffer d @ buf\<rparr> \<Longrightarrow>
     c' = release_owner (on_detect (lib E) ec result (c\<lparr>detector := Some d'\<rparr>)) \<Longrightarrow>
     conn_step E c (Detect_done ec result buf) c'"
| conn_session: "session c = Some (k, s) \<Longrightarrow>
     session_step (E\<lparr>heap := mem c\<rparr>) (do_eof k) s e t \<Longrightarrow>
     c' = c\<lparr>session := Some (k, t),
       websocket := (if upgraded_to s = None then upgraded_to t else websocket c)\<rparr> \<Longrightarrow>
     conn_step E c (Session_event e) c'"
| conn_websocket: "websocket c = Some w \<Longrightarrow> ws_step (lib E) w e w' \<Longrightarrow>
     c' = c\<lparr>websocket := Some w'\<rparr> \<Longrightarrow> conn_step E c (Websocket_event e) c'"

inductive_cases conn_stepE: "conn_step E c e c'"

definition launched :: "nat \<Rightarrow> addr \<Rightarrow> settings \<Rightarrow> string \<Rightarrow> connection \<Rightarrow> bool" where
  "launched n a cfg root c \<longleftrightarrow> c = launch n a cfg root"

abbreviation conn_reach :: "env \<Rightarrow> nat \<Rightarrow> addr \<Rightarrow> settings \<Rightarrow> string \<Rightarrow> connection \<Rightarrow> bool" where
  "conn_reach E n a cfg root \<equiv> reach (launched n a cfg root) (conn_step E)"

section \<open>Lifetimes and owners\<close>

text \<open>
  While the detector is alive there is no session, its only owner is the handler of its one
  outstanding operation, and it has the socket and its settings.  Once there is a session, the
  detector is gone; the session has the socket until it makes a WebSocket session, which then has it.
\<close>

abbreviation no_heap :: "env \<Rightarrow> env" where
  "no_heap E \<equiv> E\<lparr>heap := \<lambda>_. None\<rparr>"

definition detector_inv :: "nat \<Rightarrow> addr \<Rightarrow> settings \<Rightarrow> string \<Rightarrow> detect_session \<Rightarrow> bool" where
  "detector_inv n a cfg root d \<longleftrightarrow> owners d = 1 \<and> dispatched d + detecting d = 1 \<and>
     d_settings d = a \<and> d_doc_root d = root \<and> d_stream d = Tcp n \<and> d_buffer d = ''''"

definition owner_inv :: "env \<Rightarrow> nat \<Rightarrow> addr \<Rightarrow> kind \<Rightarrow> http_session \<Rightarrow> ws_session option \<Rightarrow> bool" where
  "owner_inv E n a k s w \<longleftrightarrow>
     settings_ref s = a \<and> session_reach k (no_heap E) s \<and> stream_inv (lib E) k n s \<and> handled s = [] \<and>
     (case w of
        None \<Rightarrow> upgraded_to s = None
      | Some w \<Rightarrow> upgraded_to s \<noteq> None \<and> ws_reach (lib E) w \<and> ws_stream w = fresh_stream k n)"

definition connection_inv :: "env \<Rightarrow> nat \<Rightarrow> addr \<Rightarrow> settings \<Rightarrow> string \<Rightarrow> connection \<Rightarrow> bool" where
  "connection_inv E n a cfg root c \<longleftrightarrow>
     (case detector c of
        Some d \<Rightarrow> detector_inv n a cfg root d \<and> mem c = (\<lambda>_. None)(a \<mapsto> cfg) \<and>
          session c = None \<and> websocket c = None
      | None \<Rightarrow> mem c = (\<lambda>_. None) \<and>
          (case session c of
             None \<Rightarrow> websocket c = None
           | Some (k, s) \<Rightarrow> owner_inv E n a k s (websocket c)))"

lemma settings_ref_step:
  assumes "session_step E (do_eof k) s e t"
  shows "settings_ref t = settings_ref s"
  using assms
  by cases (cases k; auto elim!: on_read_cases on_write_cases simp: on_handshake_def on_shutdown_def)+

lemma handled_step:
  assumes "session_step (no_heap E) (do_eof k) s e t"
  shows "handled t = handled s"
  using assms
  by cases (cases k; auto elim!: on_read_cases on_write_cases simp: on_handshake_def on_shutdown_def)+

lemma new_session_of_stream:
  "ssl_run (new_ssl_http_session (Tcp n) buf root a) = run_session Ssl (new_session Ssl n buf root a)"
  "plain_run (new_plain_http_session (Tcp n) buf root a) = run_session Plain (new_session Plain n buf root a)"
  by simp_all

lemma new_session_frame:
  "settings_ref (run_session k (new_session k n buf root a)) = a"
  "handled (run_session k (new_session k n buf root a)) = []"
  "upgraded_to (run_session k (new_session k n buf root a)) = None"
  unfolding new_session_eq
  by (cases k; simp add: plain_run_def ssl_run_def new_http_session_def uses_stream_def do_read_def)+

lemma new_session_owner: "owner_inv E n a k (run_session k (new_session k n buf root a)) None"
proof -
  have "session_reach k (no_heap E) (run_session k (new_session k n buf root a))"
    by (rule reach_init) (rule started_new_session)
  then show ?thesis by (simp add: owner_inv_def new_session_frame stream_inv_run)
qed

lemma launch_inv: "connection_inv E n a cfg root (launch n a cfg root)"
  by (simp add: connection_inv_def detector_inv_def launch_def release_owner_def detect_run_def
      new_detect_session_def)

lemma upgraded_to_step:
  assumes "stream_inv (lib E) k n s" and "stream_inv (lib E) k n t" and "upgraded_to s = None"
    and "upgraded_to t = Some w"
  shows "ws_reach (lib E) w \<and> ws_stream w = fresh_stream k n"
  using assms by (auto simp: stream_inv_def split: if_splits intro!: reach_init)

lemma upgraded_to_mono:
  assumes "session_step E (do_eof k) s e t" and "upgraded_to s \<noteq> None"
  shows "upgraded_to t \<noteq> None"
  using assms
  by cases (auto elim!: on_read_cases on_write_cases simp: on_handshake_def on_shutdown_def)

lemma owner_inv_step:
  assumes "session_step (no_heap E) (do_eof k) s e t" and "owner_inv E n a k s w"
  shows "owner_inv E n a k t (if upgraded_to s = None then upgraded_to t else w)"
proof -
  from assms(2) have s: "settings_ref s = a" "session_reach k (no_heap E) s" "stream_inv (lib E) k n s"
    "handled s = []"
    by (simp_all add: owner_inv_def)
  have t: "stream_inv (lib E) k n t"
    using stream_inv_step [OF assms(1) session_reach_inv [OF s(2)]] s(3) by simp
  show ?thesis
    using s t assms(2) settings_ref_step [OF assms(1)] handled_step [OF assms(1)]
      reach_step [OF s(2) assms(1)] upgraded_to_step [OF s(3) t] upgraded_to_mono [OF assms(1)]
    by (auto simp: owner_inv_def split: option.splits)
qed

lemma conn_step_inv:
  assumes "conn_step E c e c'" and "connection_inv E n a cfg root c"
  shows "connection_inv E n a cfg root c'"
  using assms(1)
proof (cases rule: conn_step.cases)
  case (conn_detect d d' buf ec result)
  with assms(2) have d: "d_stream d = Tcp n" "d_settings d = a" "owners d = 1" "detecting d = 1"
    "d_doc_root d = root" "mem c = (\<lambda>_. None)(a \<mapsto> cfg)" "session c = None" "websocket c = None"
    by (auto simp: connection_inv_def detector_inv_def)
  with conn_detect show ?thesis
    by (simp add: connection_inv_def release_owner_def on_detect_def Let_def new_session_of_stream
        new_session_owner del: new_session.simps run_session.simps)
next
  case (conn_session k s ev t)
  with assms(2) have c: "detector c = None" "mem c = (\<lambda>_. None)" "owner_inv E n a k s (websocket c)"
    by (auto simp: connection_inv_def split: option.splits)
  with conn_session(3,4) owner_inv_step show ?thesis
    by (auto simp: connection_inv_def)
next
  case (conn_websocket w ev w')
  with assms(2) ws_stream_step [OF conn_websocket(3)] show ?thesis
    by (auto simp: connection_inv_def owner_inv_def split: option.splits intro: reach_step)
qed (use assms(2) in \<open>auto simp: connection_inv_def detector_inv_def release_owner_def on_run_def\<close>)

interpretation connection: invariant_of "launched n a cfg root" "conn_step E" "connection_inv E n a cfg root"
  for n a cfg root E
  by unfold_locales (auto simp: launched_def launch_inv intro: conn_step_inv)

lemma conn_reach_session:
  assumes "conn_reach E n a cfg root c" and "session c = Some (k, s)"
  shows "detector c = None" and "mem c = (\<lambda>_. None)" and "owner_inv E n a k s (websocket c)"
  using connection.inv_reach [OF assms(1)] assms(2)
  by (auto simp: connection_inv_def split: option.splits)

end
