(* ===== verification/Connection_Props.thy ===== *)
theory Connection_Props
  imports Connection
begin

text \<open>
  The properties of a connection over all runs of its events, from the launch of its detector to
  the end of its WebSocket session.
\<close>

section \<open>Scenarios\<close>

abbreviation sample_connection :: "connection \<Rightarrow> bool" where
  "sample_connection \<equiv> conn_reach sample_env 3 7 sample_settings ''html''"

text \<open>A connection on which detection is under way.\<close>

lemma sample_detecting:
  "\<exists>c d. sample_connection c \<and> detector c = Some d \<and> detecting d = 1 \<and> owners d = 1 \<and>
     d_stream d = Tcp 3 \<and> d_buffer d = '''' \<and> websocket c = None"
proof -
  let ?c0 = "launch 3 7 sample_settings ''html''"
  let ?c1 = "release_owner (on_run (?c0\<lparr>detector := Some ((the (detector ?c0))\<lparr>dispatched := 0\<rparr>)\<rparr>))"
  note defs = launch_def detect_run_def new_detect_session_def release_owner_def on_run_def
  have "sample_connection ?c0"
    by (rule reach_init) (simp add: launched_def)
  moreover have "conn_step sample_env ?c0 Dispatched ?c1"
    by (rule conn_run [of _ "the (detector ?c0)"]) (simp_all add: defs)
  ultimately have "sample_connection ?c1"
    by (rule reach_step)
  then show ?thesis
    by (intro exI [of _ ?c1] exI [of _ "the (detector ?c1)"] conjI) (simp_all add: defs)
qed

text \<open>A connection on which detection has chosen the session.\<close>

lemma sample_detected:
  "\<exists>c. sample_connection c \<and> websocket c = None \<and>
     session c = Some (k, run_session k (new_session k 3 buf ''html'' 7))"
proof -
  obtain c d where r: "sample_connection c" and d: "detector c = Some d" "detecting d = 1"
    "owners d = 1" "d_stream d = Tcp 3" "d_buffer d = ''''" "websocket c = None"
    using sample_detecting by blast
  from connection.inv_reach [OF r] d(1) have e: "d_doc_root d = ''html''" "d_settings d = 7"
    by (simp_all add: connection_inv_def detector_inv_def)
  define d' where "d' = d\<lparr>detecting := detecting d - 1, d_buffer := d_buffer d @ buf\<rparr>"
  define c' where "c' = release_owner (on_detect (lib sample_env) No_error (k = Ssl) (c\<lparr>detector := Some d'\<rparr>))"
  have "conn_step sample_env c (Detect_done No_error (k = Ssl) buf) c'"
    by (rule conn_detect [of _ d d']) (simp_all add: c'_def d'_def d)
  with r have "sample_connection c'" by (rule reach_step)
  moreover have "websocket c' = None \<and> session c' = Some (k, run_session k (new_session k 3 buf ''html'' 7))"
    using d e by (cases k) (simp_all add: c'_def d'_def release_owner_def on_detect_def Let_def)
  ultimately show ?thesis by blast
qed

section \<open>The settings\<close>

text \<open>
  C6: The settings of a session are gone before its first request.  Whatever events a connection
  has seen, once a session exists its settings reference points to a destroyed object, and the
  first ordinary request it reads makes the handler use it.
\<close>

theorem session_settings_dangling:
  assumes "conn_reach E n a cfg root c" and "session c = Some (k, s)"
    and "0 < reads s" and "\<not> is_upgrade req"
  shows "on_read (E\<lparr>heap := mem c\<rparr>) (do_eof k) No_error (finish_read req buf s) = Inl Dangling_settings"
proof -
  note c = conn_reach_session [OF assms(1,2)]
  from c(3) have r: "session_reach k (no_heap E) s" by (simp add: owner_inv_def)
  from session_reach_inv [OF r] assms(3) obtain p where "parser_opt s = Some p"
    by (auto simp: session_inv_def io_inv_def)
  with c(2) assms(4) show ?thesis
    by (simp add: on_read_def finish_read_def Let_def)
qed

theorem session_settings_dangling_witness:
  "\<exists>c s. sample_connection c \<and> session c = Some (Plain, s) \<and> reads s = 1 \<and>
     on_read (sample_env\<lparr>heap := mem c\<rparr>) (do_eof Plain) No_error
       (finish_read (sample_request ''/'' True False) '''' s) = Inl Dangling_settings"
proof -
  obtain c where r: "sample_connection c"
    and c: "session c = Some (Plain, run_session Plain (new_session Plain 3 ''GET'' ''html'' 7))"
    using sample_detected [of Plain "''GET''"] by blast
  let ?s = "run_session Plain (new_session Plain 3 ''GET'' ''html'' 7)"
  have "reads ?s = 1" by (simp add: run_simps)
  with session_settings_dangling [OF r c, of "sample_request ''/'' True False" "''''"] r c
  show ?thesis by auto
qed

lemma owner_idle:
  assumes "owner_inv E n a k s w"
  shows "items s = []" "started s = []" "writes s = []" "upgraded_to s \<noteq> None \<Longrightarrow> reads s = 0 \<and> handshakes s = 0"
proof -
  from assms have r: "session_reach k (no_heap E) s" and st: "stream_inv (lib E) k n s" and h: "handled s = []"
    by (simp_all add: owner_inv_def)
  note inv = session_reach_inv [OF r]
  from handled_eq_queue [OF inv] h have e: "items s = []" "completed s = []" by simp_all
  with inv show "items s = []" "started s = []" "writes s = []"
    by (auto simp: session_inv_def queue_inv_def wq.history_def io_inv_def)
  show "reads s = 0 \<and> handshakes s = 0" if "upgraded_to s \<noteq> None"
    using that st inv by (auto simp: stream_inv_def session_inv_def live_inv_def split: if_splits)
qed

lemma owner_websocket:
  assumes "owner_inv E n a k s (Some w)"
  shows "reads s = 0" "handshakes s = 0" "ws_reach (lib E) w" "echoed w = received w"
  using assms owner_idle(4) [OF assms] ws.inv_reach by (auto simp: owner_inv_def ws_inv_def)

text \<open>
  Without undefined behaviour no request is answered.  In every reachable state of a connection
  its HTTP session has taken in no request, holds and has started no response; what it has made of
  an upgrade is a WebSocket session in one of its reachable states, and then the HTTP session has
  no operation outstanding.
\<close>

theorem connection_serves_websocket_only:
  assumes "conn_reach E n a cfg root c" and "session c = Some (k, s)"
  shows "handled s = [] \<and> items s = [] \<and> started s = [] \<and> writes s = [] \<and>
    (case websocket c of None \<Rightarrow> True
     | Some w \<Rightarrow> reads s = 0 \<and> handshakes s = 0 \<and> ws_reach (lib E) w \<and> echoed w = received w)"
proof -
  note o = conn_reach_session(3) [OF assms]
  have "handled s = []" using o by (simp add: owner_inv_def)
  with owner_idle(1-3) [OF o] owner_websocket [of E n a k s] o show ?thesis
    by (auto split: option.splits)
qed

section \<open>The socket\<close>

definition conn_sockets :: "connection \<Rightarrow> nat list" where
  "conn_sockets c =
     (case detector c of None \<Rightarrow> [] | Some d \<Rightarrow> sockets_of (d_stream d)) @
     (case session c of None \<Rightarrow> [] | Some (k, s) \<Rightarrow> sockets_of (stream s)) @
     (case websocket c of None \<Rightarrow> [] | Some w \<Rightarrow> sockets_of (ws_stream w))"

definition streams_typed :: "connection \<Rightarrow> bool" where
  "streams_typed c \<longleftrightarrow>
     (case detector c of None \<Rightarrow> True | Some d \<Rightarrow> \<not> is_tls (d_stream d)) \<and>
     (case session c of None \<Rightarrow> websocket c = None
      | Some (k, s) \<Rightarrow> is_tls (stream s) = (k = Ssl) \<and>
          (case websocket c of None \<Rightarrow> True | Some w \<Rightarrow> is_tls (ws_stream w) = (k = Ssl)))"

lemma fresh_stream_simps [simp]:
  "sockets_of (fresh_stream k n) = [n]" "is_tls (fresh_stream k n) \<longleftrightarrow> k = Ssl"
  "is_tls (moved_from (fresh_stream k n)) \<longleftrightarrow> k = Ssl"
  by (cases k; simp)+

lemma owner_sockets:
  assumes "owner_inv E n a k s w"
  shows "sockets_of (stream s) @ (case w of None \<Rightarrow> [] | Some w \<Rightarrow> sockets_of (ws_stream w)) = [n]"
    "is_tls (stream s) = (k = Ssl)" "case w of None \<Rightarrow> True | Some w \<Rightarrow> is_tls (ws_stream w) = (k = Ssl)"
  using assms by (auto simp: owner_inv_def stream_inv_def split: option.splits if_splits)

lemma conn_inv_sockets:
  assumes "connection_inv E n a cfg root c"
  shows "conn_sockets c = (if detector c = None \<and> session c = None then [] else [n])" "streams_typed c"
  using assms owner_sockets [of E n a _ _ "websocket c"]
  by (auto simp: conn_sockets_def streams_typed_def connection_inv_def detector_inv_def split: option.splits)

text \<open>
  C7: A socket has one owner, of the right type.  In every reachable state the accepted socket is in
  the stream of exactly one of the detector, the HTTP session and the WebSocket session, or in
  none after detection has failed; and the streams of the HTTP and the WebSocket session are SSL
  streams exactly if the session is an SSL session.
\<close>

theorem socket_has_one_owner:
  assumes "conn_reach E n a cfg root c"
  shows "conn_sockets c = (if detector c = None \<and> session c = None then [] else [n]) \<and> streams_typed c"
  using conn_inv_sockets [OF connection.inv_reach [OF assms]] by blast

text \<open>An upgrade on a reachable connection, whose settings it does not need.\<close>

lemma sample_upgraded:
  "\<exists>c s. sample_connection c \<and> session c = Some (Plain, s) \<and> stream s = Tcp_moved \<and> ops s \<noteq> [] \<and>
     websocket c = Some (make_websocket_session (lib sample_env) (Tcp 3) (sample_request ''/chat'' True True))"
proof -
  let ?s = "run_session Plain (new_session Plain 3 '''' ''html'' 7)"
  obtain c where r: "sample_connection c" and c: "session c = Some (Plain, ?s)" "websocket c = None"
    using sample_detected [of Plain "''''"] by blast
  obtain t where t: "session_step (sample_env\<lparr>heap := mem c\<rparr>) (do_eof Plain) ?s get_upgrade t"
      "stream t = Tcp_moved" "ops t \<noteq> []" "upgraded_to ?s = None"
      "upgraded_to t = Some (make_websocket_session (lib sample_env) (Tcp 3) (sample_request ''/chat'' True True))"
    unfolding session_next_step [symmetric] by (simp add: run_simps)
  let ?c = "c\<lparr>session := Some (Plain, t), websocket := (if upgraded_to ?s = None then upgraded_to t else websocket c)\<rparr>"
  have "conn_step sample_env c (Session_event get_upgrade) ?c"
    by (rule conn_step.conn_session [OF c(1) t(1)]) simp
  with r have "sample_connection ?c" by (rule reach_step)
  with t show ?thesis by (intro exI [of _ ?c] exI [of _ t]) simp
qed

theorem connection_serves_websocket_only_witness:
  "\<exists>c s w. sample_connection c \<and> session c = Some (Plain, s) \<and> websocket c = Some w \<and>
     started s = [] \<and> reads s = 0 \<and> echoed w = received w"
proof -
  obtain c s where r: "sample_connection c" and c: "session c = Some (Plain, s)"
    "websocket c = Some (make_websocket_session (lib sample_env) (Tcp 3) (sample_request ''/chat'' True True))"
    using sample_upgraded by blast
  with connection_serves_websocket_only [OF r c(1)] show ?thesis by auto
qed

theorem socket_has_one_owner_witness:
  "\<exists>c s. sample_connection c \<and> session c = Some (Plain, s) \<and> stream s = Tcp_moved \<and> conn_sockets c = [3]"
proof -
  obtain c s where r: "sample_connection c" and c: "session c = Some (Plain, s)" "stream s = Tcp_moved"
    using sample_upgraded by blast
  with socket_has_one_owner [OF r] show ?thesis by auto
qed

section \<open>Detection\<close>

text \<open>
  Detection chooses the session.  When detection completes on a reachable connection, the
  result is an SSL or a plain session started on the socket and on the octets that detection has
  already read, or, after an error, no session and one report; in every case the detector is gone.
\<close>

theorem detection_outcome:
  assumes "conn_reach E n a cfg root c"
    and "conn_step E c (Detect_done ec result buf) c'"
  shows "detector c' = None \<and>
    session c' = (if is_error ec then None
      else Some (if result then Ssl else Plain,
        run_session (if result then Ssl else Plain)
          (new_session (if result then Ssl else Plain) n buf root a))) \<and>
    conn_cerr c' = conn_cerr c @ (if is_error ec then fail (api_message (lib E)) ec ''detect'' else [])"
  using assms(2)
proof cases
  case (conn_detect d d')
  with connection.inv_reach [OF assms(1)] show ?thesis
    by (auto simp: connection_inv_def detector_inv_def release_owner_def on_detect_def Let_def)
qed

theorem detection_outcome_witness:
  "\<exists>c c'. sample_connection c \<and>
     conn_step sample_env c (Detect_done (Other_error 1) False []) c' \<and>
     session c' = None \<and> conn_cerr c' \<noteq> []"
proof -
  obtain c d where r: "sample_connection c" and d: "detector c = Some d" "detecting d = 1"
    using sample_detecting by blast
  define d' where "d' = d\<lparr>detecting := detecting d - 1, d_buffer := d_buffer d @ []\<rparr>"
  define c' where
    "c' = release_owner (on_detect (lib sample_env) (Other_error 1) False (c\<lparr>detector := Some d'\<rparr>))"
  have step: "conn_step sample_env c (Detect_done (Other_error 1) False []) c'"
    by (rule conn_detect [of _ d d']) (simp_all add: c'_def d'_def d)
  have "session c' = None" and "conn_cerr c' \<noteq> []"
    using detection_outcome [OF r step] by (simp_all add: fail_def)
  with r step show ?thesis by blast
qed

end
