(* ===== verification/Connection_End.thy ===== *)
theory Connection_End
  imports Connection_Props Http_Session_End
begin




section \<open>The session\<close>






section \<open>The connection\<close>









section \<open>Property\<close>



end
