(* ===== verification/Listener.thy ===== *)
theory Listener
  imports Connection_Props
begin

text \<open>
  The class \<open>listener\<close> of \<open>src/c++/systemicai/http/server/server.h\<close> and \<open>server.cpp\<close>, which accepts
  connections and launches a detector for each.  What the operating system answers to the acceptor
  is an argument.
\<close>

type_synonym endpoint = "string \<times> u16"

datatype acceptor_op = Acc_open endpoint | Acc_reuse_address | Acc_bind endpoint | Acc_listen

record listener =
  l_settings :: settings               \<comment> \<open>a copy\<close>
  l_doc_root :: string
  acceptor :: "acceptor_op list"       \<comment> \<open>history of the acceptor's set-up\<close>
  accepts :: nat                       \<comment> \<open>outstanding \<open>async_accept\<close>\<close>
  connections :: "connection list"     \<comment> \<open>launched detectors, in order\<close>
  l_cerr :: "string list"

definition l_fail :: "beast_api \<Rightarrow> error_code \<Rightarrow> string \<Rightarrow> listener \<Rightarrow> listener" where
  "l_fail B ec what l = l\<lparr>l_cerr := l_cerr l @ fail (api_message B) ec what\<rparr>"

definition acceptor_call :: "acceptor_op \<Rightarrow> listener \<Rightarrow> listener" where
  "acceptor_call x l = l\<lparr>acceptor := acceptor l @ [x]\<rparr>"

text \<open>The constructor, with its early returns.\<close>

definition new_listener ::
    "beast_api \<Rightarrow> (acceptor_op \<Rightarrow> error_code) \<Rightarrow> endpoint \<Rightarrow> string \<Rightarrow> settings \<Rightarrow> listener" where
  "new_listener B os ep root cfg = (
     let l = \<lparr>l_settings = cfg, l_doc_root = root, acceptor = [], accepts = 0, connections = [],
               l_cerr = []\<rparr>;
         l = acceptor_call (Acc_open ep) l;
         ec = os (Acc_open ep)
     in if is_error ec then l_fail B ec ''open'' l else
     let l = acceptor_call Acc_reuse_address l;
         ec = os Acc_reuse_address
     in if is_error ec then l_fail B ec ''set_option'' l else
     let l = acceptor_call (Acc_bind ep) l;
         ec = os (Acc_bind ep)
     in if is_error ec then l_fail B ec ''bind'' l else
     let l = acceptor_call Acc_listen l;
         ec = os Acc_listen
     in if is_error ec then l_fail B ec ''listen'' l else l)"

definition l_do_accept :: "listener \<Rightarrow> listener" where
  "l_do_accept l = l\<lparr>accepts := accepts l + 1\<rparr>"

definition listener_run :: "listener \<Rightarrow> listener" where
  "listener_run l = l_do_accept l"

text \<open>
  The accepted socket is \<open>n\<close>; the address \<open>a\<close> at which the new detector will live is the allocator's
  choice.
\<close>

definition l_on_accept :: "beast_api \<Rightarrow> error_code \<Rightarrow> nat \<Rightarrow> addr \<Rightarrow> listener \<Rightarrow> listener" where
  "l_on_accept B ec n a l = (
     let l = (if is_error ec then l_fail B ec ''accept'' l
              else l\<lparr>connections := connections l @ [launch n a (l_settings l) (l_doc_root l)]\<rparr>)
     in l_do_accept l)"

datatype listener_event = Accept_done error_code nat addr | Connection_event nat conn_event

text \<open>An accept completes, or one of the connections moves.\<close>

inductive listener_step :: "env \<Rightarrow> listener \<Rightarrow> listener_event \<Rightarrow> listener \<Rightarrow> bool" for E where
  accept_step: "0 < accepts l \<Longrightarrow>
     listener_step E l (Accept_done ec n a) (l_on_accept (lib E) ec n a (l\<lparr>accepts := accepts l - 1\<rparr>))"
| connection_step: "i < length (connections l) \<Longrightarrow> conn_step E (connections l ! i) e c \<Longrightarrow>
     listener_step E l (Connection_event i e) (l\<lparr>connections := (connections l)[i := c]\<rparr>)"

inductive_simps accept_step_iff: "listener_step E l (Accept_done ec n a) l'"

section \<open>Setting up\<close>

definition setup_ops :: "endpoint \<Rightarrow> acceptor_op list" where
  "setup_ops ep = [Acc_open ep, Acc_reuse_address, Acc_bind ep, Acc_listen]"

fun op_name :: "acceptor_op \<Rightarrow> string" where
  "op_name (Acc_open ep) = ''open''"
| "op_name Acc_reuse_address = ''set_option''"
| "op_name (Acc_bind ep) = ''bind''"
| "op_name Acc_listen = ''listen''"

text \<open>The reference: call the operations in turn up to and including the first that fails.\<close>

fun set_up :: "beast_api \<Rightarrow> (acceptor_op \<Rightarrow> error_code) \<Rightarrow> acceptor_op list \<Rightarrow> acceptor_op list \<times> string list"
  where
  "set_up B os [] = ([], [])"
| "set_up B os (x # xs) =
     (if is_error (os x) then ([x], fail (api_message B) (os x) (op_name x))
      else case set_up B os xs of (ys, cs) \<Rightarrow> (x # ys, cs))"

text \<open>
  Setting up stops at the first failure.  The constructor makes the four calls on the acceptor
  in order up to and including the first that fails, reports that failure and no other, and accepts
  nothing by itself.
\<close>

theorem new_listener_sets_up:
  "(acceptor (new_listener B os ep root cfg), l_cerr (new_listener B os ep root cfg)) =
     set_up B os (setup_ops ep) \<and>
   accepts (new_listener B os ep root cfg) = 0 \<and> connections (new_listener B os ep root cfg) = []"
  by (simp add: new_listener_def setup_ops_def acceptor_call_def l_fail_def Let_def)

section \<open>Accepting\<close>

definition listening :: "beast_api \<Rightarrow> listener \<Rightarrow> bool" where
  "listening B l \<longleftrightarrow> (\<exists>os ep root cfg. l = listener_run (new_listener B os ep root cfg))"

lemma listening_new [intro]: "listening B (listener_run (new_listener B os ep root cfg))"
  unfolding listening_def by blast

definition listener_inv :: "env \<Rightarrow> listener \<Rightarrow> bool" where
  "listener_inv E l \<longleftrightarrow> accepts l = 1 \<and>
     (\<forall>c \<in> set (connections l). \<exists>n a. conn_reach E n a (l_settings l) (l_doc_root l) c)"

lemma listening_inv: "listening (lib E) l \<Longrightarrow> listener_inv E l"
  by (auto simp: listening_def listener_inv_def listener_run_def l_do_accept_def new_listener_def
      acceptor_call_def l_fail_def Let_def)

lemma listener_step_inv:
  assumes "listener_step E l e l'" and "listener_inv E l"
  shows "listener_inv E l'"
  using assms(1)
proof cases
  case (accept_step ec n a)
  have "conn_reach E n a (l_settings l) (l_doc_root l) (launch n a (l_settings l) (l_doc_root l))"
    by (rule reach_init) (simp add: launched_def)
  with assms(2) accept_step show ?thesis
    by (auto simp: listener_inv_def l_on_accept_def l_do_accept_def l_fail_def Let_def)
next
  case (connection_step i e c)
  from assms(2) connection_step(3) obtain n a where
    "conn_reach E n a (l_settings l) (l_doc_root l) (connections l ! i)"
    unfolding listener_inv_def using nth_mem by blast
  with connection_step have "conn_reach E n a (l_settings l) (l_doc_root l) c"
    by (auto intro: reach_step)
  with assms(2) connection_step(2) show ?thesis
    by (auto simp: listener_inv_def dest!: subsetD [OF set_update_subset_insert])
qed

interpretation listener: invariant_of "listening (lib E)" "listener_step E" "listener_inv E" for E
  by unfold_locales (auto intro: listening_inv listener_step_inv)

text \<open>A listener whose address is already in use, and one that has accepted a connection.\<close>

definition busy_listener :: listener where
  "busy_listener = listener_run (new_listener (lib sample_env)
     (\<lambda>x. if x = Acc_bind (''0.0.0.0'', 80) then Other_error 98 else No_error)
     (''0.0.0.0'', 80) ''html'' sample_settings)"

lemma busy_listener_reach: "reach (listening (lib sample_env)) (listener_step sample_env) busy_listener"
  unfolding busy_listener_def by (rule reach_init) (rule listening_new)

lemma busy_listener_accepts [simp]: "accepts busy_listener = 1"
  by (simp add: busy_listener_def listener_run_def l_do_accept_def new_listener_def acceptor_call_def
      l_fail_def Let_def)

lemma accept_enabled:
  "0 < accepts l \<Longrightarrow> listener_step E l (Accept_done ec n a)
     (l_on_accept (lib E) ec n a (l\<lparr>accepts := accepts l - 1\<rparr>))"
  by (rule accept_step)

text \<open>
  C30: The listener never stops accepting.  In every reachable state, also after a failed set-up and
  after failed accepts, exactly one accept is outstanding, and every connection is in a state that
  a detector launched with the listener's settings can reach.
\<close>

theorem listener_keeps_accepting:
  assumes "reach (listening (lib E)) (listener_step E) l"
  shows "accepts l = 1 \<and> (\<forall>c \<in> set (connections l).
    \<exists>n a. conn_reach E n a (l_settings l) (l_doc_root l) c)"
  using listener.inv_reach [OF assms] by (simp add: listener_inv_def)

theorem listener_keeps_accepting_witness:
  "\<exists>l. reach (listening (lib sample_env)) (listener_step sample_env) l \<and>
     length (connections l) = 1 \<and> accepts l = 1"
proof -
  define l where "l = l_on_accept (lib sample_env) No_error 3 7 (busy_listener\<lparr>accepts := accepts busy_listener - 1\<rparr>)"
  have "listener_step sample_env busy_listener (Accept_done No_error 3 7) l"
    unfolding l_def by (rule accept_enabled) simp
  with busy_listener_reach have r: "reach (listening (lib sample_env)) (listener_step sample_env) l"
    by (rule reach_step)
  have "length (connections l) = 1"
    by (simp add: l_def l_on_accept_def l_do_accept_def busy_listener_def listener_run_def
        new_listener_def acceptor_call_def l_fail_def Let_def)
  with r listener_keeps_accepting [OF r] show ?thesis by blast
qed

text \<open>
  An accept is answered by one detector or one report.  A completed accept launches exactly one
  connection, with the listener's settings, if it succeeded, and otherwise reports the error and
  launches nothing; then it accepts again.
\<close>

theorem accept_outcome:
  assumes "reach (listening (lib E)) (listener_step E) l"
    and "listener_step E l (Accept_done ec n a) l'"
  shows "connections l' = connections l @
      (if is_error ec then [] else [launch n a (l_settings l) (l_doc_root l)]) \<and>
    l_cerr l' = l_cerr l @ (if is_error ec then fail (api_message (lib E)) ec ''accept'' else []) \<and>
    accepts l' = 1"
  using assms(2) listener.inv_later [OF assms] unfolding accept_step_iff
  by (auto simp: l_on_accept_def l_do_accept_def l_fail_def Let_def listener_inv_def)

theorem accept_outcome_witness:
  "\<exists>l'. listener_step sample_env busy_listener (Accept_done (Other_error 24) 3 7) l' \<and>
     connections l' = connections busy_listener \<and>
     l_cerr l' = l_cerr busy_listener @ [''accept: failed'' @ [CHR 0x0A]] \<and> accepts l' = 1"
proof -
  have step: "listener_step sample_env busy_listener (Accept_done (Other_error 24) 3 7)
    (l_on_accept (lib sample_env) (Other_error 24) 3 7 (busy_listener\<lparr>accepts := accepts busy_listener - 1\<rparr>))"
    by (rule accept_enabled) simp
  from step accept_outcome [OF busy_listener_reach step] show ?thesis
    by (auto simp: fail_def sample_env_def ref_beast_def)
qed

end
