(* ===== verification/Executor.thy ===== *)
theory Executor
  imports Listener
begin

text \<open>
  The threads that run the handlers.  The service calls \<open>run()\<close> on several threads, so handlers run
  concurrently; what keeps them apart are the strands on which the listener puts its acceptor and
  each socket that it accepts.  Here a handler takes time: a thread begins it, reading the objects it
  works on, and ends it later, writing them back.  The result is that this gives nothing that the
  listener's atomic steps do not give, which is what the other theories work with.
\<close>

section \<open>Strands\<close>

text \<open>
  The constructor makes a strand for the acceptor, and \<open>do_accept\<close> one for each new socket, on which
  all handlers of the connection run; the handler of an accept runs on the acceptor's.
\<close>

datatype strand = Acceptor_strand | Socket_strand nat

fun strand_of :: "listener_event \<Rightarrow> strand" where
  "strand_of (Accept_done ec n a) = Acceptor_strand"
| "strand_of (Connection_event i e) = Socket_strand i"

text \<open>
  The executor is the library's: whether it lets a handler of a strand start while threads are in
  handlers of certain others.  What is documented is that the handlers of one strand do not overlap.
\<close>

type_synonym executor = "strand list \<Rightarrow> strand \<Rightarrow> bool"

definition strand_law :: "executor \<Rightarrow> bool" where
  "strand_law X \<longleftrightarrow> (\<forall>busy st. X busy st \<longrightarrow> st \<notin> set busy)"

section \<open>Handlers that take time\<close>

text \<open>
  A handler that a thread is in: its event, and what it will write back of the objects it works
  on, the listener's own members and the connections it appends, or one connection.
\<close>

datatype work =
    Accepting error_code nat addr nat "string list" "connection list"
  | Handling nat conn_event connection

fun event_of :: "work \<Rightarrow> listener_event" where
  "event_of (Accepting ec n a acc out cs) = Accept_done ec n a"
| "event_of (Handling i e c) = Connection_event i e"

fun commit :: "work \<Rightarrow> listener \<Rightarrow> listener" where
  "commit (Accepting ec n a acc out cs) l =
     l\<lparr>accepts := acc, l_cerr := out, connections := connections l @ cs\<rparr>"
| "commit (Handling i e c) l = l\<lparr>connections := (connections l)[i := c]\<rparr>"

inductive begins :: "env \<Rightarrow> listener \<Rightarrow> work \<Rightarrow> bool" for E l where
  begins_accept: "0 < accepts l \<Longrightarrow> l' = l_on_accept (lib E) ec n a (l\<lparr>accepts := accepts l - 1\<rparr>) \<Longrightarrow>
     begins E l (Accepting ec n a (accepts l') (l_cerr l') (drop (length (connections l)) (connections l')))"
| begins_handler: "i < length (connections l) \<Longrightarrow> conn_step E (connections l ! i) e c \<Longrightarrow>
     begins E l (Handling i e c)"

inductive_simps begins_simps:
  "begins E l (Accepting ec n a acc out cs)" "begins E l (Handling i e c)"

record pool =
  shared :: listener
  busy :: "work list"                \<comment> \<open>the handlers that threads are in\<close>
  threads :: nat

abbreviation strands :: "pool \<Rightarrow> strand list" where
  "strands p \<equiv> map (strand_of \<circ> event_of) (busy p)"

datatype pool_event = Begin listener_event | End listener_event

inductive pool_step :: "env \<Rightarrow> executor \<Rightarrow> pool \<Rightarrow> pool_event \<Rightarrow> pool \<Rightarrow> bool" for E X where
  pool_begin: "length (busy p) < threads p \<Longrightarrow> begins E (shared p) w \<Longrightarrow>
     X (strands p) (strand_of (event_of w)) \<Longrightarrow> q = p\<lparr>busy := busy p @ [w]\<rparr> \<Longrightarrow>
     pool_step E X p (Begin (event_of w)) q"
| pool_end: "busy p = xs @ w # ys \<Longrightarrow> q = p\<lparr>shared := commit w (shared p), busy := xs @ ys\<rparr> \<Longrightarrow>
     pool_step E X p (End (event_of w)) q"

inductive_cases pool_endE: "pool_step E X p (End e) q"

definition pool_started :: "beast_api \<Rightarrow> pool \<Rightarrow> bool" where
  "pool_started B p \<longleftrightarrow> listening B (shared p) \<and> busy p = []"

section \<open>Handlers on different strands do not disturb each other\<close>

lemma begins_step: "begins E l w \<Longrightarrow> listener_step E l (event_of w) (commit w l)"
proof (cases w)
  case (Accepting ec n a acc out cs)
  assume "begins E l w"
  with Accepting have "0 < accepts l"
    and "commit w l = l_on_accept (lib E) ec n a (l\<lparr>accepts := accepts l - 1\<rparr>)"
    by (auto simp: begins_simps l_on_accept_def l_do_accept_def l_fail_def Let_def)
  with accept_enabled [of l E ec n a] Accepting show ?thesis by simp
next
  case (Handling i e c)
  assume "begins E l w"
  with Handling show ?thesis by (auto simp: begins_simps intro: connection_step)
qed

lemma begins_commit:
  assumes "begins E l w" and "begins E l v" and "strand_of (event_of w) \<noteq> strand_of (event_of v)"
  shows "begins E (commit w l) v"
  using assms
  by (cases w; cases v)
     (auto simp: begins_simps l_on_accept_def l_do_accept_def l_fail_def Let_def nth_append)

definition pool_inv :: "env \<Rightarrow> pool \<Rightarrow> bool" where
  "pool_inv E p \<longleftrightarrow> distinct (strands p) \<and> length (busy p) \<le> threads p \<and>
     (\<forall>w \<in> set (busy p). begins E (shared p) w)"

lemma pool_step_inv:
  assumes "strand_law X" and "pool_step E X p ev q" and "pool_inv E p"
  shows "pool_inv E q"
  using assms(2)
proof cases
  case (pool_begin w)
  then have "strand_of (event_of w) \<notin> set (strands p)" using assms(1) unfolding strand_law_def by blast
  with assms(3) pool_begin show ?thesis by (auto simp: pool_inv_def)
next
  case (pool_end xs w ys)
  have "begins E (commit w (shared p)) v" if "v \<in> set (xs @ ys)" for v
  proof (rule begins_commit)
    show "begins E (shared p) w" "begins E (shared p) v"
      using assms(3) pool_end(2) that by (auto simp: pool_inv_def)
    show "strand_of (event_of w) \<noteq> strand_of (event_of v)"
      using assms(3) pool_end(2) that by (force simp: pool_inv_def)
  qed
  with assms(3) pool_end show ?thesis by (auto simp: pool_inv_def)
qed

text \<open>A thread that ends its handler makes a step of the listener, one that begins it makes none.\<close>

lemma pool_step_sim:
  assumes "pool_step E X p ev q" and "pool_inv E p"
  shows "case ev of Begin e \<Rightarrow> shared q = shared p | End e \<Rightarrow> listener_step E (shared p) e (shared q)"
  using assms(1)
proof cases
  case (pool_end xs w ys)
  with assms(2) have "begins E (shared p) w" by (simp add: pool_inv_def)
  with pool_end begins_step show ?thesis by simp
qed simp

interpretation pool_sim: simulation "\<lambda>p. strand_law X \<and> pool_started (lib E) p" "pool_step E X"
    "\<lambda>p. strand_law X \<and> pool_inv E p" "listening (lib E)" "listener_step E" shared
  for E X
proof unfold_locales
  fix p q ev
  assume st: "pool_step E X p ev q" and inv: "strand_law X \<and> pool_inv E p"
  then show "strand_law X \<and> pool_inv E q" using pool_step_inv by blast
  from pool_step_sim [OF st] inv show "shared q = shared p \<or> (\<exists>l. listener_step E (shared p) l (shared q))"
    by (cases ev) auto
qed (auto simp: pool_started_def pool_inv_def)

section \<open>Property\<close>

text \<open>
  The threads are as good as one.  Whatever the number of threads and however their handlers
  overlap, no two of them work on the acceptor or on the same connection at once, and the listener
  with its connections is always in a state that handlers run one after the other would have
  reached: a handler takes effect, as one atomic step, when it ends.
\<close>

theorem strands_linearize:
  assumes "strand_law X" and "pool_started (lib E) p0" and "reach (\<lambda>p. p = p0) (pool_step E X) p"
  shows "distinct (strands p) \<and> length (busy p) \<le> threads p \<and>
    reach (listening (lib E)) (listener_step E) (shared p) \<and>
    (\<forall>e q. pool_step E X p (End e) q \<longrightarrow> listener_step E (shared p) e (shared q))"
proof -
  have r: "reach (\<lambda>p. strand_law X \<and> pool_started (lib E) p) (pool_step E X) p"
    by (rule reach_from [OF assms(3)]) (simp add: reach_init assms(1,2))
  from pool_sim.inv_reach [OF r] have inv: "pool_inv E p" by simp
  with pool_sim.refines_reach [OF r] show ?thesis
    using pool_step_sim [OF _ inv, of X "End _"] by (auto simp: pool_inv_def)
qed

text \<open>Two threads, one accepting while the other runs the handler of a connection.\<close>

theorem strands_linearize_witness:
  "\<exists>p. reach (\<lambda>p. p = \<lparr>shared = busy_listener, busy = [], threads = 2\<rparr>)
       (pool_step sample_env (\<lambda>busy st. st \<notin> set busy)) p \<and>
     strands p = [Acceptor_strand, Socket_strand 0] \<and> distinct (strands p)"
proof -
  let ?X = "\<lambda>busy st. st \<notin> set busy" and ?p0 = "\<lparr>shared = busy_listener, busy = [], threads = 2\<rparr>"
  let ?R = "reach (\<lambda>p. p = ?p0) (pool_step sample_env ?X)"
  have law: "strand_law ?X" by (simp add: strand_law_def)
  have start: "pool_started (lib sample_env) ?p0"
    by (simp add: pool_started_def busy_listener_def listening_new)
  have acc: "\<exists>w. begins sample_env l w \<and> event_of w = Accept_done No_error 3 7 \<and>
      accepts (commit w l) = accepts l \<and>
      connections (commit w l) = connections l @ [launch 3 7 (l_settings l) (l_doc_root l)]"
    if "0 < accepts l" for l
    using that by (intro exI [of _ "Accepting No_error 3 7 (accepts l) (l_cerr l)
        [launch 3 7 (l_settings l) (l_doc_root l)]"])
      (auto simp: begins_simps l_on_accept_def l_do_accept_def)
  from acc [of busy_listener] obtain w where w: "begins sample_env busy_listener w"
    "event_of w = Accept_done No_error 3 7" "accepts (commit w busy_listener) = 1"
    "connections (commit w busy_listener) = connections busy_listener @
       [launch 3 7 (l_settings busy_listener) (l_doc_root busy_listener)]"
    by auto
  define l where "l = commit w busy_listener"
  have "?R ?p0" by (rule reach_init) simp
  moreover have "pool_step sample_env ?X ?p0 (Begin (event_of w)) (?p0\<lparr>busy := [w]\<rparr>)"
    using w by (intro pool_begin) simp_all
  moreover have "pool_step sample_env ?X (?p0\<lparr>busy := [w]\<rparr>) (End (event_of w)) (?p0\<lparr>shared := l\<rparr>)"
    by (rule pool_end [of _ "[]" _ "[]"]) (simp_all add: l_def)
  ultimately have r1: "?R (?p0\<lparr>shared := l\<rparr>)" by (blast intro: reach_step)
  from acc [of l] w(3) obtain v where v: "begins sample_env l v" "event_of v = Accept_done No_error 3 7"
    by (auto simp: l_def)
  let ?p2 = "?p0\<lparr>shared := l, busy := [v]\<rparr>"
  have "pool_step sample_env ?X (?p0\<lparr>shared := l\<rparr>) (Begin (event_of v)) ?p2"
    using v by (intro pool_begin) simp_all
  with r1 have r2: "?R ?p2" by (rule reach_step)
  have "connections l = [launch 3 7 (l_settings busy_listener) (l_doc_root busy_listener)]"
    using w(4) by (simp add: l_def busy_listener_def listener_run_def l_do_accept_def new_listener_def
        acceptor_call_def l_fail_def Let_def)
  then have "\<exists>c. conn_step sample_env (connections l ! 0) Dispatched c \<and> 0 < length (connections l)"
    by (auto simp: launch_def detect_run_def new_detect_session_def release_owner_def intro!: conn_run)
  then obtain c where c: "begins sample_env l (Handling 0 Dispatched c)" by (auto simp: begins_simps)
  have "pool_step sample_env ?X ?p2 (Begin (event_of (Handling 0 Dispatched c)))
      (?p2\<lparr>busy := [v, Handling 0 Dispatched c]\<rparr>)"
    using c v by (intro pool_begin) simp_all
  with r2 have r3: "?R (?p2\<lparr>busy := [v, Handling 0 Dispatched c]\<rparr>)" by (rule reach_step)
  from strands_linearize [OF law start r3] r3 v show ?thesis by (intro exI [of _ "?p2\<lparr>busy := [v, Handling 0 Dispatched c]\<rparr>"]) simp
qed

end
