(* ===== verification/Service.thy ===== *)
theory Service
  imports Listener
begin

text \<open>
  The class \<open>service\<close> of \<open>src/c++/systemicai/http/server/service.hpp\<close>.  \<open>start\<close> blocks its caller, so
  it is split where it does: up to the point where it enters \<open>run()\<close> it is one operation, then
  the calling thread and the worker threads are in \<open>run()\<close>, then the workers are joined, the
  context is released, and the locals of \<open>start\<close> are destroyed.  An event is one of these, or a
  handler of the context, or a call from another thread.
\<close>

section \<open>State\<close>

record io_context =
  concurrency :: int
  is_stopped :: bool
  server :: "listener option"
  signal_waits :: nat                   \<comment> \<open>outstanding \<open>signals.async_wait\<close>\<close>

datatype start_phase =
    Idle                                \<comment> \<open>no call of \<open>start\<close> is active\<close>
  | In_run                              \<comment> \<open>the caller is in \<open>_ioc->run()\<close>\<close>
  | Joining
  | Leaving                             \<comment> \<open>\<open>_ioc\<close> has been reset, the locals are still there\<close>

record service =
  svc_settings :: settings
  ioc :: "io_context option"            \<comment> \<open>\<open>_ioc\<close>\<close>
  phase :: start_phase
  workers :: nat                        \<comment> \<open>threads in the vector \<open>v\<close>\<close>
  exited :: nat                         \<comment> \<open>those whose \<open>run()\<close> has returned\<close>

datatype start_result = Returned int | Threw | Blocked

definition new_service :: "settings \<Rightarrow> service" where
  "new_service cfg = \<lparr>svc_settings = cfg, ioc = None, phase = Idle, workers = 0, exited = 0\<rparr>"

section \<open>Operations\<close>

text \<open>The loop that launches the workers, \<open>for(auto i = threads - 1; i > 0; --i)\<close>.\<close>

function spawn :: "int \<Rightarrow> nat \<Rightarrow> nat" where
  "spawn i v = (if 0 < i then spawn (i - 1) (v + 1) else v)"
  by auto

termination by (relation "measure (\<lambda>(i, v). nat i)") auto

declare spawn.simps [simp del]

text \<open>
  What the code takes from elsewhere: the parser of addresses, which throws on a malformed one, and
  the answers of the operating system to the acceptor.
\<close>

record host =
  make_address :: "string \<Rightarrow> string option"
  acceptor_answer :: "acceptor_op \<Rightarrow> error_code"

definition start :: "beast_api \<Rightarrow> host \<Rightarrow> service \<Rightarrow> start_result \<times> service" where
  "start B H s =
     (if ioc s \<noteq> None then (Returned exit_failure, s)
      else
        let threads = max 1 (sint (thread_io (svc_settings s)));
            c = \<lparr>concurrency = threads, is_stopped = False, server = None, signal_waits = 0\<rparr>;
            s = s\<lparr>ioc := Some c\<rparr>
        in case make_address H (c_str (interface_address (svc_settings s))) of
             None \<Rightarrow> (Threw, s)
           | Some address \<Rightarrow>
               let port = interface_port (svc_settings s);
                   root = document_root (svc_settings s);
                   l = listener_run (new_listener B (acceptor_answer H) (address, port) root (svc_settings s));
                   c = c\<lparr>server := Some l, signal_waits := 1\<rparr>
               in (Blocked, s\<lparr>ioc := Some c, phase := In_run, workers := spawn (threads - 1) 0, exited := 0\<rparr>))"

definition running :: "service \<Rightarrow> bool" where
  "running s = (case ioc s of None \<Rightarrow> False | Some c \<Rightarrow> \<not> is_stopped c)"

definition stop :: "service \<Rightarrow> ub + service" where
  "stop s = (case ioc s of
     None \<Rightarrow> Inl Null_io_context
   | Some c \<Rightarrow> Inr (s\<lparr>ioc := Some (c\<lparr>is_stopped := True\<rparr>)\<rparr>))"

text \<open>The handler of the signals.\<close>

definition on_signal :: "service \<Rightarrow> ub + service" where
  "on_signal s = stop s"

text \<open>
  The end of \<open>start\<close>: after the last join the context is released, and then the locals go, among
  them \<open>signals\<close>, whose destructor uses the context it was made from.
\<close>

definition reset_ioc :: "service \<Rightarrow> service" where
  "reset_ioc s = s\<lparr>ioc := None, phase := Leaving\<rparr>"

definition leave_start :: "service \<Rightarrow> ub + start_result \<times> service" where
  "leave_start s = (case ioc s of
     None \<Rightarrow> Inl Dangling_io_context
   | Some c \<Rightarrow> Inr (Returned exit_success, s\<lparr>phase := Idle\<rparr>))"

section \<open>Events\<close>

text \<open>
  \<open>run()\<close> returns when the context is stopped, or when it has no outstanding work; the wait for
  signals and the accept are work, there may be more.  Handlers run while a thread is in \<open>run()\<close>.
\<close>

definition out_of_work :: "io_context \<Rightarrow> bool" where
  "out_of_work c \<longleftrightarrow> signal_waits c = 0 \<and> (case server c of None \<Rightarrow> True | Some l \<Rightarrow> accepts l = 0)"

definition may_return :: "service \<Rightarrow> bool" where
  "may_return s = (case ioc s of None \<Rightarrow> False | Some c \<Rightarrow> is_stopped c \<or> out_of_work c)"

definition in_run :: "service \<Rightarrow> bool" where
  "in_run s \<longleftrightarrow> phase s = In_run \<or> exited s < workers s"

datatype service_event =
    Start_called
  | Stop_called
  | Signal_caught
  | Accept_event listener_event
  | Worker_returns
  | Main_returns
  | All_joined

inductive service_step :: "env \<Rightarrow> host \<Rightarrow> service \<Rightarrow> service_event \<Rightarrow> service \<Rightarrow> bool" for E H where
  start_called: "phase s \<noteq> Leaving \<Longrightarrow> start (lib E) H s = (r, t) \<Longrightarrow> service_step E H s Start_called t"
| stop_called: "stop s = Inr t \<Longrightarrow> service_step E H s Stop_called t"
| signal_caught: "ioc s = Some c \<Longrightarrow> \<not> is_stopped c \<Longrightarrow> in_run s \<Longrightarrow> 0 < signal_waits c \<Longrightarrow>
     on_signal (s\<lparr>ioc := Some (c\<lparr>signal_waits := signal_waits c - 1\<rparr>)\<rparr>) = Inr t \<Longrightarrow>
     service_step E H s Signal_caught t"
| accept_event: "ioc s = Some c \<Longrightarrow> \<not> is_stopped c \<Longrightarrow> in_run s \<Longrightarrow> server c = Some l \<Longrightarrow>
     listener_step E l e l' \<Longrightarrow>
     service_step E H s (Accept_event e) (s\<lparr>ioc := Some (c\<lparr>server := Some l'\<rparr>)\<rparr>)"
| worker_returns: "may_return s \<Longrightarrow> exited s < workers s \<Longrightarrow>
     service_step E H s Worker_returns (s\<lparr>exited := exited s + 1\<rparr>)"
| main_returns: "may_return s \<Longrightarrow> phase s = In_run \<Longrightarrow>
     service_step E H s Main_returns (s\<lparr>phase := Joining\<rparr>)"
| all_joined: "phase s = Joining \<Longrightarrow> exited s = workers s \<Longrightarrow>
     service_step E H s All_joined (reset_ioc s)"

definition constructed :: "service \<Rightarrow> bool" where
  "constructed s \<longleftrightarrow> (\<exists>cfg. s = new_service cfg)"

section \<open>The invariant\<close>

lemma spawn_eq: "spawn i v = v + nat i"
proof (induction i v rule: spawn.induct)
  case (1 i v)
  then show ?case by (subst spawn.simps) auto
qed

definition serving :: "env \<Rightarrow> io_context \<Rightarrow> bool" where
  "serving E c \<longleftrightarrow> (\<exists>l. server c = Some l \<and> reach (listening (lib E)) (listener_step E) l)"

text \<open>
  A context without a server is the one that a \<open>start\<close> that threw has left behind.
\<close>

definition service_inv :: "env \<Rightarrow> service \<Rightarrow> bool" where
  "service_inv E s \<longleftrightarrow>
     exited s \<le> workers s \<and>
     (case phase s of
        Idle \<Rightarrow> workers s = 0 \<and> (\<forall>c. ioc s = Some c \<longrightarrow> server c = None)
      | In_run \<Rightarrow> workers s + 1 = nat (max 1 (sint (thread_io (svc_settings s)))) \<and>
          (\<exists>c. ioc s = Some c \<and> serving E c \<and> (0 < exited s \<longrightarrow> is_stopped c))
      | Joining \<Rightarrow> (\<exists>c. ioc s = Some c \<and> serving E c \<and> is_stopped c)
      | Leaving \<Rightarrow> ioc s = None \<and> exited s = workers s)"

lemma serving_has_work: "serving E c \<Longrightarrow> \<not> out_of_work c"
  using listener.inv_reach by (auto simp: serving_def out_of_work_def listener_inv_def)

lemma may_return_stopped:
  "service_inv E s \<Longrightarrow> may_return s \<Longrightarrow> workers s = 0 \<and> phase s = Idle \<or> (\<exists>c. ioc s = Some c \<and> is_stopped c)"
  using serving_has_work by (auto simp: service_inv_def may_return_def split: start_phase.splits option.splits)

lemma start_inv:
  assumes "start (lib E) H s = (r, t)" and "service_inv E s" and "phase s \<noteq> Leaving"
  shows "service_inv E t"
proof (cases "ioc s")
  case (Some c)
  with assms show ?thesis by (simp add: start_def)
next
  case None
  with assms(2,3) have idle: "phase s = Idle" "workers s = 0" "exited s = 0"
    by (auto simp: service_inv_def split: start_phase.splits)
  have "serving E (\<lparr>concurrency = n, is_stopped = False, server = Some (listener_run
      (new_listener (lib E) os ep root cfg)), signal_waits = 1\<rparr>)" for n os ep root cfg
    unfolding serving_def by (auto intro!: reach_init listening_new)
  with assms(1) None idle show ?thesis
    by (auto simp: start_def service_inv_def Let_def spawn_eq split: option.splits)
qed

lemma service_step_inv:
  assumes "service_step E H s e t" and "service_inv E s"
  shows "service_inv E t"
  using assms(1)
proof cases
  case (start_called r)
  with assms(2) show ?thesis by (blast intro: start_inv)
next
  case (accept_event c l ev l')
  from assms(2) accept_event(3,5,6) have "reach (listening (lib E)) (listener_step E) l"
    by (auto simp: service_inv_def serving_def in_run_def split: start_phase.splits)
  with accept_event(7) have "reach (listening (lib E)) (listener_step E) l'"
    by (auto intro: reach_step)
  with assms(2) accept_event show ?thesis
    by (auto simp: service_inv_def serving_def in_run_def split: start_phase.splits)
next
  case worker_returns
  with assms(2) may_return_stopped [of E s] show ?thesis
    by (auto simp: service_inv_def split: start_phase.splits)
next
  case main_returns
  with assms(2) may_return_stopped [of E s] show ?thesis
    by (auto simp: service_inv_def)
qed (use assms(2) in \<open>auto simp: service_inv_def stop_def on_signal_def serving_def reset_ioc_def
    split: start_phase.splits option.splits\<close>)

lemma constructed_inv: "constructed s \<Longrightarrow> service_inv E s"
  by (auto simp: constructed_def new_service_def service_inv_def)

interpretation service: invariant_of constructed "service_step E H" "service_inv E" for E H
  by unfold_locales (auto intro: constructed_inv service_step_inv)

section \<open>Properties\<close>

text \<open>A host that parses one address, and a service that has been started on it.\<close>

definition sample_host :: host where
  "sample_host = \<lparr>make_address = (\<lambda>t. if t = ''127.0.0.1'' then Some t else None),
     acceptor_answer = (\<lambda>x. No_error)\<rparr>"

definition started_service :: service where
  "started_service = snd (start (lib sample_env) sample_host (new_service sample_settings))"

lemma new_service_reach: "reach constructed (service_step E H) (new_service cfg)"
  by (rule reach_init) (auto simp: constructed_def)

lemma reach_start:
  "reach constructed (service_step E H) s \<Longrightarrow> phase s \<noteq> Leaving \<Longrightarrow>
     reach constructed (service_step E H) (snd (start (lib E) H s))"
  using start_called [of s E H "fst (start (lib E) H s)" "snd (start (lib E) H s)"]
  by (auto intro: reach_step)

lemma started_service_reach: "reach constructed (service_step sample_env sample_host) started_service"
  unfolding started_service_def
  by (rule reach_start [OF new_service_reach]) (simp add: new_service_def)

lemma started_service_step:
  "service_step sample_env sample_host (new_service sample_settings) Start_called started_service"
  unfolding started_service_def
  by (rule start_called [OF _ prod.collapse [symmetric]]) (simp add: new_service_def)

lemma started_service_simps:
  "phase started_service = In_run" "workers started_service = 1" "exited started_service = 0"
  "\<exists>c. ioc started_service = Some c \<and> \<not> is_stopped c"
  by (simp_all add: started_service_def start_def new_service_def sample_host_def sample_settings_def
      c_str_def spawn_eq)

text \<open>
  C25: The context outlives the threads that use it.  In every reachable state, while a worker thread
  or the caller of \<open>start\<close> is in \<open>run()\<close>, the context exists and serves a listener that is in one
  of its reachable states; a thread leaves \<open>run()\<close> only once the service has been stopped; and the
  number of threads is the configured one, but at least one.
\<close>

theorem context_outlives_threads:
  assumes "reach constructed (service_step E H) s"
  shows "(in_run s \<longrightarrow> (\<exists>c. ioc s = Some c \<and> serving E c)) \<and>
    (phase s = In_run \<longrightarrow> workers s + 1 = nat (max 1 (sint (thread_io (svc_settings s))))) \<and>
    ((phase s = In_run \<and> 0 < exited s \<or> phase s = Joining) \<longrightarrow> \<not> running s)"
  using service.inv_reach [OF assms]
  by (auto simp: service_inv_def in_run_def running_def split: start_phase.splits)

theorem context_outlives_threads_witness:
  "\<exists>c. ioc started_service = Some c \<and> serving sample_env c \<and> workers started_service + 1 = 2"
  using context_outlives_threads [OF started_service_reach]
  by (auto simp: started_service_simps in_run_def)

lemma workers_wind_down:
  assumes "phase s = Joining" and "ioc s = Some c" and "is_stopped c" and "exited s + n = workers s"
  shows "\<exists>t. steps (service_step E H) s (n + 1) t \<and> phase t = Leaving \<and> ioc t = None"
  using assms
proof (induction n arbitrary: s)
  case 0
  then have "service_step E H s All_joined (reset_ioc s)" by (auto intro: all_joined)
  then show ?case
    by (intro exI [of _ "reset_ioc s"]) (auto intro: steps_none steps_more simp: reset_ioc_def)
next
  case (Suc n)
  let ?t = "s\<lparr>exited := exited s + 1\<rparr>"
  have step: "service_step E H s Worker_returns ?t"
    using Suc.prems by (intro worker_returns) (auto simp: may_return_def)
  from Suc.IH [of ?t] Suc.prems obtain t where
    "steps (service_step E H) ?t (n + 1) t" "phase t = Leaving" "ioc t = None"
    by auto
  with step show ?case by (auto intro: steps_more)
qed

text \<open>
  C26: A stopped service winds down.  From every reachable state in which the caller of \<open>start\<close> is in
  \<open>run()\<close> and the service is not running any more, the workers can return, the caller can join
  them and release the context: in exactly one step for each worker still in \<open>run()\<close> and two for
  the caller.
\<close>

theorem stopped_service_winds_down:
  assumes "reach constructed (service_step E H) s" and "phase s = In_run" and "\<not> running s"
  shows "\<exists>t. steps (service_step E H) s (workers s - exited s + 2) t \<and> phase t = Leaving \<and> ioc t = None"
proof -
  let ?s = "s\<lparr>phase := Joining\<rparr>"
  from service.inv_reach [OF assms(1)] assms(2,3) obtain c where c: "ioc s = Some c" "is_stopped c"
    and n: "exited s \<le> workers s"
    by (auto simp: service_inv_def running_def)
  then have step: "service_step E H s Main_returns ?s"
    using assms(2) by (intro main_returns) (auto simp: may_return_def)
  from workers_wind_down [of ?s c "workers s - exited s" E H] c n obtain t where
    "steps (service_step E H) ?s (workers s - exited s + 1) t" "phase t = Leaving" "ioc t = None"
    by auto
  with step show ?thesis by (auto intro: steps_more)
qed

theorem stopped_service_winds_down_witness:
  "\<exists>s t. stop started_service = Inr s \<and> steps (service_step sample_env sample_host) s 3 t \<and> ioc t = None"
proof -
  obtain c where c: "ioc started_service = Some c" using started_service_simps(4) by blast
  define s where "s = started_service\<lparr>ioc := Some (c\<lparr>is_stopped := True\<rparr>)\<rparr>"
  have stop: "stop started_service = Inr s" by (simp add: stop_def c s_def)
  with started_service_reach have "reach constructed (service_step sample_env sample_host) s"
    by (blast intro: reach_step stop_called)
  from stopped_service_winds_down [OF this] obtain t where
    "steps (service_step sample_env sample_host) s 3 t" "ioc t = None"
    by (auto simp: s_def started_service_simps running_def eval_nat_numeral)
  with stop show ?thesis by blast
qed

text \<open>
  C29: Starting fails safely only if it is running.  A call of \<open>start\<close> while the context exists returns
  a failure and changes nothing; but if the configured address is malformed the call throws and
  leaves a context behind, so that the service then reports that it is running, and every later
  call of \<open>start\<close> returns a failure without serving anything.
\<close>

theorem start_outcomes:
  "(ioc s \<noteq> None \<longrightarrow> start B H s = (Returned exit_failure, s)) \<and>
   (ioc s = None \<and> make_address H (c_str (interface_address (svc_settings s))) = None \<longrightarrow>
     (\<exists>t. start B H s = (Threw, t) \<and> running t \<and> phase t = phase s \<and>
          start B H t = (Returned exit_failure, t))) \<and>
   (ioc s = None \<and> make_address H (c_str (interface_address (svc_settings s))) \<noteq> None \<longrightarrow>
     fst (start B H s) = Blocked \<and> running (snd (start B H s)))"
  by (auto simp: start_def running_def Let_def)

theorem start_outcomes_witness:
  "\<exists>t. start (lib sample_env) sample_host
      (new_service (sample_settings\<lparr>interface_address := ''localhost''\<rparr>)) = (Threw, t) \<and> running t"
  using start_outcomes [of "new_service (sample_settings\<lparr>interface_address := ''localhost''\<rparr>)"
      "lib sample_env" sample_host]
  by (auto simp: new_service_def sample_host_def c_str_def)

text \<open>A state in which the service has been stopped and its threads joined.\<close>

lemma finished_service:
  "\<exists>t. reach constructed (service_step sample_env sample_host) t \<and> phase t = Leaving"
proof -
  obtain c where c: "ioc started_service = Some c" using started_service_simps(4) by blast
  define s where "s = started_service\<lparr>ioc := Some (c\<lparr>is_stopped := True\<rparr>)\<rparr>"
  have "stop started_service = Inr s" by (simp add: stop_def c s_def)
  with started_service_reach have s: "reach constructed (service_step sample_env sample_host) s"
    by (blast intro: reach_step stop_called)
  have "service_step sample_env sample_host s Main_returns (s\<lparr>phase := Joining\<rparr>)"
    by (intro main_returns) (simp_all add: s_def may_return_def started_service_simps)
  with s have r: "reach constructed (service_step sample_env sample_host) (s\<lparr>phase := Joining\<rparr>)"
    by (rule reach_step)
  have "\<exists>t. steps (service_step sample_env sample_host) (s\<lparr>phase := Joining\<rparr>) (1 + 1) t \<and>
      phase t = Leaving \<and> ioc t = None"
    by (rule workers_wind_down [of _ "c\<lparr>is_stopped := True\<rparr>"])
       (simp_all add: s_def started_service_simps)
  with r show ?thesis by (blast intro: steps_reach)
qed

text \<open>
  C27: The ends of \<open>start\<close> and \<open>stop\<close> are not safe.  \<open>stop\<close> is undefined on a new service, and on every
  reachable one whose threads have been joined, where moreover the signal set that \<open>start\<close> is
  about to destroy refers to a context that is gone; while \<open>start\<close> is running its threads or
  joining them, \<open>stop\<close> is defined and the service is no longer running afterwards.
\<close>

theorem service_undefined:
  assumes "reach constructed (service_step E H) s"
  shows "stop (new_service cfg) = Inl Null_io_context \<and>
    (phase s = Leaving \<longrightarrow> stop s = Inl Null_io_context \<and> leave_start s = Inl Dangling_io_context) \<and>
    (phase s = In_run \<or> phase s = Joining \<longrightarrow> (\<exists>t. stop s = Inr t \<and> \<not> running t))"
  using service.inv_reach [OF assms]
  by (auto simp: service_inv_def stop_def leave_start_def running_def new_service_def)

theorem service_undefined_witness:
  "stop (new_service sample_settings) = Inl Null_io_context \<and>
   (\<exists>t. reach constructed (service_step sample_env sample_host) t \<and> phase t = Leaving \<and>
      leave_start t = Inl Dangling_io_context) \<and>
   (\<exists>t. stop started_service = Inr t \<and> \<not> running t)"
proof -
  obtain t where "reach constructed (service_step sample_env sample_host) t" "phase t = Leaving"
    using finished_service by blast
  with service_undefined [OF this(1), of sample_settings]
    service_undefined [OF started_service_reach, of sample_settings]
  show ?thesis by (auto simp: started_service_simps)
qed

section \<open>The service as a whole\<close>

text \<open>The connections that the service has accepted since it was started.\<close>

definition service_connections :: "service \<Rightarrow> connection list" where
  "service_connections s = (case ioc s of None \<Rightarrow> []
     | Some c \<Rightarrow> (case server c of None \<Rightarrow> [] | Some l \<Rightarrow> connections l))"

lemma service_connection_reach:
  assumes "service_inv E s" and "c \<in> set (service_connections s)"
  shows "\<exists>n a cfg root. conn_reach E n a cfg root c"
proof -
  from assms obtain l where "c \<in> set (connections l)"
    and "reach (listening (lib E)) (listener_step E) l"
    by (auto simp: service_inv_def service_connections_def serving_def
        split: option.splits start_phase.splits)
  from this(1) listener.inv_reach [OF this(2)] show ?thesis unfolding listener_inv_def by blast
qed

lemma service_connection_safe:
  assumes "service_inv E s" and "c \<in> set (service_connections s)"
  shows "length (conn_sockets c) \<le> 1 \<and> streams_typed c \<and>
    (case session c of None \<Rightarrow> websocket c = None
     | Some (k, s) \<Rightarrow> started s = [] \<and>
         (case websocket c of None \<Rightarrow> True | Some w \<Rightarrow> echoed w = received w))"
proof -
  obtain n a cfg root where r: "conn_reach E n a cfg root c"
    using service_connection_reach [OF assms] by blast
  note inv = connection.inv_reach [OF r]
  have "case session c of None \<Rightarrow> websocket c = None
     | Some (k, s) \<Rightarrow> started s = [] \<and> (case websocket c of None \<Rightarrow> True | Some w \<Rightarrow> echoed w = received w)"
  proof (cases "session c")
    case None
    with inv show ?thesis by (auto simp: connection_inv_def split: option.splits)
  next
    case (Some ks)
    then obtain k s where ks: "session c = Some (k, s)" by (cases ks) auto
    note o = conn_reach_session(3) [OF r ks]
    with ks owner_idle(2) [OF o] owner_websocket(4) [of E n a k s] show ?thesis
      by (auto split: option.splits)
  qed
  with conn_inv_sockets [OF inv] show ?thesis by simp
qed

text \<open>
  C8: What the service does to its connections.  In every reachable state of the service, for every
  connection it has accepted: the socket is owned by at most one object and its streams have the
  right types; the HTTP session has started no response, because its settings are gone; and the
  WebSocket session, if there is one, has echoed exactly what it has received.
\<close>

theorem service_connections_safe:
  assumes "reach constructed (service_step E H) s" and "c \<in> set (service_connections s)"
  shows "length (conn_sockets c) \<le> 1 \<and> streams_typed c \<and>
    (case session c of None \<Rightarrow> websocket c = None
     | Some (k, s) \<Rightarrow> started s = [] \<and>
         (case websocket c of None \<Rightarrow> True | Some w \<Rightarrow> echoed w = received w))"
  by (rule service_connection_safe [OF service.inv_reach [OF assms(1)] assms(2)])

theorem service_connections_safe_witness:
  "\<exists>s c. reach constructed (service_step sample_env sample_host) s \<and>
     service_connections s = [c] \<and> length (conn_sockets c) \<le> 1 \<and> streams_typed c"
proof -
  obtain d where d: "ioc started_service = Some d" "\<not> is_stopped d" using started_service_simps(4) by blast
  have run: "in_run started_service" by (simp add: in_run_def started_service_simps)
  from d(1) obtain l where l: "server d = Some l" "accepts l = 1" "connections l = []"
    by (auto simp: started_service_def start_def new_service_def sample_host_def sample_settings_def
        c_str_def listener_run_def l_do_accept_def new_listener_def acceptor_call_def l_fail_def Let_def)
  define l' where "l' = l_on_accept (lib sample_env) No_error 3 7 (l\<lparr>accepts := accepts l - 1\<rparr>)"
  define s where "s = started_service\<lparr>ioc := Some (d\<lparr>server := Some l'\<rparr>)\<rparr>"
  have "listener_step sample_env l (Accept_done No_error 3 7) l'"
    unfolding l'_def by (rule accept_enabled) (simp add: l)
  with d l(1) run have "service_step sample_env sample_host started_service
      (Accept_event (Accept_done No_error 3 7)) s"
    unfolding s_def by (intro accept_event)
  with started_service_reach have r: "reach constructed (service_step sample_env sample_host) s"
    by (rule reach_step)
  obtain c where c: "service_connections s = [c]"
    by (simp add: s_def service_connections_def l'_def l_on_accept_def l_do_accept_def l)
  with service_connections_safe [OF r, of c] r show ?thesis by auto
qed

end
