(* ===== verification/Concurrent_Service.thy ===== *)
theory Concurrent_Service
  imports Executor Service
begin

text \<open>
  The service with handlers that take time.  In the theory \<open>Service\<close> a handler of the context is one
  step, and none runs any more once the context has been stopped.  In the code the threads of the
  service are in handlers at the same time, and a call of \<open>stop\<close> does not interrupt them: they end
  later, before their threads leave \<open>run()\<close>.  The result is that the service behaves as if each
  handler took effect at once when a thread begins it.
\<close>

section \<open>State and steps\<close>

record conc_service =
  svc :: service
  working :: "work list"                \<comment> \<open>the handlers that threads are in\<close>

abbreviation work_strands :: "work list \<Rightarrow> strand list" where
  "work_strands ws \<equiv> map (strand_of \<circ> event_of) ws"







section \<open>Handlers commute\<close>

definition commit_all :: "work list \<Rightarrow> listener \<Rightarrow> listener" where
  "commit_all ws l = fold commit ws l"

lemma commit_all_simps [simp]:
  "commit_all [] l = l" "commit_all (w # ws) l = commit_all ws (commit w l)"
  "commit_all (ws @ vs) l = commit_all vs (commit_all ws l)"
  by (simp_all add: commit_all_def)

text \<open>Handlers that are under way at once: on different strands, and begun on the same listener.\<close>

definition together :: "env \<Rightarrow> listener \<Rightarrow> work list \<Rightarrow> bool" where
  "together E l ws \<longleftrightarrow> distinct (work_strands ws) \<and> (\<forall>w \<in> set ws. begins E l w)"

lemma together_simps [simp]:
  "together E l []"
  "together E l (w # ws) \<longleftrightarrow>
     begins E l w \<and> strand_of (event_of w) \<notin> set (work_strands ws) \<and> together E l ws"
  by (auto simp: together_def)







section \<open>The service sees each handler at its beginning\<close>

definition settle_context :: "work list \<Rightarrow> io_context \<Rightarrow> io_context" where
  "settle_context ws c = c\<lparr>server := map_option (commit_all ws) (server c)\<rparr>"

definition settle :: "conc_service \<Rightarrow> service" where
  "settle p = (svc p)\<lparr>ioc := map_option (settle_context (working p)) (ioc (svc p))\<rparr>"

lemma settle_frame [simp]:
  "svc_settings (settle p) = svc_settings (svc p)" "phase (settle p) = phase (svc p)"
  "workers (settle p) = workers (svc p)" "exited (settle p) = exited (svc p)"
  "in_run (settle p) = in_run (svc p)"
  "is_stopped (settle_context ws c) = is_stopped c"
  "signal_waits (settle_context ws c) = signal_waits c"
  by (simp_all add: settle_def settle_context_def in_run_def)

lemma settle_context_idle [simp]: "settle_context [] c = c"
  by (cases "server c") (simp_all add: settle_context_def)

lemma settle_idle [simp]: "working p = [] \<Longrightarrow> settle p = svc p"
  by (cases "ioc (svc p)") (simp_all add: settle_def)










section \<open>Property\<close>



end
