(* ===== verification/Service_Calls.thy ===== *)
theory Service_Calls
  imports Service
begin

text \<open>
  Calls of the service's member functions from another thread, which nothing synchronizes with the
  thread that is in \<open>start\<close>.  A call of \<open>running()\<close> looks at \<open>_ioc\<close> twice; between the two anything can
  happen to the service.  The two accesses themselves are taken to be atomic, which is more than the
  language promises.
\<close>

section \<open>The two halves of \<open>running()\<close>\<close>

definition running_test :: "service \<Rightarrow> bool" where
  "running_test s \<longleftrightarrow> ioc s \<noteq> None"

definition running_deref :: "service \<Rightarrow> ub + bool" where
  "running_deref s = (case ioc s of None \<Rightarrow> Inl Null_io_context | Some c \<Rightarrow> Inr (\<not> is_stopped c))"

lemma running_halves:
  "(if running_test s then running_deref s else Inr False) = Inr (running s)"
  by (auto simp: running_def running_test_def running_deref_def split: option.split)

section \<open>A caller beside the service\<close>

text \<open>Where the caller is: not in \<open>running()\<close>, or between the test and the use of the pointer.\<close>

datatype caller = Outside | Tested

record observed_service =
  observed :: service
  caller :: caller
  answers :: "bool list"                \<comment> \<open>history: what \<open>running()\<close> has returned\<close>

datatype call_event = Service_event service_event | Test_pointer | Use_pointer

inductive call_step :: "env \<Rightarrow> host \<Rightarrow> observed_service \<Rightarrow> call_event \<Rightarrow> observed_service \<Rightarrow> bool" for E H where
  service_event: "service_step E H (observed p) e s \<Longrightarrow> q = p\<lparr>observed := s\<rparr> \<Longrightarrow>
     call_step E H p (Service_event e) q"
| test_pointer: "caller p = Outside \<Longrightarrow>
     q = (if running_test (observed p) then p\<lparr>caller := Tested\<rparr> else p\<lparr>answers := answers p @ [False]\<rparr>) \<Longrightarrow>
     call_step E H p Test_pointer q"
| use_pointer: "caller p = Tested \<Longrightarrow> running_deref (observed p) = Inr b \<Longrightarrow>
     q = p\<lparr>caller := Outside, answers := answers p @ [b]\<rparr> \<Longrightarrow> call_step E H p Use_pointer q"

definition call_started :: "observed_service \<Rightarrow> bool" where
  "call_started p \<longleftrightarrow> constructed (observed p) \<and> caller p = Outside \<and> answers p = []"

definition call_inv :: "env \<Rightarrow> observed_service \<Rightarrow> bool" where
  "call_inv E p \<longleftrightarrow> service_inv E (observed p) \<and>
     (caller p = Tested \<and> ioc (observed p) = None \<longrightarrow> phase (observed p) = Leaving)"

text \<open>Only the end of \<open>start\<close> takes the context away.\<close>

lemma context_gone:
  assumes "service_step E H s e t" and "ioc t = None"
  shows "ioc s = None \<and> phase t = phase s \<or> phase t = Leaving"
  using assms
  by cases (auto simp: start_def stop_def on_signal_def reset_ioc_def may_return_def Let_def
      split: if_splits option.splits)

lemma call_step_inv:
  assumes "call_step E H p ev q" and "call_inv E p"
  shows "call_inv E q"
  using assms(1)
proof cases
  case (service_event e s)
  with assms(2) service_step_inv [OF service_event(2)] context_gone [OF service_event(2)] show ?thesis
    by (auto simp: call_inv_def)
qed (use assms(2) in \<open>auto simp: call_inv_def running_test_def\<close>)

interpretation calls: invariant_of call_started "call_step E H" "call_inv E" for E H
proof unfold_locales
  show "call_started p \<Longrightarrow> call_inv E p" for p
    by (auto simp: call_started_def call_inv_def intro: constructed_inv)
qed (rule call_step_inv)

section \<open>Property\<close>

text \<open>
  C28: \<open>running()\<close> is safe until \<open>start\<close> ends, and not then.  Without interruption its two halves are
  the one operation.  In every reachable state of a service and a caller that has found the
  pointer set, using it is undefined exactly if the thread in \<open>start\<close> has meanwhile released the
  context; and from every state in which that thread has joined the workers, a caller that asks now
  can be overtaken so.
\<close>

theorem running_races:
  assumes "reach call_started (call_step E H) p"
  shows "(if running_test (observed p) then running_deref (observed p) else Inr False) = Inr (running (observed p)) \<and>
    (caller p = Tested \<longrightarrow> (running_deref (observed p) = Inl Null_io_context) = (phase (observed p) = Leaving)) \<and>
    (caller p = Outside \<and> phase (observed p) = Joining \<and> exited (observed p) = workers (observed p) \<longrightarrow>
       (\<exists>q r. call_step E H p Test_pointer q \<and> call_step E H q (Service_event All_joined) r \<and>
          caller r = Tested \<and> running_deref (observed r) = Inl Null_io_context))"
proof (intro conjI impI)
  note inv = calls.inv_reach [OF assms]
  show "(if running_test (observed p) then running_deref (observed p) else Inr False) = Inr (running (observed p))"
    by (rule running_halves)
  show "(running_deref (observed p) = Inl Null_io_context) = (phase (observed p) = Leaving)" if "caller p = Tested"
    using inv that by (auto simp: call_inv_def service_inv_def running_deref_def split: option.splits)
  assume at: "caller p = Outside \<and> phase (observed p) = Joining \<and> exited (observed p) = workers (observed p)"
  let ?q = "p\<lparr>caller := Tested\<rparr>" and ?s = "reset_ioc (observed p)"
  have "running_test (observed p)"
    using inv at by (auto simp: call_inv_def service_inv_def running_test_def)
  then have "call_step E H p Test_pointer ?q" using at by (intro test_pointer) simp_all
  moreover have "call_step E H ?q (Service_event All_joined) (?q\<lparr>observed := ?s\<rparr>)"
    using all_joined [of "observed p" E H] at by (intro service_event [of _ _ _ _ ?s]) simp_all
  moreover have "caller (?q\<lparr>observed := ?s\<rparr>) = Tested \<and>
      running_deref (observed (?q\<lparr>observed := ?s\<rparr>)) = Inl Null_io_context"
    by (simp add: reset_ioc_def running_deref_def)
  ultimately show "\<exists>q r. call_step E H p Test_pointer q \<and> call_step E H q (Service_event All_joined) r \<and>
          caller r = Tested \<and> running_deref (observed r) = Inl Null_io_context"
    by blast
qed

lemma service_run_observed:
  assumes "steps (service_step E H) s n t" and "reach call_started (call_step E H) p" and "observed p = s"
  shows "\<exists>q. reach call_started (call_step E H) q \<and> observed q = t \<and> caller q = caller p"
  using assms
proof (induction arbitrary: p rule: steps.induct)
  case (steps_more s e t n u)
  have "call_step E H p (Service_event e) (p\<lparr>observed := t\<rparr>)"
    using steps_more.hyps(1) steps_more.prems(2) by (intro service_event) simp_all
  with steps_more.prems(1) have "reach call_started (call_step E H) (p\<lparr>observed := t\<rparr>)" by (rule reach_step)
  with steps_more.IH show ?case by fastforce
qed auto

text \<open>Started with two threads, stopped, and left by both.\<close>

lemma joined_service:
  "\<exists>s. steps (service_step sample_env sample_host) (new_service sample_settings) 4 s \<and>
     phase s = Joining \<and> exited s = workers s"
proof -
  let ?step = "service_step sample_env sample_host"
  obtain c where c: "ioc started_service = Some c" using started_service_simps(4) by blast
  define s where "s = started_service\<lparr>ioc := Some (c\<lparr>is_stopped := True\<rparr>)\<rparr>"
  have s: "may_return s" "phase s = In_run" "exited s = 0" "workers s = 1"
    by (simp_all add: s_def may_return_def started_service_simps)
  have "?step started_service Stop_called s" by (rule stop_called) (simp add: stop_def c s_def)
  moreover have "?step s Main_returns (s\<lparr>phase := Joining\<rparr>)" using s by (intro main_returns)
  moreover have "?step (s\<lparr>phase := Joining\<rparr>) Worker_returns (s\<lparr>phase := Joining, exited := 1\<rparr>)"
    using worker_returns [of "s\<lparr>phase := Joining\<rparr>" sample_env sample_host] s by (simp add: may_return_def)
  ultimately have "steps ?step (new_service sample_settings) (Suc (Suc (Suc (Suc 0)))) (s\<lparr>phase := Joining, exited := 1\<rparr>)"
    using started_service_step by (blast intro: steps.intros)
  then show ?thesis using s by (intro exI [of _ "s\<lparr>phase := Joining, exited := 1\<rparr>"]) (simp add: eval_nat_numeral)
qed

theorem running_races_witness:
  "\<exists>p q r. reach call_started (call_step sample_env sample_host) p \<and> phase (observed p) = Joining \<and>
     call_step sample_env sample_host p Test_pointer q \<and>
     call_step sample_env sample_host q (Service_event All_joined) r \<and>
     running_deref (observed r) = Inl Null_io_context"
proof -
  let ?R = "reach call_started (call_step sample_env sample_host)"
  obtain s where s: "steps (service_step sample_env sample_host) (new_service sample_settings) 4 s"
    "phase s = Joining" "exited s = workers s"
    using joined_service by blast
  have "?R \<lparr>observed = new_service sample_settings, caller = Outside, answers = []\<rparr>"
    by (rule reach_init) (auto simp: call_started_def constructed_def)
  from service_run_observed [OF s(1) this] obtain p where p: "?R p" "observed p = s" "caller p = Outside"
    by auto
  with running_races [OF p(1)] s(2,3) show ?thesis by blast
qed

end
