(* ===== verification/Websocket_Props.thy ===== *)
theory Websocket_Props
  imports Websocket_Session Scenarios
begin

text \<open>
  The properties of a WebSocket session over all runs of its events.
\<close>

section \<open>Properties\<close>

definition sample_ws :: ws_session where
  "sample_ws = make_websocket_session (ref_beast sample_files) (Tls 3) (sample_request ''/chat'' True True)"

lemma sample_ws_reach:
  assumes "run_events (ws_next (ref_beast sample_files)) sample_ws es = Some w"
  shows "ws_reach (ref_beast sample_files) w"
proof (rule run_events_reach [OF _ _ assms])
  show "ws_reach (ref_beast sample_files) sample_ws"
    unfolding sample_ws_def by (rule reach_init) simp
qed (simp add: ws_next_step)

lemmas ws_run_simps = sample_ws_def ws_start_defs

text \<open>
  Every message is echoed, unchanged and in order.  In every reachable state of a WebSocket
  session the messages whose write has been started are exactly the messages that have been read,
  each once, with the same payload and the same text or binary type.
\<close>

theorem websocket_echoes:
  assumes "ws_reach B w"
  shows "echoed w = received w"
  using ws.inv_reach [OF assms] by (simp add: ws_inv_def)

theorem websocket_echoes_witness:
  "\<exists>w. run_events (ws_next (ref_beast sample_files)) sample_ws
      [Ws_accept_done No_error, Ws_read_done No_error True ''ab'', Ws_write_done No_error,
       Ws_read_done No_error False ''c''] = Some w \<and>
     echoed w = [(True, ''ab''), (False, ''c'')]"
proof -
  obtain w where run: "run_events (ws_next (ref_beast sample_files)) sample_ws
      [Ws_accept_done No_error, Ws_read_done No_error True ''ab'', Ws_write_done No_error,
       Ws_read_done No_error False ''c''] = Some w"
    and w: "received w = [(True, ''ab''), (False, ''c'')]"
    by (simp add: ws_run_simps op_defs)
  with websocket_echoes [OF sample_ws_reach [OF run]] show ?thesis by auto
qed

text \<open>
  One thing at a time.  Until the session ends exactly one operation is outstanding, afterwards
  none; a message is only read into an empty buffer, and while it is written back the buffer holds
  exactly that message.
\<close>

theorem websocket_half_duplex:
  assumes "ws_reach B w"
  shows "ws_accepts w + ws_reads w + ws_writes w = (if ws_ended w then 0 else 1) \<and>
    (ws_reads w = 1 \<longrightarrow> ws_buffer w = '''') \<and>
    (ws_writes w = 1 \<longrightarrow> received w \<noteq> [] \<and> ws_buffer w = snd (last (received w)))"
  using ws.inv_reach [OF assms] by (simp add: ws_inv_def)

theorem websocket_half_duplex_witness:
  "\<exists>w. run_events (ws_next (ref_beast sample_files)) sample_ws
      [Ws_accept_done No_error, Ws_read_done No_error True ''ab'', Ws_write_done No_error,
       Ws_read_done Ws_closed False ''''] = Some w \<and> ws_ended w \<and> ws_reads w = 0 \<and> ws_writes w = 0"
proof -
  obtain w where run: "run_events (ws_next (ref_beast sample_files)) sample_ws
      [Ws_accept_done No_error, Ws_read_done No_error True ''ab'', Ws_write_done No_error,
       Ws_read_done Ws_closed False ''''] = Some w"
    and w: "ws_ended w"
    by (simp add: ws_run_simps op_defs ws_ended_def)
  with websocket_half_duplex [OF sample_ws_reach [OF run]] show ?thesis by auto
qed

text \<open>
  C17: A WebSocket session implements the echo server.  The abstraction of every reachable state is
  reachable in the specification that alternates between waiting for a message and echoing it; the
  messages echoed are exactly those received, unchanged and in order; and each event is the step of the specification that bears its name: a message that arrives is what
  is being echoed next, and an error or a close ends the session for good.
\<close>

theorem websocket_refines_echo:
  assumes "ws_reach B w"
  shows "reach (\<lambda>x. x = Handshaking) echo_step (abs_ws w) \<and> echoed w = received w \<and>
    (\<forall>e w'. ws_step B w e w' \<longrightarrow> echo_step (abs_ws w) (echo_of e) (abs_ws w'))"
  using ws_sim.refines_reach [OF assms] ws_step_echo ws.inv_reach [OF assms] by (auto simp: ws_inv_def)

theorem websocket_refines_echo_witness:
  "\<exists>w w'. run_events (ws_next (ref_beast sample_files)) sample_ws [Ws_accept_done No_error] = Some w \<and>
     ws_step (ref_beast sample_files) w (Ws_read_done No_error True ''ab'') w' \<and>
     abs_ws w' = Echoing (True, ''ab'')"
proof -
  obtain w where run: "run_events (ws_next (ref_beast sample_files)) sample_ws [Ws_accept_done No_error] = Some w"
    and w: "ws_reads w = 1"
    by (simp add: ws_run_simps op_defs)
  from w have "ws_step (ref_beast sample_files) w (Ws_read_done No_error True ''ab'')
      (ws_on_read (ref_beast sample_files) No_error True (ws_finish_read No_error True ''ab'' w))"
    by (intro ws_read_step) simp
  with run websocket_refines_echo [OF sample_ws_reach [OF run]] show ?thesis by fastforce
qed

end
