(* ===== verification/Client_Settings.thy ===== *)
theory Client_Settings
  imports Settings
begin

text \<open>
  The struct \<open>settings\<close> of \<open>src/c++/systemicai/http/client/settings.h\<close>.  It has the server's
  members but the document root and the version, and a limit of its own; reading and writing
  leave out the interface and that limit.
\<close>

record client_settings =
  c_interface_address :: string
  c_interface_port :: u16
  c_log_level :: string
  c_ssl_certificate :: string
  c_ssl_key :: string
  c_ssl_dh :: string
  c_thread_io :: u32
  c_timeout_header :: u64
  c_timeout_get :: u64
  c_timeout_put :: u64
  c_timeout_post :: u64
  limit_history :: u64

definition client_load :: "'t ptree_api \<Rightarrow> lexical \<Rightarrow> 't \<Rightarrow> client_settings \<Rightarrow> client_settings" where
  "client_load P L tr s0 = (
     let s = s0\<lparr>c_log_level := get_or P Some tr ''service.log.level'' ''info''\<rparr>;
         s = s\<lparr>c_log_level := to_lower L (c_log_level s)\<rparr>;
         s = s\<lparr>c_ssl_certificate := get_or P Some tr ''service.ssl.certificate'' ''cfg/dumb.cert''\<rparr>;
         s = s\<lparr>c_ssl_key := get_or P Some tr ''service.ssl.key'' ''cfg/dumb.key''\<rparr>;
         s = s\<lparr>c_ssl_dh := get_or P Some tr ''service.ssl.dh'' ''cfg/dumb.dh''\<rparr>;
         s = s\<lparr>c_thread_io := get_or P (read_i32 L) tr ''service.thread.io'' 1\<rparr>;
         s = s\<lparr>c_timeout_header := scast (get_or P (read_i32 L) tr ''service.timeout.header'' 5)\<rparr>;
         s = s\<lparr>c_timeout_get := get_or P (read_u64 L) tr ''service.timeout.get'' 300\<rparr>;
         s = s\<lparr>c_timeout_put := get_or P (read_u64 L) tr ''service.timeout.put'' 300\<rparr>
     in s\<lparr>c_timeout_post := get_or P (read_u64 L) tr ''service.timeout.post'' 300\<rparr>)"

definition client_to_ptree :: "'t ptree_api \<Rightarrow> lexical \<Rightarrow> client_settings \<Rightarrow> 't" where
  "client_to_ptree P L s = (
     let tr = pt_empty P;
         tr = pt_put P tr ''service.log.level'' (c_log_level s);
         tr = pt_put P tr ''service.ssl.certificate'' (c_ssl_certificate s);
         tr = pt_put P tr ''service.ssl.key'' (c_ssl_key s);
         tr = pt_put P tr ''service.ssl.dh'' (c_ssl_dh s);
         tr = pt_put P tr ''service.thread.io'' (show_i32 L (c_thread_io s));
         tr = pt_put P tr ''service.timeout.header'' (show_u64 L (c_timeout_header s));
         tr = pt_put P tr ''service.timeout.get'' (show_u64 L (c_timeout_get s));
         tr = pt_put P tr ''service.timeout.put'' (show_u64 L (c_timeout_put s))
     in pt_put P tr ''service.timeout.post'' (show_u64 L (c_timeout_post s)))"

text \<open>
  The default constructor leaves the members as they are, the other one loads into them; the
  initial memory is an argument.
\<close>

definition new_client_settings :: "'t ptree_api \<Rightarrow> lexical \<Rightarrow> client_settings \<Rightarrow> 't \<Rightarrow> client_settings" where
  "new_client_settings P L uninitialised tr = client_load P L tr uninitialised"

end
