(* ===== verification/Settings_Props.thy ===== *)
theory Settings_Props
  imports Client_Settings Reference_Tree
begin

text \<open>
  The properties of the settings of the server and of the client: what is read does not depend on
  what was there before, what an empty tree means, what survives being written and read back, and
  what the type of the default does to \<open>timeout_header\<close>.
\<close>

section \<open>The server\<close>

definition default_settings :: settings where
  "default_settings = \<lparr>interface_address = ''127.0.0.1'', interface_port = 8080,
     document_root = ''html'', log_level = ''info'', service_version = ''alpha'',
     ssl_certificate = ''cfg/dumb.cert'', ssl_key = ''cfg/dumb.key'', ssl_dh = ''cfg/dumb.dh'',
     thread_io = 1, timeout_header = 5, timeout_get = 300, timeout_put = 300, timeout_post = 300\<rparr>"

text \<open>
  C38: Settings survive being written and read back.  Reading what was written gives the same
  settings, whatever members were there before, except that the log level is lower-cased and that a
  header timeout of \<open>2 ^ 31\<close> or more is replaced by the default; reading always gives a lower-case
  level, so a second round changes nothing.
\<close>

theorem settings_roundtrip:
  assumes "ptree_law P" and "lexical_law L"
  shows "load P L (to_ptree P L s) s0 =
      s\<lparr>log_level := to_lower L (log_level s),
        timeout_header := if unat (timeout_header s) < 2 ^ 31 then timeout_header s else 5\<rparr> \<and>
    load P L (to_ptree P L (load P L (to_ptree P L s) s0)) s0 = load P L (to_ptree P L s) s0"
proof -
  have "to_lower L (to_lower L x) = to_lower L x" for x
    using assms(2) by (simp add: lexical_law_def)
  then show ?thesis by (simp add: load_to_ptree [OF assms])
qed

theorem settings_roundtrip_witness:
  "load ref_tree ref_lexical
     (to_ptree ref_tree ref_lexical (default_settings\<lparr>log_level := ''TRACE'', thread_io := -1,
        timeout_header := 2 ^ 31\<rparr>)) default_settings =
   default_settings\<lparr>log_level := ''trace'', thread_io := -1, timeout_header := 5\<rparr>"
proof -
  have "to_lower ref_lexical ''TRACE'' = ''trace''" by code_simp
  with settings_roundtrip [OF ref_tree_law ref_lexical_law]
  show ?thesis by (simp add: default_settings_def)
qed

text \<open>
  Every member is read or defaulted.  Loading gives the same settings whatever the members held
  before, indeterminate values included, and the empty tree of the default constructor gives the
  documented defaults.
\<close>

theorem settings_defaults:
  assumes "ptree_law P" and "to_lower L ''info'' = ''info''"
  shows "new_settings P L uninitialised (pt_empty P) = default_settings \<and>
    load P L tr s = load P L tr s'"
proof
  show "new_settings P L uninitialised (pt_empty P) = default_settings"
    using assms by (simp add: new_settings_def load_def default_settings_def Let_def)
  show "load P L tr s = load P L tr s'" by (rule load_forgets)
qed

theorem settings_defaults_witness:
  "new_settings ref_tree ref_lexical (default_settings\<lparr>thread_io := 99\<rparr>) (pt_empty ref_tree) =
     default_settings"
  by (rule settings_defaults [OF ref_tree_law, THEN conjunct1]) code_simp



section \<open>The client\<close>

text \<open>
  C39: The client's settings are read in part.  Reading back what was written restores the log level,
  in lower case, the SSL files, the threads and the timeouts, with the same limit on the header
  timeout; the interface and the history limit are neither written nor read but keep the
  values they had.
\<close>

theorem client_settings_roundtrip:
  assumes "ptree_law P" and "lexical_law L"
  shows "client_load P L (client_to_ptree P L s) s0 =
    s\<lparr>c_interface_address := c_interface_address s0, c_interface_port := c_interface_port s0,
      limit_history := limit_history s0,
      c_log_level := to_lower L (c_log_level s),
      c_timeout_header := if unat (c_timeout_header s) < 2 ^ 31 then c_timeout_header s else 5\<rparr>"
proof -
  note conv = assms(2) [unfolded lexical_law_def]
  show ?thesis
    using conv scast_ucast_small [of "c_timeout_header s"]
    by (simp add: client_load_def client_to_ptree_def Let_def get_or_put assms(1))
qed

definition sample_client :: client_settings where
  "sample_client = \<lparr>c_interface_address = ''10.0.0.1'', c_interface_port = 443,
     c_log_level = ''info'', c_ssl_certificate = ''c'', c_ssl_key = ''k'', c_ssl_dh = ''d'',
     c_thread_io = 4, c_timeout_header = 7, c_timeout_get = 1, c_timeout_put = 2,
     c_timeout_post = 3, limit_history = 100\<rparr>"

theorem client_settings_roundtrip_witness:
  "client_load ref_tree ref_lexical (client_to_ptree ref_tree ref_lexical sample_client)
     (sample_client\<lparr>c_interface_port := 80, limit_history := 0, c_ssl_key := ''x''\<rparr>) =
   sample_client\<lparr>c_interface_port := 80, limit_history := 0\<rparr>"
proof -
  have "to_lower ref_lexical ''info'' = ''info''" by code_simp
  with client_settings_roundtrip [OF ref_tree_law ref_lexical_law]
  show ?thesis by (simp add: sample_client_def)
qed

end
