(* ===== verification/Client.thy ===== *)
theory Client
  imports Handlers
begin

text \<open>
  The client of \<open>src/c++/systemicai/http/client/api.hpp\<close>: an HTTPS GET as a chain of asynchronous
  operations.  The classes \<open>signing\<close>, \<open>master\<close> and \<open>child\<close> are copies of each other, up to white
  space and their names: a class is the table of its methods, and the three tables hold the
  same functions.  As in the server, an event completes an outstanding operation; the model allows any
  number of them.
\<close>

section \<open>State\<close>

datatype client_op =
    Resolve string string
  | Connect "string list"
  | Client_handshake
  | Write_request
  | Read_response
  | Close_stream

record client_request =
  cr_version :: u32
  cr_method :: verb
  cr_target :: string
  cr_host :: string
  cr_user_agent :: string

record client =
  sni :: "string option"
  req :: "client_request option"           \<comment> \<open>once \<open>run\<close> has filled it in\<close>
  pending :: "client_op list"              \<comment> \<open>outstanding operations\<close>
  client_ops :: "client_op list"           \<comment> \<open>history of operations\<close>
  client_cout :: "string list"
  client_cerr :: "string list"

definition new_client :: client where
  "new_client = \<lparr>sni = None, req = None, pending = [], client_ops = [], client_cout = [],
     client_cerr = []\<rparr>"

definition client_fail :: "beast_api \<Rightarrow> error_code \<Rightarrow> string \<Rightarrow> client \<Rightarrow> client" where
  "client_fail B ec what c =
     c\<lparr>client_cerr := client_cerr c @ [what @ '': '' @ api_message B ec @ [CHR 0x0A]]\<rparr>"

definition initiate :: "client_op \<Rightarrow> client \<Rightarrow> client" where
  "initiate x c = c\<lparr>pending := pending c @ [x], client_ops := client_ops c @ [x]\<rparr>"

section \<open>Operations\<close>

text \<open>
  \<open>sni_error\<close> is the answer of OpenSSL to the host name.
\<close>

definition client_run ::
    "beast_api \<Rightarrow> (string \<Rightarrow> error_code option) \<Rightarrow> string \<Rightarrow> string \<Rightarrow> string \<Rightarrow> u32 \<Rightarrow> client
       \<Rightarrow> client" where
  "client_run B sni_error host port tgt ver c =
     (case sni_error host of
        Some ec \<Rightarrow> c\<lparr>client_cerr := client_cerr c @ [api_message B ec @ [CHR 0x0A]]\<rparr>
      | None \<Rightarrow>
          let c = c\<lparr>sni := Some host\<rparr>;
              c = c\<lparr>req := Some \<lparr>cr_version = ver, cr_method = Verb_get, cr_target = tgt, cr_host = host,
                     cr_user_agent = api_version B\<rparr>\<rparr>
          in initiate (Resolve host port) c)"

definition client_on_resolve :: "beast_api \<Rightarrow> error_code \<Rightarrow> string list \<Rightarrow> client \<Rightarrow> client" where
  "client_on_resolve B ec results c =
     (if is_error ec then client_fail B ec ''resolve'' c else initiate (Connect results) c)"

definition client_on_connect :: "beast_api \<Rightarrow> error_code \<Rightarrow> client \<Rightarrow> client" where
  "client_on_connect B ec c =
     (if is_error ec then client_fail B ec ''connect'' c else initiate Client_handshake c)"

definition client_on_handshake :: "beast_api \<Rightarrow> error_code \<Rightarrow> client \<Rightarrow> client" where
  "client_on_handshake B ec c =
     (if is_error ec then client_fail B ec ''handshake'' c else initiate Write_request c)"

definition client_on_write :: "beast_api \<Rightarrow> error_code \<Rightarrow> client \<Rightarrow> client" where
  "client_on_write B ec c =
     (if is_error ec then client_fail B ec ''write'' c else initiate Read_response c)"

text \<open>The response is printed; \<open>res\<close> is its serialisation.\<close>

definition client_on_read :: "beast_api \<Rightarrow> error_code \<Rightarrow> string \<Rightarrow> client \<Rightarrow> client" where
  "client_on_read B ec res c =
     (if is_error ec then client_fail B ec ''read'' c
      else
        let c = c\<lparr>client_cout := client_cout c @ [res @ [CHR 0x0A]]\<rparr>
        in initiate Close_stream c)"

definition client_on_shutdown :: "beast_api \<Rightarrow> error_code \<Rightarrow> client \<Rightarrow> client" where
  "client_on_shutdown B ec c = (
     let ec = (if ec = Asio_eof then No_error else ec)
     in if is_error ec then client_fail B ec ''shutdown'' c else c)"

section \<open>The classes\<close>

record methods =
  m_run :: "beast_api \<Rightarrow> (string \<Rightarrow> error_code option) \<Rightarrow> string \<Rightarrow> string \<Rightarrow> string \<Rightarrow> u32 \<Rightarrow>
    client \<Rightarrow> client"
  m_on_resolve :: "beast_api \<Rightarrow> error_code \<Rightarrow> string list \<Rightarrow> client \<Rightarrow> client"
  m_on_connect :: "beast_api \<Rightarrow> error_code \<Rightarrow> client \<Rightarrow> client"
  m_on_handshake :: "beast_api \<Rightarrow> error_code \<Rightarrow> client \<Rightarrow> client"
  m_on_write :: "beast_api \<Rightarrow> error_code \<Rightarrow> client \<Rightarrow> client"
  m_on_read :: "beast_api \<Rightarrow> error_code \<Rightarrow> string \<Rightarrow> client \<Rightarrow> client"
  m_on_shutdown :: "beast_api \<Rightarrow> error_code \<Rightarrow> client \<Rightarrow> client"

definition signing :: methods where
  "signing = \<lparr>m_run = client_run, m_on_resolve = client_on_resolve, m_on_connect = client_on_connect,
     m_on_handshake = client_on_handshake, m_on_write = client_on_write, m_on_read = client_on_read,
     m_on_shutdown = client_on_shutdown\<rparr>"

definition master :: methods where
  "master = \<lparr>m_run = client_run, m_on_resolve = client_on_resolve, m_on_connect = client_on_connect,
     m_on_handshake = client_on_handshake, m_on_write = client_on_write, m_on_read = client_on_read,
     m_on_shutdown = client_on_shutdown\<rparr>"

definition child :: methods where
  "child = \<lparr>m_run = client_run, m_on_resolve = client_on_resolve, m_on_connect = client_on_connect,
     m_on_handshake = client_on_handshake, m_on_write = client_on_write, m_on_read = client_on_read,
     m_on_shutdown = client_on_shutdown\<rparr>"

datatype client_class = Signing | Master | Child

fun methods_of :: "client_class \<Rightarrow> methods" where
  "methods_of Signing = signing"
| "methods_of Master = master"
| "methods_of Child = child"

lemma methods_of_simps [simp]:
  "m_run (methods_of k) = client_run"
  "m_on_resolve (methods_of k) = client_on_resolve"
  "m_on_connect (methods_of k) = client_on_connect"
  "m_on_handshake (methods_of k) = client_on_handshake"
  "m_on_write (methods_of k) = client_on_write"
  "m_on_read (methods_of k) = client_on_read"
  "m_on_shutdown (methods_of k) = client_on_shutdown"
  by (cases k; simp add: signing_def master_def child_def)+

declare methods_of.simps [simp del]

section \<open>Events\<close>

datatype client_event =
    Resolved error_code "string list"
  | Connected error_code
  | Shaken error_code
  | Request_written error_code
  | Response_read error_code string
  | Stream_closed error_code

fun completes :: "client_event \<Rightarrow> client_op \<Rightarrow> bool" where
  "completes (Resolved ec results) (Resolve host port) = True"
| "completes (Connected ec) (Connect results) = True"
| "completes (Shaken ec) Client_handshake = True"
| "completes (Request_written ec) Write_request = True"
| "completes (Response_read ec res) Read_response = True"
| "completes (Stream_closed ec) Close_stream = True"
| "completes e x = False"

fun client_handle :: "client_class \<Rightarrow> beast_api \<Rightarrow> client_event \<Rightarrow> client \<Rightarrow> client" where
  "client_handle k B (Resolved ec results) c = m_on_resolve (methods_of k) B ec results c"
| "client_handle k B (Connected ec) c = m_on_connect (methods_of k) B ec c"
| "client_handle k B (Shaken ec) c = m_on_handshake (methods_of k) B ec c"
| "client_handle k B (Request_written ec) c = m_on_write (methods_of k) B ec c"
| "client_handle k B (Response_read ec res) c = m_on_read (methods_of k) B ec res c"
| "client_handle k B (Stream_closed ec) c = m_on_shutdown (methods_of k) B ec c"

inductive client_step :: "client_class \<Rightarrow> beast_api \<Rightarrow> client \<Rightarrow> client_event \<Rightarrow> client \<Rightarrow> bool" for k B where
  client_completes: "pending c = xs @ x # ys \<Longrightarrow> completes e x \<Longrightarrow>
     d = client_handle k B e (c\<lparr>pending := xs @ ys\<rparr>) \<Longrightarrow> client_step k B c e d"

definition client_started :: "client_class \<Rightarrow> beast_api \<Rightarrow> client \<Rightarrow> bool" where
  "client_started k B c \<longleftrightarrow> (\<exists>sni_error host port tgt ver.
     c = m_run (methods_of k) B sni_error host port tgt ver new_client)"

section \<open>The protocol\<close>

fun stage :: "client_op \<Rightarrow> nat" where
  "stage (Resolve host port) = 0"
| "stage (Connect results) = 1"
| "stage Client_handshake = 2"
| "stage Write_request = 3"
| "stage Read_response = 4"
| "stage Close_stream = 5"

text \<open>
  The operations are the first of the six, in order; the last of them is outstanding, or it has
  failed and that is the one report, or it was the sixth; the response was printed before the sixth.
\<close>

definition client_inv :: "client \<Rightarrow> bool" where
  "client_inv c \<longleftrightarrow>
     map stage (client_ops c) = [0..<length (client_ops c)] \<and>
     (pending c \<noteq> [] \<longrightarrow> client_ops c \<noteq> [] \<and> pending c = [last (client_ops c)] \<and> client_cerr c = []) \<and>
     (pending c = [] \<longrightarrow> length (client_cerr c) = 1 \<or> length (client_ops c) = 6 \<and> client_cerr c = []) \<and>
     length (client_cout c) = (if length (client_ops c) = 6 then 1 else 0)"

declare client_on_resolve_def [op_defs] client_on_connect_def [op_defs] client_on_handshake_def [op_defs]
  client_on_write_def [op_defs] client_on_read_def [op_defs] client_on_shutdown_def [op_defs]
  client_fail_def [op_defs] initiate_def [op_defs]

lemma stage_last:
  assumes "map stage ops = [0..<length ops]" and "ops \<noteq> []"
  shows "length ops = Suc (stage (last ops))"
proof -
  have "stage (last ops) = last (map stage ops)" using assms(2) by (simp add: last_map)
  also have "\<dots> = length ops - 1" using assms by simp
  finally show ?thesis using assms(2) by (cases ops) auto
qed

lemma client_started_inv: "client_started k B c \<Longrightarrow> client_inv c"
  by (auto simp: client_started_def client_inv_def client_run_def new_client_def initiate_def
      split: option.splits)

lemma client_stepE:
  assumes "client_step k B c e d" and "client_inv c"
  obtains x where "pending c = [x]" "last (client_ops c) = x" "completes e x"
    "length (client_ops c) = Suc (stage x)" "client_ops c \<noteq> []"
    "d = client_handle k B e (c\<lparr>pending := []\<rparr>)"
proof -
  from assms(1) obtain xs x ys where p: "pending c = xs @ x # ys" and x: "completes e x"
    and d: "d = client_handle k B e (c\<lparr>pending := xs @ ys\<rparr>)"
    by cases
  from p assms(2) have "client_ops c \<noteq> []" "xs = []" "ys = []" "x = last (client_ops c)"
    by (auto simp: client_inv_def Cons_eq_append_conv append_eq_Cons_conv)
  with that p x d assms(2) show ?thesis
    by (auto simp: client_inv_def dest: stage_last)
qed

lemma client_step_inv:
  assumes "client_step k B c e d" and "client_inv c"
  shows "client_inv d"
proof -
  from assms obtain x where x: "pending c = [x]" "last (client_ops c) = x" "completes e x"
    "length (client_ops c) = Suc (stage x)" "client_ops c \<noteq> []"
    and d: "d = client_handle k B e (c\<lparr>pending := []\<rparr>)"
    by (rule client_stepE)
  show ?thesis
    using assms(2) x unfolding d
    by (cases e; cases x) (auto simp: client_inv_def op_defs Let_def eval_nat_numeral)
qed

lemma client_ops_le: "client_inv c \<Longrightarrow> length (client_ops c) \<le> 6"
proof (cases "client_ops c = []")
  case False
  assume "client_inv c"
  with False have "length (client_ops c) = Suc (stage (last (client_ops c)))"
    by (auto simp: client_inv_def intro: stage_last)
  moreover have "stage x \<le> 5" for x by (cases x) auto
  ultimately show ?thesis by simp
qed simp

interpretation client: invariant_of "client_started k B" "client_step k B" client_inv for k B
  by unfold_locales (auto intro: client_started_inv client_step_inv)

section \<open>Properties\<close>

definition sample_api :: beast_api where
  "sample_api = \<lparr>api_iequals = (=), api_message = (\<lambda>ec. ''failed''), api_open = (\<lambda>p. (No_such_file, '''')),
     api_prepare_payload = (\<lambda>r. r), api_need_eof = (\<lambda>r. True), api_version = ''Boost.Beast/306''\<rparr>"

definition sample_client_run :: client where
  "sample_client_run =
     m_run (methods_of Signing) sample_api (\<lambda>host. None) ''example.org'' ''443'' ''/'' 11 new_client"

lemma sample_client_reach: "reach (client_started Signing sample_api) (client_step Signing sample_api) sample_client_run"
  unfolding sample_client_run_def by (rule reach_init) (unfold client_started_def, blast)

lemma sample_client_pending:
  "pending sample_client_run = [Resolve ''example.org'' ''443'']"
  "client_ops sample_client_run = [Resolve ''example.org'' ''443'']"
  by (simp_all add: sample_client_run_def client_run_def new_client_def initiate_def)

text \<open>
  Each of the three clients follows the protocol.  In every reachable state the operations it has
  started are the first so many of resolve, connect, handshake, write, read and shutdown, in this
  order, at most one is outstanding, a finished client has done all six or reported exactly one failure, and
  the response has been printed, once, exactly if the shutdown has been started.
\<close>

theorem client_protocol:
  assumes "reach (client_started k B) (client_step k B) c"
  shows "map stage (client_ops c) = [0..<length (client_ops c)] \<and> length (client_ops c) \<le> 6 \<and>
    length (pending c) \<le> 1 \<and>
    (pending c = [] \<longrightarrow> length (client_cerr c) = 1 \<or> length (client_ops c) = 6 \<and> client_cerr c = []) \<and>
    length (client_cout c) = (if length (client_ops c) = 6 then 1 else 0)"
  using client.inv_reach [OF assms] client_ops_le [of c] by (auto simp: client_inv_def)

theorem client_protocol_witness:
  "\<exists>c. client_step Signing sample_api sample_client_run (Resolved (Other_error 1) []) c \<and>
     pending c = [] \<and> length (client_cerr c) = 1"
proof -
  let ?c = "client_handle Signing sample_api (Resolved (Other_error 1) []) (sample_client_run\<lparr>pending := []\<rparr>)"
  have step: "client_step Signing sample_api sample_client_run (Resolved (Other_error 1) []) ?c"
    by (rule client_completes [of _ "[]" "Resolve ''example.org'' ''443''" "[]"])
       (simp_all add: sample_client_pending)
  have "pending ?c = []" "length (client_ops ?c) = 1"
    by (simp_all add: op_defs sample_client_pending)
  with step client_protocol [OF reach_step [OF sample_client_reach step]]
  show ?thesis by (intro exI [of _ ?c]) simp
qed

lemma client_step_bound:
  assumes "client_step k B c e d" and "client_inv c"
  shows "1 + length (client_ops c) + length (pending d) \<le> length (client_ops d) + length (pending c)"
proof -
  from assms obtain x where x: "pending c = [x]" "completes e x"
    and d: "d = client_handle k B e (c\<lparr>pending := []\<rparr>)"
    by (rule client_stepE)
  then show ?thesis
    unfolding d by (cases e; cases x) (auto simp: op_defs Let_def)
qed

lemma client_steps_bound:
  "steps (client_step k B) c n d \<Longrightarrow> client_inv c \<Longrightarrow>
     n + length (client_ops c) + length (pending d) \<le> length (client_ops d) + length (pending c)"
proof (induction rule: steps.induct)
  case (steps_none s)
  then show ?case by simp
next
  case (steps_more s e t n u)
  with client_step_inv client_step_bound show ?case by fastforce
qed

text \<open>
  Each of the three clients terminates.  From every reachable state a run takes at most as many steps as there
  are operations left of the six, plus one for an outstanding one; and while an operation is
  outstanding, its completion is a step, so that a client never hangs by itself.
\<close>

theorem client_terminates:
  assumes "reach (client_started k B) (client_step k B) c"
  shows "(\<forall>n d. steps (client_step k B) c n d \<longrightarrow> n + length (client_ops c) \<le> 6 + length (pending c)) \<and>
    (\<forall>e x. pending c = [x] \<and> completes e x \<longrightarrow> client_step k B c e (client_handle k B e (c\<lparr>pending := []\<rparr>)))"
proof (intro conjI allI impI)
  fix n d
  assume run: "steps (client_step k B) c n d"
  have "length (client_ops d) \<le> 6"
    using client.inv_reach [OF steps_reach [OF run assms]] by (rule client_ops_le)
  with client_steps_bound [OF run client.inv_reach [OF assms]]
  show "n + length (client_ops c) \<le> 6 + length (pending c)" by simp
next
  fix e x
  assume "pending c = [x] \<and> completes e x"
  then show "client_step k B c e (client_handle k B e (c\<lparr>pending := []\<rparr>))"
    by (intro client_completes [of _ "[]" x "[]"]) simp_all
qed

theorem client_terminates_witness:
  "\<not> (\<exists>d. steps (client_step Signing sample_api) sample_client_run 7 d) \<and>
   (\<exists>d. client_step Signing sample_api sample_client_run (Resolved No_error [''93.184.216.34'']) d)"
proof -
  note ends = client_terminates [OF sample_client_reach, unfolded sample_client_pending]
  have "client_step Signing sample_api sample_client_run (Resolved No_error [''93.184.216.34''])
      (client_handle Signing sample_api (Resolved No_error [''93.184.216.34'']) (sample_client_run\<lparr>pending := []\<rparr>))"
    using conjunct2 [OF ends, THEN spec, of "Resolved No_error [''93.184.216.34'']", THEN spec,
        of "Resolve ''example.org'' ''443''"] by simp
  with conjunct1 [OF ends] show ?thesis by fastforce
qed

end
