(* ===== verification/Client_Refinement.thy ===== *)
theory Client_Refinement
  imports Client
begin

text \<open>
  The specification of the HTTPS client, and the proof that each of its classes implements it: an
  exchange goes through its six stages one after the other, gives up at any of them, and takes in
  one response on the way.
\<close>

section \<open>The specification\<close>

datatype exchange =
    Doing nat "string option"          \<comment> \<open>the stage, and the response once there is one\<close>
  | Finished string
  | Gave_up nat "string option"        \<comment> \<open>after how many operations\<close>

datatype exchange_event = Advance | Receive string | Finish | Give_up

inductive exchange_step :: "exchange \<Rightarrow> exchange_event \<Rightarrow> exchange \<Rightarrow> bool" where
  advance: "i < 4 \<Longrightarrow> exchange_step (Doing i None) Advance (Doing (i + 1) None)"
| receive: "exchange_step (Doing 4 None) (Receive res) (Doing 5 (Some res))"
| finish: "exchange_step (Doing 5 (Some res)) Finish (Finished res)"
| give_up: "exchange_step (Doing i r) Give_up (Gave_up (i + 1) r)"

lemma exchange_moves:
  "i < 4 \<Longrightarrow> j = i + 1 \<Longrightarrow> \<exists>l. exchange_step (Doing i None) l (Doing j None)"
  "\<exists>l. exchange_step (Doing 4 None) l (Doing 5 (Some res))"
  "\<exists>l. exchange_step (Doing 5 (Some res)) l (Finished res)"
  using exchange_step.intros by blast+

definition exchange_started :: "exchange \<Rightarrow> bool" where
  "exchange_started x \<longleftrightarrow> x \<in> {Doing 0 None, Gave_up 0 None}"

text \<open>How many events an exchange can still take.\<close>

fun stages_left :: "exchange \<Rightarrow> nat" where
  "stages_left (Doing i r) = 6 - i"
| "stages_left x = 0"

lemma exchange_step_left:
  "exchange_step x e y \<Longrightarrow> (\<forall>i r. x = Doing i r \<longrightarrow> i \<le> 5) \<Longrightarrow> stages_left y < stages_left x"
  by (cases rule: exchange_step.cases, assumption) auto

text \<open>What the specification guarantees: a response exactly from the sixth stage on.\<close>

definition exchange_ok :: "exchange \<Rightarrow> bool" where
  "exchange_ok x \<longleftrightarrow> (case x of
     Doing i r \<Rightarrow> i \<le> 5 \<and> (r \<noteq> None) = (i = 5)
   | Finished res \<Rightarrow> True
   | Gave_up n r \<Rightarrow> n \<le> 6 \<and> (r \<noteq> None) = (n = 6))"

lemma exchange_step_ok: "exchange_step x e y \<Longrightarrow> exchange_ok x \<Longrightarrow> exchange_ok y"
  by (cases rule: exchange_step.cases, assumption) (auto simp: exchange_ok_def)

interpretation exchange: invariant_of exchange_started exchange_step exchange_ok
proof unfold_locales
  show "exchange_started x \<Longrightarrow> exchange_ok x" for x by (auto simp: exchange_started_def exchange_ok_def)
qed (rule exchange_step_ok)

section \<open>The client implements it\<close>

definition printed :: "client \<Rightarrow> string option" where
  "printed c = (case client_cout c of [] \<Rightarrow> None | res # xs \<Rightarrow> Some res)"

definition exchange_of :: "client \<Rightarrow> exchange" where
  "exchange_of c = (case pending c of
     x # xs \<Rightarrow> Doing (stage x) (printed c)
   | [] \<Rightarrow> if client_cerr c = [] then Finished (the (printed c)) else Gave_up (length (client_ops c)) (printed c))"

lemma client_step_exchange:
  assumes "client_step k B c e d" and "client_inv c"
  shows "\<exists>l. exchange_step (exchange_of c) l (exchange_of d)"
proof -
  from assms obtain x where x: "pending c = [x]" "last (client_ops c) = x" "completes e x"
    "length (client_ops c) = Suc (stage x)" "client_ops c \<noteq> []"
    and d: "d = client_handle k B e (c\<lparr>pending := []\<rparr>)"
    by (rule client_stepE)
  have none: "printed c = None" "client_cout c = []" if "stage x \<noteq> 5"
    using that assms(2) x by (auto simp: client_inv_def printed_def)
  have some: "\<exists>res. client_cout c = [res] \<and> printed c = Some res" if "stage x = 5"
    using that assms(2) x by (auto simp: client_inv_def printed_def length_Suc_conv)
  have err: "client_cerr c = []" using assms(2) x by (simp add: client_inv_def)
  have fails: "\<exists>l. exchange_step (exchange_of c) l (exchange_of d)"
    if "pending d = []" "client_cerr d \<noteq> []" "client_ops d = client_ops c" "client_cout d = client_cout c"
    using give_up [of "stage x" "printed c"] that x by (auto simp: exchange_of_def printed_def)
  show ?thesis
  proof (cases "pending d = [] \<and> client_cerr d \<noteq> [] \<and> client_ops d = client_ops c \<and> client_cout d = client_cout c")
    case True
    with fails show ?thesis by blast
  next
    case False
    then show ?thesis
      using x err none some unfolding d
      by (cases e; cases x)
         (auto simp: op_defs Let_def exchange_of_def printed_def intro: exchange_moves)
  qed
qed

lemma client_started_exchange: "client_started k B c \<Longrightarrow> exchange_started (exchange_of c)"
  by (auto simp: client_started_def exchange_started_def exchange_of_def printed_def client_run_def
      new_client_def initiate_def split: option.splits)

interpretation client_sim: simulation "client_started k B" "client_step k B" client_inv
    exchange_started exchange_step exchange_of for k B
  by unfold_locales (auto intro: client_started_exchange dest: client_step_exchange)

section \<open>Property\<close>

text \<open>
  C22: Each of the three clients is an HTTPS exchange.  In every reachable state the client is in a
  state of the specification, with the response that it has printed; each of its steps is one of
  the specification, so that it goes through the six stages in order and gives up at most once; it
  takes no more steps than there are stages left; and while an operation is outstanding its
  completion is a step, so that it never hangs by itself.
\<close>

theorem client_refines_exchange:
  assumes "reach (client_started k B) (client_step k B) c"
  shows "reach exchange_started exchange_step (exchange_of c) \<and>
    (\<forall>e d. client_step k B c e d \<longrightarrow> (\<exists>l. exchange_step (exchange_of c) l (exchange_of d))) \<and>
    (\<forall>n d. steps (client_step k B) c n d \<longrightarrow> n \<le> stages_left (exchange_of c)) \<and>
    (\<forall>e x. pending c = [x] \<and> completes e x \<longrightarrow> (\<exists>d. client_step k B c e d))"
proof (intro conjI allI impI)
  show "reach exchange_started exchange_step (exchange_of c)"
    by (rule client_sim.refines_reach [OF assms])
  have inv: "client_inv c" by (rule client.inv_reach [OF assms])
  show "\<exists>l. exchange_step (exchange_of c) l (exchange_of d)" if "client_step k B c e d" for e d
    using client_step_exchange [OF that inv] .
  have shrinks: "reach (client_started k B) (client_step k B) d \<and> stages_left (exchange_of d) < stages_left (exchange_of s)"
    if "client_step k B s e d" "reach (client_started k B) (client_step k B) s" for s e d
  proof -
    from exchange.inv_reach [OF client_sim.refines_reach [OF that(2)]]
    have "\<forall>i r. exchange_of s = Doing i r \<longrightarrow> i \<le> 5" by (auto simp: exchange_ok_def)
    with exchange_step_left client_step_exchange [OF that(1) client.inv_reach [OF that(2)]]
    show ?thesis using reach_step [OF that(2,1)] by blast
  qed
  show "n \<le> stages_left (exchange_of c)" if "steps (client_step k B) c n d" for n d
    using steps_measure [where P = "reach (client_started k B) (client_step k B)" and
        m = "\<lambda>s. stages_left (exchange_of s)" and step = "client_step k B", OF _ that assms] shrinks
    by fastforce
  show "\<exists>d. client_step k B c e d" if "pending c = [x] \<and> completes e x" for e x
    using client_completes [of c "[]" x "[]", OF _ _ refl] that by auto
qed

theorem client_refines_exchange_witness:
  "exchange_of sample_client_run = Doing 0 None \<and>
   reach exchange_started exchange_step (Doing 0 None) \<and>
   \<not> (\<exists>d. steps (client_step Signing sample_api) sample_client_run 7 d) \<and>
   (\<exists>d. client_step Signing sample_api sample_client_run (Resolved No_error [''93.184.216.34'']) d)"
proof -
  have abs: "exchange_of sample_client_run = Doing 0 None"
    by (simp add: sample_client_run_def client_run_def new_client_def initiate_def exchange_of_def printed_def)
  note refines = client_refines_exchange [OF sample_client_reach, unfolded abs sample_client_pending]
  then have "\<not> (\<exists>d. steps (client_step Signing sample_api) sample_client_run 7 d)" by fastforce
  with refines abs show ?thesis by fastforce
qed

end
