(* ===== verification/Certificate.thy ===== *)
theory Certificate
  imports Prelude
begin

text \<open>
  The class \<open>certificate\<close> of \<open>src/c++/systemicai/common/certificate.h\<close> and the exception type of
  \<open>common/exception.h\<close>.  The SSL context is the sequence of the calls that it has accepted; which
  calls it refuses, by an exception, depends on OpenSSL and is an argument.  An input stream is its
  contents, or \<open>None\<close> when it is in a failed state; the file system maps a path to the contents of
  the file, if a stream on it can be opened.
\<close>

section \<open>The context\<close>

datatype ssl_option = Default_workarounds | No_sslv2 | Single_dh_use

datatype ctx_op =
    Set_password_callback string              \<comment> \<open>what the callback returns\<close>
  | Set_options "ssl_option list"
  | Use_certificate_chain string
  | Use_private_key string                    \<comment> \<open>in PEM format\<close>
  | Use_tmp_dh string

type_synonym ctx = "ctx_op list"

datatype cert_error =
    Filesystem_error string string            \<comment> \<open>message and path\<close>
  | System_error string
  | Context_threw nat

type_synonym ctx_api = "ctx \<Rightarrow> ctx_op \<Rightarrow> nat option"   \<comment> \<open>the exception, if the call throws\<close>

text \<open>Statements in sequence: an exception leaves with the context as it is then.\<close>

type_synonym cert_result = "(cert_error + unit) \<times> ctx"

definition and_then :: "cert_result \<Rightarrow> (ctx \<Rightarrow> cert_result) \<Rightarrow> cert_result" where
  "and_then r k = (case r of (Inl e, c) \<Rightarrow> (Inl e, c) | (Inr u, c) \<Rightarrow> k c)"

definition ctx_call :: "ctx_api \<Rightarrow> ctx_op \<Rightarrow> ctx \<Rightarrow> cert_result" where
  "ctx_call T x c = (case T c x of None \<Rightarrow> (Inr (), c @ [x]) | Some e \<Rightarrow> (Inl (Context_threw e), c))"

section \<open>The two overloads of \<open>load\<close>\<close>

definition load_streams ::
    "ctx_api \<Rightarrow> string option \<Rightarrow> string option \<Rightarrow> string option \<Rightarrow> ctx \<Rightarrow> cert_result" where
  "load_streams T cs ks ds c =
     and_then (ctx_call T (Set_password_callback ''Not Implemented'') c) (\<lambda>c.
     and_then (ctx_call T (Set_options [Default_workarounds, No_sslv2, Single_dh_use]) c) (\<lambda>c.
     case cs of None \<Rightarrow> (Inl (System_error ''istream_ssl_certificate is invalid''), c)
     | Some cert \<Rightarrow>
     and_then (ctx_call T (Use_certificate_chain cert) c) (\<lambda>c.
     case ks of None \<Rightarrow> (Inl (System_error ''istream_ssl_key is invalid''), c)
     | Some key \<Rightarrow>
     and_then (ctx_call T (Use_private_key key) c) (\<lambda>c.
     case ds of None \<Rightarrow> (Inl (System_error ''istream_ssl_dh is invalid''), c)
     | Some dh \<Rightarrow> ctx_call T (Use_tmp_dh dh) c))))"

definition load_files ::
    "ctx_api \<Rightarrow> (string \<Rightarrow> string option) \<Rightarrow> string \<Rightarrow> string \<Rightarrow> string \<Rightarrow> ctx \<Rightarrow> cert_result" where
  "load_files T fs ssl_certificate ssl_key ssl_dh c =
     (let cs = fs ssl_certificate
      in if cs = None then (Inl (Filesystem_error ''Not Found'' ssl_certificate), c) else
      let ks = fs ssl_key
      in if ks = None then (Inl (Filesystem_error ''Not Found'' ssl_key), c) else
      let ds = fs ssl_dh
      in if ds = None then (Inl (Filesystem_error ''Not Found'' ssl_dh), c)
      else load_streams T cs ks ds c)"

text \<open>\<open>systemicai::common::exception\<close>: a message, compared by its text and printed as one.\<close>

record cxx_exception =
  msg :: string

definition exception_eq :: "cxx_exception \<Rightarrow> cxx_exception \<Rightarrow> bool" where
  "exception_eq a b \<longleftrightarrow> msg a = msg b"

definition exception_what :: "cxx_exception \<Rightarrow> string" where
  "exception_what e = takeWhile (\<lambda>c. c \<noteq> CHR 0x00) (msg e)"

section \<open>The reference\<close>

text \<open>The calls that configure a context completely, in their order.\<close>

definition full_setup :: "string \<Rightarrow> string \<Rightarrow> string \<Rightarrow> ctx" where
  "full_setup cert key dh =
     [Set_password_callback ''Not Implemented'',
      Set_options [Default_workarounds, No_sslv2, Single_dh_use],
      Use_certificate_chain cert, Use_private_key key, Use_tmp_dh dh]"

text \<open>Calls in sequence up to the first that is refused.\<close>

fun ctx_calls :: "ctx_api \<Rightarrow> ctx_op list \<Rightarrow> ctx \<Rightarrow> cert_result" where
  "ctx_calls T [] c = (Inr (), c)"
| "ctx_calls T (x # xs) c = (case T c x of
     None \<Rightarrow> ctx_calls T xs (c @ [x]) | Some e \<Rightarrow> (Inl (Context_threw e), c))"

lemma ctx_calls_prefix:
  "ctx_calls T xs c = (r, c') \<Longrightarrow>
     \<exists>ys. prefix ys xs \<and> c' = c @ ys \<and> (r = Inr () \<longleftrightarrow> ys = xs)"
proof (induction xs arbitrary: c)
  case Nil
  then show ?case by simp
next
  case (Cons x xs)
  show ?case
  proof (cases "T c x")
    case None
    with Cons.prems Cons.IH [of "c @ [x]"] obtain ys where
      "prefix ys xs" "c' = (c @ [x]) @ ys" "r = Inr () \<longleftrightarrow> ys = xs"
      by auto
    then show ?thesis by (intro exI [of _ "x # ys"]) simp
  next
    case (Some e)
    with Cons.prems show ?thesis by (intro exI [of _ "[]"]) auto
  qed
qed

lemma load_streams_all:
  "load_streams T (Some cert) (Some key) (Some dh) c = ctx_calls T (full_setup cert key dh) c"
  by (simp add: load_streams_def full_setup_def and_then_def ctx_call_def split: option.split)

section \<open>Properties\<close>

text \<open>
  Loading the certificate from files touches the context only if all files open.  The first of
  the three files that cannot be opened is named in the exception, with the context as it
  was; if all open, the context is configured by five calls, in order.
\<close>

theorem certificate_files:
  "load_files T fs cp kp dp c =
     (case find (\<lambda>p. fs p = None) [cp, kp, dp] of
        Some p \<Rightarrow> (Inl (Filesystem_error ''Not Found'' p), c)
      | None \<Rightarrow> ctx_calls T (full_setup (the (fs cp)) (the (fs kp)) (the (fs dp))) c)"
  by (cases "fs cp"; cases "fs kp"; cases "fs dp") (simp_all add: load_files_def load_streams_all)

text \<open>
  C37: Success means a complete configuration.  Loading from streams, valid or not, appends a
  prefix of the calls of a complete configuration to the context, and returns normally exactly if
  all three streams were valid and all five calls were accepted; so no context is served that has
  a certificate without its key.
\<close>

theorem certificate_streams:
  "\<exists>ys. prefix ys (full_setup (case cs of Some x \<Rightarrow> x | None \<Rightarrow> '''') (case ks of Some x \<Rightarrow> x | None \<Rightarrow> '''')
        (case ds of Some x \<Rightarrow> x | None \<Rightarrow> '''')) \<and>
    snd (load_streams T cs ks ds c) = c @ ys \<and>
    (fst (load_streams T cs ks ds c) = Inr () \<longleftrightarrow>
       length ys = 5 \<and> cs \<noteq> None \<and> ks \<noteq> None \<and> ds \<noteq> None)"
proof (cases "cs \<noteq> None \<and> ks \<noteq> None \<and> ds \<noteq> None")
  case True
  then obtain cert key dh where s: "cs = Some cert" "ks = Some key" "ds = Some dh" by auto
  obtain r c' where r: "ctx_calls T (full_setup cert key dh) c = (r, c')" by fastforce
  from ctx_calls_prefix [OF r] obtain ys where
    ys: "prefix ys (full_setup cert key dh)" "c' = c @ ys" "r = Inr () \<longleftrightarrow> ys = full_setup cert key dh"
    by blast
  moreover have "ys = full_setup cert key dh \<longleftrightarrow> length ys = 5"
    using prefix_eq_length [OF ys(1)] by (simp add: full_setup_def eval_nat_numeral)
  ultimately show ?thesis
    unfolding s load_streams_all r by (intro exI [of _ ys]) simp
next
  case False
  then show ?thesis
    by (auto simp: load_streams_def full_setup_def and_then_def ctx_call_def split: option.split)
qed

end
