(* ===== verification/Logging.thy ===== *)
theory Logging
  imports Prelude
begin

text \<open>
  What the programs use of Boost.Log: the severities, the filter of the core and the records that
  pass it; and \<open>set_log_filter\<close>, which each of the programs has a copy of.
\<close>

section \<open>Severities\<close>

datatype severity = Trace | Debug | Info | Warning | Error_level | Fatal

text \<open>The order of Boost.Log's trivial severity levels.\<close>

fun severity_rank :: "severity \<Rightarrow> nat" where
  "severity_rank Trace = 0"
| "severity_rank Debug = 1"
| "severity_rank Info = 2"
| "severity_rank Warning = 3"
| "severity_rank Error_level = 4"
| "severity_rank Fatal = 5"

lemma severity_rank_inject: "severity_rank a = severity_rank b \<Longrightarrow> a = b"
  by (cases a; cases b) auto

instantiation severity :: linorder
begin

definition less_eq_severity :: "severity \<Rightarrow> severity \<Rightarrow> bool" where
  "less_eq_severity a b \<longleftrightarrow> severity_rank a \<le> severity_rank b"

definition less_severity :: "severity \<Rightarrow> severity \<Rightarrow> bool" where
  "less_severity a b \<longleftrightarrow> severity_rank a < severity_rank b"

instance
  by standard (auto simp: less_eq_severity_def less_severity_def intro: severity_rank_inject)

end

section \<open>The log\<close>

record log_core =
  filter_min :: "severity option"             \<comment> \<open>no filter, or the least severity that passes\<close>
  records :: "(severity \<times> string) list"       \<comment> \<open>what has passed\<close>

definition passes :: "log_core \<Rightarrow> severity \<Rightarrow> bool" where
  "passes c sev = (case filter_min c of None \<Rightarrow> True | Some m \<Rightarrow> m \<le> sev)"

definition log_trivial :: "severity \<Rightarrow> string \<Rightarrow> log_core \<Rightarrow> log_core" where
  "log_trivial sev text c = (if passes c sev then c\<lparr>records := records c @ [(sev, text)]\<rparr> else c)"

definition set_filter :: "severity \<Rightarrow> log_core \<Rightarrow> log_core" where
  "set_filter m c = c\<lparr>filter_min := Some m\<rparr>"

text \<open>The body that the copies of \<open>set_log_filter\<close> share.\<close>

definition set_level_filter :: "string \<Rightarrow> log_core \<Rightarrow> bool \<times> log_core" where
  "set_level_filter level c =
     (if level = ''trace'' then (True, set_filter Trace c)
      else if level = ''info'' then (True, set_filter Info c)
      else if level = ''debug'' then (True, set_filter Debug c)
      else if level = ''warning'' then (True, set_filter Warning c)
      else if level = ''error'' then (True, set_filter Error_level c)
      else if level = ''fatal'' then (True, set_filter Fatal c)
      else (False, log_trivial Fatal (''Unknown log level specified: ['' @ level @
        ''] valid values are [trace, info, debug, warrning, error, fatal]'') c))"

definition level_of :: "string \<Rightarrow> severity option" where
  "level_of t = map_of [(''trace'', Trace), (''debug'', Debug), (''info'', Info),
     (''warning'', Warning), (''error'', Error_level), (''fatal'', Fatal)] t"

text \<open>
  The log filter lets through what is at least as severe as the level.  A known level, of the
  six, is accepted and then exactly the severities from it upwards pass; any other is reported
  as a fatal error, which every filter lets through, and the filter stays as it was.
\<close>

theorem log_filter_level:
  "(case level_of level of
      Some m \<Rightarrow> fst (set_level_filter level c) \<and> (\<forall>sev. passes (snd (set_level_filter level c)) sev = (m \<le> sev)) \<and>
        records (snd (set_level_filter level c)) = records c
    | None \<Rightarrow> \<not> fst (set_level_filter level c) \<and>
        (\<forall>sev. passes (snd (set_level_filter level c)) sev = passes c sev) \<and>
        (\<exists>text. records (snd (set_level_filter level c)) = records c @ [(Fatal, text)]))"
proof -
  have "m \<le> Fatal" for m by (cases m) (simp_all add: less_eq_severity_def)
  then have "passes c Fatal" by (simp add: passes_def split: option.split)
  then show ?thesis
    by (simp add: set_level_filter_def level_of_def log_trivial_def set_filter_def passes_def)
qed

end
