(* ===== verification/Client_Program.thy ===== *)
theory Client_Program
  imports Client Certificate Client_Settings Logging Settings_Props
begin

text \<open>
  The client program \<open>src/tst/c++/systemicai/http/client/api.cpp\<close>: \<open>load_server_certificate\<close>,
  \<open>set_log_filter\<close> and \<open>main\<close>, which runs one request of the class \<open>signing\<close>.
  The JSON parser, Poco's \<open>URI\<close>, the file system and OpenSSL are arguments.
\<close>

section \<open>The certificate\<close>

text \<open>What reading from an \<open>ifstream\<close> to its end gives: nothing, if the file could not be opened.\<close>

definition ifstream_contents :: "(string \<Rightarrow> string option) \<Rightarrow> string \<Rightarrow> string" where
  "ifstream_contents fs path = (case fs path of None \<Rightarrow> '''' | Some text \<Rightarrow> text)"

text \<open>The body of \<open>load_server_certificate\<close>, of which the old server program has a copy.\<close>

definition load_certificate_from ::
    "ctx_api \<Rightarrow> (string \<Rightarrow> string option) \<Rightarrow> string \<Rightarrow> string \<Rightarrow> string \<Rightarrow> ctx \<Rightarrow> cert_result" where
  "load_certificate_from T fs certificate_path key_path dh_path c = (
     let cert = ifstream_contents fs certificate_path;
         key = ifstream_contents fs key_path;
         dh = ifstream_contents fs dh_path
     in and_then (ctx_call T (Set_password_callback ''test'') c) (\<lambda>c.
        and_then (ctx_call T (Set_options [Default_workarounds, No_sslv2, Single_dh_use]) c) (\<lambda>c.
        and_then (ctx_call T (Use_certificate_chain cert) c) (\<lambda>c.
        and_then (ctx_call T (Use_private_key key) c) (\<lambda>c.
        ctx_call T (Use_tmp_dh dh) c)))))"

definition load_server_certificate ::
    "ctx_api \<Rightarrow> (string \<Rightarrow> string option) \<Rightarrow> client_settings \<Rightarrow> ctx \<Rightarrow> cert_result" where
  "load_server_certificate T fs s c =
     load_certificate_from T fs (c_ssl_certificate s) (c_ssl_key s) (c_ssl_dh s) c"

section \<open>The log filter\<close>

definition client_set_log_filter :: "client_settings \<Rightarrow> log_core \<Rightarrow> bool \<times> log_core" where
  "client_set_log_filter s c = set_level_filter (c_log_level s) c"

section \<open>The program\<close>

text \<open>
  \<open>Poco::URI\<close> throws on a malformed text; its port is zero if it has none and the scheme implies
  none.  \<open>run\<close> is called with C strings.
\<close>

record uri =
  uri_host :: string
  uri_port :: u16
  uri_path :: string

record 't client_machine =
  cm_read_json :: "string \<Rightarrow> 't option"
  cm_parse_uri :: "string \<Rightarrow> uri option"
  cm_files :: "string \<Rightarrow> string option"
  cm_tls :: ctx_api
  cm_sni_error :: "string \<Rightarrow> error_code option"

datatype client_cause = Settings_unreadable | Context_failed cert_error | Uri_malformed

datatype client_outcome = Client_exit int | Client_terminated client_cause | Client_running client

record client_process =
  cp_core :: log_core
  cp_err :: string
  cp_result :: client_outcome

definition client_usage :: "string \<Rightarrow> string" where
  "client_usage prog = ''Usage: '' @ prog @ '' settings.json <uri> <threads> <version>'' @ newline @
     ''Example:'' @ newline @ ''   '' @ prog @
     '' settings.json https://www.example.com:443/somepath <concurrency = 2> <http version = 1.0>'' @ newline"

definition port_text :: "lexical \<Rightarrow> uri \<Rightarrow> string" where
  "port_text L u = (if uri_port u \<noteq> 0 then show_u16 L (uri_port u) else ''443'')"

text \<open>\<open>argc == 5 && !std::strcmp("1.0", argv[4]) ? 10 : 11\<close>\<close>

definition http_version :: "string list \<Rightarrow> u32" where
  "http_version argv = (if length argv = 5 \<and> argv ! 4 = ''1.0'' then 10 else 11)"

definition client_main ::
    "'t ptree_api \<Rightarrow> lexical \<Rightarrow> beast_api \<Rightarrow> 't client_machine \<Rightarrow> client_settings \<Rightarrow> string list \<Rightarrow>
       log_core \<Rightarrow> client_process" where
  "client_main P L B M uninitialised argv c =
     (if length argv \<noteq> 4 \<and> length argv \<noteq> 5
      then \<lparr>cp_core = c, cp_err = client_usage (argv ! 0), cp_result = Client_exit exit_failure\<rparr>
      else case cm_read_json M (argv ! 1) of
        None \<Rightarrow> \<lparr>cp_core = c, cp_err = '''', cp_result = Client_terminated Settings_unreadable\<rparr>
      | Some tree \<Rightarrow>
          let s = new_client_settings P L uninitialised tree;
              c = snd (client_set_log_filter s c)
          in case cm_parse_uri M (argv ! 2) of
            None \<Rightarrow> \<lparr>cp_core = c, cp_err = '''', cp_result = Client_terminated Uri_malformed\<rparr>
          | Some u \<Rightarrow>
              let port = port_text L u;
                  version = http_version argv
              in case load_server_certificate (cm_tls M) (cm_files M) s [] of
                (Inl e, ctx) \<Rightarrow> \<lparr>cp_core = c, cp_err = '''', cp_result = Client_terminated (Context_failed e)\<rparr>
              | (Inr _, ctx) \<Rightarrow> \<lparr>cp_core = c, cp_err = '''',
                  cp_result = Client_running (m_run signing B (cm_sni_error M)
                    (c_str (uri_host u)) (c_str port) (c_str (uri_path u)) version new_client)\<rparr>)"

text \<open>\<open>ioc.run()\<close> returns once nothing is outstanding, and \<open>main\<close> returns success.\<close>

definition client_main_returns :: "client \<Rightarrow> int option" where
  "client_main_returns c = (if pending c = [] then Some exit_success else None)"

section \<open>Properties\<close>

definition test_setup :: "string \<Rightarrow> string \<Rightarrow> string \<Rightarrow> ctx" where
  "test_setup cert key dh =
     [Set_password_callback ''test'', Set_options [Default_workarounds, No_sslv2, Single_dh_use],
      Use_certificate_chain cert, Use_private_key key, Use_tmp_dh dh]"

lemma load_certificate_from_calls:
  "load_certificate_from T fs cp kp dp c = ctx_calls T
     (test_setup (ifstream_contents fs cp) (ifstream_contents fs kp) (ifstream_contents fs dp)) c"
  by (simp add: load_certificate_from_def test_setup_def and_then_def ctx_call_def Let_def split: option.split)

text \<open>
  The programs under \<open>src/tst\<close> do not notice a missing file.  Loading the certificate makes five
  calls on the context up to the first that is refused, and a file that cannot be opened counts
  as an empty one; where the library's loader reports such a file and leaves the context alone,
  only OpenSSL can object here.
\<close>

theorem missing_files_unnoticed:
  "load_server_certificate T fs s c = ctx_calls T
     (test_setup (ifstream_contents fs (c_ssl_certificate s)) (ifstream_contents fs (c_ssl_key s))
       (ifstream_contents fs (c_ssl_dh s))) c \<and>
   load_server_certificate T (\<lambda>p. None) s c = load_server_certificate T (\<lambda>p. Some '''') s c \<and>
   load_files T (\<lambda>p. None) (c_ssl_certificate s) (c_ssl_key s) (c_ssl_dh s) c =
     (Inl (Filesystem_error ''Not Found'' (c_ssl_certificate s)), c)"
  unfolding load_server_certificate_def load_certificate_from_calls
  by (simp add: ifstream_contents_def load_files_def)

text \<open>What the program needs in order to run its request.\<close>

definition can_request :: "'t ptree_api \<Rightarrow> lexical \<Rightarrow> 't client_machine \<Rightarrow> client_settings \<Rightarrow> string list \<Rightarrow> bool"
  where
  "can_request P L M m argv \<longleftrightarrow> length argv \<in> {4, 5} \<and> cm_parse_uri M (argv ! 2) \<noteq> None \<and>
     (case cm_read_json M (argv ! 1) of None \<Rightarrow> False | Some tree \<Rightarrow>
        fst (load_server_certificate (cm_tls M) (cm_files M) (new_client_settings P L m tree) []) = Inr ())"

text \<open>
  C35: The client program requests what it is asked for.  It runs a request exactly if it has three
  or four arguments, the settings can be read, the URI is well-formed and OpenSSL takes the
  certificate; then the log has the level of the file, unlike that of the server, and, unless
  the host name is refused, the request is a GET of the URI's path with the port of the URI or 443.
\<close>

theorem client_main_requests:
  "(\<exists>c. cp_result (client_main P L B M m argv c0) = Client_running c) = can_request P L M m argv \<and>
   (case cp_result (client_main P L B M m argv c0) of
      Client_running c \<Rightarrow> (\<exists>u tree. cm_parse_uri M (argv ! 2) = Some u \<and> cm_read_json M (argv ! 1) = Some tree \<and>
        cp_core (client_main P L B M m argv c0) = snd (set_level_filter (c_log_level (new_client_settings P L m tree)) c0) \<and>
        (case cm_sni_error M (c_str (uri_host u)) of
           Some ec \<Rightarrow> pending c = []
         | None \<Rightarrow> pending c = [Resolve (c_str (uri_host u)) (c_str (port_text L u))] \<and>
             req c = Some \<lparr>cr_version = http_version argv, cr_method = Verb_get,
               cr_target = c_str (uri_path u), cr_host = c_str (uri_host u), cr_user_agent = api_version B\<rparr>))
    | _ \<Rightarrow> True)"
proof (cases "(length argv = 4 \<or> length argv = 5) \<and> cm_read_json M (argv ! 1) \<noteq> None \<and>
    cm_parse_uri M (argv ! 2) \<noteq> None")
  case False
  then show ?thesis by (auto simp: client_main_def can_request_def Let_def split: option.splits)
next
  case True
  then obtain tree u where t: "cm_read_json M (argv ! 1) = Some tree" "cm_parse_uri M (argv ! 2) = Some u"
    "length argv = 4 \<or> length argv = 5" by auto
  let ?s = "new_client_settings P L m tree"
  obtain r ctx where r: "load_server_certificate (cm_tls M) (cm_files M) ?s [] = (r, ctx)" by fastforce
  let ?c = "m_run signing B (cm_sni_error M) (c_str (uri_host u)) (c_str (port_text L u)) (c_str (uri_path u))
      (http_version argv) new_client"
  have res: "cp_result (client_main P L B M m argv c0) = (case r of
      Inl e \<Rightarrow> Client_terminated (Context_failed e) | Inr _ \<Rightarrow> Client_running ?c)"
    "cp_core (client_main P L B M m argv c0) = snd (set_level_filter (c_log_level ?s) c0)"
    using t r by (auto simp: client_main_def client_set_log_filter_def Let_def split: sum.split)
  have "can_request P L M m argv \<longleftrightarrow> r = Inr ()"
    using t r by (auto simp: can_request_def)
  then show ?thesis
    unfolding res t using r
    by (auto simp: signing_def client_run_def new_client_def initiate_def Let_def split: sum.split option.split)
qed

text \<open>A machine on which the program can run its request.\<close>

definition sample_uri :: uri where
  "sample_uri = \<lparr>uri_host = ''example.org'', uri_port = 0, uri_path = ''/''\<rparr>"

definition sample_client_machine :: "(string \<Rightarrow> string option) client_machine" where
  "sample_client_machine = \<lparr>cm_read_json = (\<lambda>p. Some (pt_empty ref_tree)),
     cm_parse_uri = (\<lambda>t. Some sample_uri), cm_files = (\<lambda>p. None), cm_tls = (\<lambda>c x. None),
     cm_sni_error = (\<lambda>host. None)\<rparr>"

definition sample_argv :: "string list" where
  "sample_argv = [''api'', ''settings.json'', ''gopher://example.org/'', ''2'', ''1.0'']"

lemma sample_can_request: "can_request P L sample_client_machine m sample_argv" for P :: "(string \<Rightarrow> string option) ptree_api"
  by (simp add: can_request_def sample_client_machine_def sample_argv_def load_server_certificate_def
      load_certificate_from_calls test_setup_def)

theorem client_main_requests_witness:
  "\<exists>c. cp_result (client_main ref_tree ref_lexical sample_api sample_client_machine sample_client
       sample_argv \<lparr>filter_min = None, records = []\<rparr>) = Client_running c \<and>
     pending c = [Resolve ''example.org'' ''443''] \<and> map_option cr_version (req c) = Some 10"
proof -
  note main = client_main_requests [of ref_tree ref_lexical sample_api sample_client_machine sample_client
      sample_argv "\<lparr>filter_min = None, records = []\<rparr>"]
  then obtain c where c: "cp_result (client_main ref_tree ref_lexical sample_api sample_client_machine
      sample_client sample_argv \<lparr>filter_min = None, records = []\<rparr>) = Client_running c"
    using sample_can_request by blast
  have "c_str ''example.org'' = ''example.org''" "c_str ''443'' = ''443''"
    by (simp_all add: c_str_def)
  with main [unfolded c] c show ?thesis
    by (simp add: sample_client_machine_def sample_uri_def port_text_def http_version_def sample_argv_def)
qed

lemma client_started_run [intro]:
  "client_started Signing B (m_run signing B sni_error host port tgt ver new_client)"
  unfolding client_started_def methods_of.simps by blast

lemma completing_event: "\<exists>e. completes e x"
  by (cases x) (use completes.simps(1-6) in blast)+

text \<open>
  C36: The client program ends, always with success.  From every state that its client can reach at
  most six more operations complete; while one is outstanding it can complete; and once none is,
  \<open>main\<close> returns success, also when a failure has been reported instead of a response.
\<close>

theorem client_program_ends:
  assumes "cp_result (client_main P L B M m argv c0) = Client_running c"
    and "reach (\<lambda>x. x = c) (client_step Signing B) d"
  shows "(\<forall>n d'. steps (client_step Signing B) d n d' \<longrightarrow> n \<le> 6) \<and>
    (case client_main_returns d of
       None \<Rightarrow> \<exists>e d'. client_step Signing B d e d'
     | Some code \<Rightarrow> code = exit_success \<and> (length (client_cout d) = 1 \<or> length (client_cerr d) = 1))"
proof -
  from assms(1) have start: "client_started Signing B c"
    unfolding client_main_def
    by (auto simp: Let_def split: if_splits option.splits prod.splits sum.splits)
  have r: "reach (client_started Signing B) (client_step Signing B) d"
    by (intro reach_from [OF assms(2)] reach_init start)
  note inv = client.inv_reach [OF r]
  have le: "length (pending d) \<le> length (client_ops d)"
    using inv by (cases "client_ops d") (auto simp: client_inv_def)
  have "n \<le> 6" if "steps (client_step Signing B) d n d'" for n d'
    using client_steps_bound [OF that inv] client_ops_le [OF client.inv_reach [OF steps_reach [OF that r]]] le
    by simp
  moreover have "\<exists>e d'. client_step Signing B d e d'" if "pending d \<noteq> []"
  proof -
    from that inv have p: "pending d = [] @ last (client_ops d) # []" by (simp add: client_inv_def)
    then show ?thesis using completing_event client_completes [OF p] by blast
  qed
  moreover have "length (client_cout d) = 1 \<or> length (client_cerr d) = 1" if "pending d = []"
    using that inv by (auto simp: client_inv_def split: if_splits)
  ultimately show ?thesis by (simp add: client_main_returns_def)
qed

theorem client_program_ends_witness:
  "\<exists>c d. cp_result (client_main ref_tree ref_lexical sample_api sample_client_machine sample_client
       sample_argv \<lparr>filter_min = None, records = []\<rparr>) = Client_running c \<and>
     client_step Signing sample_api c (Resolved (Other_error 1) []) d \<and>
     client_main_returns d = Some exit_success \<and> (length (client_cout d) = 1 \<or> length (client_cerr d) = 1)"
proof -
  define c where "c = m_run signing sample_api (\<lambda>host. None) (c_str ''example.org'')
    (c_str (port_text ref_lexical sample_uri)) (c_str ''/'') (http_version sample_argv) new_client"
  have c: "cp_result (client_main ref_tree ref_lexical sample_api sample_client_machine sample_client
       sample_argv \<lparr>filter_min = None, records = []\<rparr>) = Client_running c"
    by (simp add: client_main_def sample_client_machine_def sample_argv_def load_server_certificate_def
        load_certificate_from_calls test_setup_def Let_def sample_uri_def c_def)
  have p: "pending c = [] @ Resolve (c_str ''example.org'') (c_str (port_text ref_lexical sample_uri)) # []"
    by (simp add: c_def signing_def client_run_def initiate_def new_client_def Let_def)
  let ?d = "client_handle Signing sample_api (Resolved (Other_error 1) []) (c\<lparr>pending := [] @ []\<rparr>)"
  have step: "client_step Signing sample_api c (Resolved (Other_error 1) []) ?d"
    by (rule client_completes [OF p]) simp_all
  then have "reach (\<lambda>x. x = c) (client_step Signing sample_api) ?d" by (blast intro: reach.intros)
  note ends = client_program_ends [OF c this, THEN conjunct2]
  have "client_main_returns ?d = Some exit_success"
    by (simp add: client_main_returns_def op_defs)
  with ends c step show ?thesis by auto
qed

end
