(* ===== verification/Httpd.thy ===== *)
theory Httpd
  imports Service Certificate Settings_Props Logging
begin

text \<open>
  The program \<open>src/c++/systemicai/cmd/httpd.cpp\<close>: its log filter and \<open>main\<close>.  The process-wide
  state it touches, the filter of Boost.Log's core, the records it emits and the text on
  \<open>std::cerr\<close>, is passed through; reading the JSON file is an argument.
\<close>

text \<open>\<open>set_log_filter\<close> of this program.\<close>

definition set_log_filter :: "settings \<Rightarrow> log_core \<Rightarrow> bool \<times> log_core" where
  "set_log_filter s c = set_level_filter (log_level s) c"

section \<open>The program\<close>

text \<open>
  How the call of \<open>main\<close> ends: with an exit code, by an exception that nothing catches, or not,
  while the service runs.
\<close>

datatype cause = Json_unreadable | Certificate_failed cert_error | Service_threw

datatype outcome = Exit int | Terminated cause | Serving service

record process =
  core :: log_core
  err :: string
  result :: outcome

record 't machine =
  read_json :: "string \<Rightarrow> 't option"
  file_contents :: "string \<Rightarrow> string option"
  tls :: ctx_api
  network :: host

definition usage :: "string \<Rightarrow> string" where
  "usage prog = ''Usage: '' @ prog @ '' settings.json'' @ newline @
     ''Example:'' @ newline @ ''    '' @ prog @ '' cfg/settings.json'' @ newline"

text \<open>
  \<open>settings::globals()\<close>: constructed from the empty tree when it is first used, in zeroed static
  memory.
\<close>

definition static_memory :: settings where
  "static_memory = \<lparr>interface_address = '''', interface_port = 0, document_root = '''',
     log_level = '''', service_version = '''', ssl_certificate = '''', ssl_key = '''', ssl_dh = '''',
     thread_io = 0, timeout_header = 0, timeout_get = 0, timeout_put = 0, timeout_post = 0\<rparr>"

definition globals :: "'t ptree_api \<Rightarrow> lexical \<Rightarrow> settings" where
  "globals P L = new_settings P L static_memory (pt_empty P)"

definition main ::
    "'t ptree_api \<Rightarrow> lexical \<Rightarrow> beast_api \<Rightarrow> 't machine \<Rightarrow> string list \<Rightarrow> log_core \<Rightarrow> process" where
  "main P L B M argv c =
     (if length argv \<noteq> 2 then \<lparr>core = c, err = usage (argv ! 0), result = Exit exit_failure\<rparr>
      else case read_json M (argv ! 1) of
        None \<Rightarrow> \<lparr>core = c, err = '''', result = Terminated Json_unreadable\<rparr>
      | Some tree \<Rightarrow>
          let g = globals P L;
              c = snd (set_log_filter g c);
              g = load P L tree g
          in case load_files (tls M) (file_contents M) (ssl_certificate g) (ssl_key g) (ssl_dh g) [] of
               (Inl e, ctx) \<Rightarrow> \<lparr>core = c, err = '''', result = Terminated (Certificate_failed e)\<rparr>
             | (Inr u, ctx) \<Rightarrow>
                 case start B (network M) (new_service g) of
                   (Returned n, httpd) \<Rightarrow> \<lparr>core = c, err = '''', result = Exit n\<rparr>
                 | (Threw, httpd) \<Rightarrow> \<lparr>core = c, err = '''', result = Terminated Service_threw\<rparr>
                 | (Blocked, httpd) \<Rightarrow> \<lparr>core = c, err = '''', result = Serving httpd\<rparr>)"

section \<open>Properties\<close>

text \<open>
  C32: The configured log level has no effect.  Whatever tree the file holds, the filter that \<open>main\<close>
  installs is the one for the default level, because it is set before the settings are
  loaded; so an unknown level is never reported either.
\<close>

theorem main_ignores_log_level:
  assumes "ptree_law P" and "to_lower L ''info'' = ''info''"
    and "length argv = 2" and "read_json M (argv ! 1) = Some tree"
  shows "core (main P L B M argv c) = c\<lparr>filter_min := Some Info\<rparr>"
proof -
  have "log_level (globals P L) = ''info''"
    using assms(1,2) by (simp add: globals_def new_settings_def load_def Let_def)
  then have "set_log_filter (globals P L) c = (True, c\<lparr>filter_min := Some Info\<rparr>)"
    by (simp add: set_log_filter_def set_level_filter_def set_filter_def)
  with assms(3,4) show ?thesis
    by (simp add: main_def Let_def split: prod.split sum.split start_result.split)
qed

definition sample_tree :: "string \<Rightarrow> string option" where
  "sample_tree = pt_put ref_tree (pt_empty ref_tree) ''service.log.level'' ''TRACE''"

definition sample_machine :: "(string \<Rightarrow> string option) machine" where
  "sample_machine = \<lparr>read_json = (\<lambda>p. if p = ''cfg/settings.json'' then Some sample_tree else None),
     file_contents = (\<lambda>p. Some p), tls = (\<lambda>c x. None), network = sample_host\<rparr>"

definition fresh_log :: log_core where
  "fresh_log = \<lparr>filter_min = None, records = []\<rparr>"

theorem main_ignores_log_level_witness:
  "log_level (load ref_tree ref_lexical sample_tree default_settings) = ''trace'' \<and>
   core (main ref_tree ref_lexical (ref_beast sample_files) sample_machine
     [''httpd'', ''cfg/settings.json''] fresh_log) = fresh_log\<lparr>filter_min := Some Info\<rparr>"
proof
  show "log_level (load ref_tree ref_lexical sample_tree default_settings) = ''trace''"
    by code_simp
  show "core (main ref_tree ref_lexical (ref_beast sample_files) sample_machine
     [''httpd'', ''cfg/settings.json''] fresh_log) = fresh_log\<lparr>filter_min := Some Info\<rparr>"
  proof (rule main_ignores_log_level [OF ref_tree_law])
    show "to_lower ref_lexical ''info'' = ''info''" by code_simp
  qed (simp_all add: sample_machine_def)
qed


lemma load_globals: "load P L tree (globals P L) = new_settings P L static_memory tree"
  unfolding new_settings_def by (rule load_forgets)



lemma main_serving:
  assumes "result (main P L B M argv c) = Serving s"
  obtains tree g address where "length argv = 2" "read_json M (argv ! 1) = Some tree"
    "g = new_settings P L static_memory tree"
    "make_address (network M) (c_str (interface_address g)) = Some address"
    "s = snd (start B (network M) (new_service g))"
  using assms
  by (auto simp: main_def load_globals Let_def start_def new_service_def
      split: if_splits option.splits prod.splits sum.splits start_result.splits)



end
