(* ===== verification/Program_Run.thy ===== *)
theory Program_Run
  imports Httpd Concurrent_Service
begin

text \<open>
  The program as a whole: from the command line and the file through \<open>main\<close> and \<open>service::start\<close> to the
  connections, with the handlers on the threads of the service.
\<close>

section \<open>What a run keeps\<close>










section \<open>Property\<close>



end
