(* ===== verification/Old_Program.thy ===== *)
theory Old_Program
  imports Httpd Client_Program
begin

text \<open>
  The program \<open>src/tst/c++/systemicai/http/server/server.cpp\<close>, an older version of \<open>cmd/httpd.cpp\<close>
  without the class \<open>service\<close>.  The header from which it takes its \<open>listener\<close> is not in the
  repository: what constructing one and calling its \<open>run\<close> gives, how its handlers change it, and
  when it has work outstanding are arguments.
\<close>

section \<open>State\<close>

record 'l listener_api =
  construct :: "endpoint \<Rightarrow> string \<Rightarrow> 'l"    \<comment> \<open>\<open>std::make_shared<listener>(...)->run()\<close>\<close>
  advances :: "'l \<Rightarrow> 'l \<Rightarrow> bool"
  has_work :: "'l \<Rightarrow> bool"

datatype old_phase =
    Old_in_run                               \<comment> \<open>\<open>main\<close> is in \<open>ioc.run()\<close>\<close>
  | Old_joining
  | Old_returned int

record 'l old_run =
  old_concurrency :: int                     \<comment> \<open>of the \<open>io_context\<close>\<close>
  old_stopped :: bool
  old_listener :: 'l
  old_signal_waits :: nat                    \<comment> \<open>outstanding \<open>signals.async_wait\<close>\<close>
  old_workers :: nat                         \<comment> \<open>threads in the vector \<open>v\<close>\<close>
  old_exited :: nat                          \<comment> \<open>those whose \<open>run()\<close> has returned\<close>
  old_phase :: old_phase

datatype old_cause = Old_json_unreadable | Old_address_malformed | Old_certificate_failed cert_error

datatype 'l old_outcome = Old_exit int | Old_terminated old_cause | Old_running "'l old_run"

record 'l old_process =
  old_err :: string
  old_result :: "'l old_outcome"

section \<open>The program\<close>

definition server_load_server_certificate ::
    "ctx_api \<Rightarrow> (string \<Rightarrow> string option) \<Rightarrow> settings \<Rightarrow> ctx \<Rightarrow> cert_result" where
  "server_load_server_certificate T fs s c =
     load_certificate_from T fs (ssl_certificate s) (ssl_key s) (ssl_dh s) c"

text \<open>\<open>main\<close> does not call \<open>set_log_filter\<close>.\<close>

definition server_set_log_filter :: "settings \<Rightarrow> log_core \<Rightarrow> bool \<times> log_core" where
  "server_set_log_filter s c = set_level_filter (log_level s) c"

text \<open>The usage text and the loop that launches the workers are those of the newer program.\<close>

definition old_main ::
    "'t ptree_api \<Rightarrow> lexical \<Rightarrow> 'l listener_api \<Rightarrow> 't machine \<Rightarrow> string list \<Rightarrow> 'l old_process" where
  "old_main P L A M argv =
     (if length argv \<noteq> 2 then \<lparr>old_err = usage (argv ! 0), old_result = Old_exit exit_failure\<rparr>
      else case read_json M (argv ! 1) of
        None \<Rightarrow> \<lparr>old_err = '''', old_result = Old_terminated Old_json_unreadable\<rparr>
      | Some tree \<Rightarrow>
          let g = load P L tree (globals P L)
          in case make_address (network M) (c_str (interface_address g)) of
            None \<Rightarrow> \<lparr>old_err = '''', old_result = Old_terminated Old_address_malformed\<rparr>
          | Some address \<Rightarrow>
              let port = interface_port g;
                  root = document_root g;
                  threads = max 1 (sint (thread_io g))
              in case server_load_server_certificate (tls M) (file_contents M) g [] of
                (Inl e, ctx) \<Rightarrow> \<lparr>old_err = '''', old_result = Old_terminated (Old_certificate_failed e)\<rparr>
              | (Inr u, ctx) \<Rightarrow> \<lparr>old_err = '''', old_result = Old_running
                  \<lparr>old_concurrency = threads, old_stopped = False,
                   old_listener = construct A (address, port) root, old_signal_waits = 1,
                   old_workers = spawn (threads - 1) 0, old_exited = 0, old_phase = Old_in_run\<rparr>\<rparr>)"

text \<open>The handler of the signals, and the end of \<open>main\<close>.\<close>

definition old_on_signal :: "'l old_run \<Rightarrow> 'l old_run" where
  "old_on_signal r = r\<lparr>old_stopped := True\<rparr>"

definition old_leave :: "'l old_run \<Rightarrow> 'l old_run" where
  "old_leave r = r\<lparr>old_phase := Old_returned exit_success\<rparr>"

section \<open>Events\<close>

text \<open>As in the service, \<open>run()\<close> returns when the context is stopped or has no work.\<close>

definition old_may_return :: "'l listener_api \<Rightarrow> 'l old_run \<Rightarrow> bool" where
  "old_may_return A r \<longleftrightarrow> old_stopped r \<or> old_signal_waits r = 0 \<and> \<not> has_work A (old_listener r)"

definition old_thread_in_run :: "'l old_run \<Rightarrow> bool" where
  "old_thread_in_run r \<longleftrightarrow> old_phase r = Old_in_run \<or> old_exited r < old_workers r"

datatype old_event = Old_signal | Old_handler | Old_worker_returns | Old_run_returns | Old_joined

inductive old_step :: "'l listener_api \<Rightarrow> 'l old_run \<Rightarrow> old_event \<Rightarrow> 'l old_run \<Rightarrow> bool" for A where
  old_signal: "\<not> old_stopped r \<Longrightarrow> old_thread_in_run r \<Longrightarrow> 0 < old_signal_waits r \<Longrightarrow>
     t = old_on_signal (r\<lparr>old_signal_waits := old_signal_waits r - 1\<rparr>) \<Longrightarrow> old_step A r Old_signal t"
| old_handler: "\<not> old_stopped r \<Longrightarrow> old_thread_in_run r \<Longrightarrow> advances A (old_listener r) l \<Longrightarrow>
     t = r\<lparr>old_listener := l\<rparr> \<Longrightarrow> old_step A r Old_handler t"
| old_worker_returns: "old_may_return A r \<Longrightarrow> old_exited r < old_workers r \<Longrightarrow>
     t = r\<lparr>old_exited := old_exited r + 1\<rparr> \<Longrightarrow> old_step A r Old_worker_returns t"
| old_run_returns: "old_may_return A r \<Longrightarrow> old_phase r = Old_in_run \<Longrightarrow>
     t = r\<lparr>old_phase := Old_joining\<rparr> \<Longrightarrow> old_step A r Old_run_returns t"
| old_joined: "old_phase r = Old_joining \<Longrightarrow> old_exited r = old_workers r \<Longrightarrow>
     t = old_leave r \<Longrightarrow> old_step A r Old_joined t"

definition old_launched :: "'l old_run \<Rightarrow> bool" where
  "old_launched r \<longleftrightarrow> old_exited r = 0 \<and> old_phase r = Old_in_run \<and> old_signal_waits r = 1 \<and> \<not> old_stopped r"

section \<open>The invariant\<close>

definition old_inv :: "'l old_run \<Rightarrow> bool" where
  "old_inv r \<longleftrightarrow> old_exited r \<le> old_workers r \<and>
     (\<not> old_stopped r \<longrightarrow> old_signal_waits r = 1 \<and> old_exited r = 0 \<and> old_phase r = Old_in_run) \<and>
     (\<forall>code. old_phase r = Old_returned code \<longrightarrow> code = exit_success \<and> old_exited r = old_workers r)"

lemma old_step_inv: "old_step A r e t \<Longrightarrow> old_inv r \<Longrightarrow> old_inv t"
  by (cases rule: old_step.cases, assumption)
     (auto simp: old_inv_def old_on_signal_def old_leave_def old_may_return_def)

interpretation old: invariant_of old_launched "old_step A" old_inv for A
proof unfold_locales
  show "old_launched s \<Longrightarrow> old_inv s" for s by (simp add: old_launched_def old_inv_def)
qed (rule old_step_inv)

text \<open>What is left to do once the context has been stopped.\<close>

definition old_left :: "'l old_run \<Rightarrow> nat" where
  "old_left r = (old_workers r - old_exited r) +
     (case old_phase r of Old_in_run \<Rightarrow> 2 | Old_joining \<Rightarrow> 1 | Old_returned code \<Rightarrow> 0)"

lemma old_left_step:
  assumes "old_step A r e t" and "old_inv r \<and> old_stopped r"
  shows "(old_inv t \<and> old_stopped t) \<and> old_left t < old_left r"
proof (rule conjI [OF conjI])
  from assms old_step_inv show "old_inv t" by blast
  from assms show "old_stopped t" "old_left t < old_left r"
    by (cases; simp add: old_left_def old_leave_def)+
qed

lemma old_stopped_moves:
  assumes "old_inv r" and "old_stopped r" and "\<forall>code. old_phase r \<noteq> Old_returned code"
  shows "\<exists>e t. old_step A r e t"
proof (cases "old_phase r = Old_in_run")
  case True
  with assms(2) have "old_step A r Old_run_returns (r\<lparr>old_phase := Old_joining\<rparr>)"
    by (intro old_run_returns) (auto simp: old_may_return_def)
  then show ?thesis by blast
next
  case False
  with assms(3) have joining: "old_phase r = Old_joining" by (cases "old_phase r") auto
  show ?thesis
  proof (cases "old_exited r = old_workers r")
    case True
    with joining old_joined show ?thesis by blast
  next
    case False
    with assms(1,2) have "old_step A r Old_worker_returns (r\<lparr>old_exited := old_exited r + 1\<rparr>)"
      by (intro old_worker_returns) (auto simp: old_may_return_def old_inv_def)
    then show ?thesis by blast
  qed
qed

section \<open>Properties\<close>

definition old_can_serve :: "'t ptree_api \<Rightarrow> lexical \<Rightarrow> 't machine \<Rightarrow> string list \<Rightarrow> bool" where
  "old_can_serve P L M argv \<longleftrightarrow> length argv = 2 \<and>
     (case read_json M (argv ! 1) of None \<Rightarrow> False | Some tree \<Rightarrow>
        let g = new_settings P L static_memory tree;
            text_of = ifstream_contents (file_contents M)
        in make_address (network M) (c_str (interface_address g)) \<noteq> None \<and>
           fst (ctx_calls (tls M) (test_setup (text_of (ssl_certificate g)) (text_of (ssl_key g))
             (text_of (ssl_dh g))) []) = Inr ())"

lemma old_main_result:
  assumes "length argv = 2" and "read_json M (argv ! 1) = Some tree"
    and "g = new_settings P L static_memory tree"
  shows "old_result (old_main P L A M argv) =
    (case make_address (network M) (c_str (interface_address g)) of
       None \<Rightarrow> Old_terminated Old_address_malformed
     | Some address \<Rightarrow>
         (case fst (server_load_server_certificate (tls M) (file_contents M) g []) of
            Inl e \<Rightarrow> Old_terminated (Old_certificate_failed e)
          | Inr u \<Rightarrow> Old_running
              \<lparr>old_concurrency = max 1 (sint (thread_io g)), old_stopped = False,
               old_listener = construct A (address, interface_port g) (document_root g),
               old_signal_waits = 1, old_workers = spawn (max 1 (sint (thread_io g)) - 1) 0,
               old_exited = 0, old_phase = Old_in_run\<rparr>))"
  using assms
  by (auto simp: old_main_def load_globals Let_def split: option.split prod.split sum.split)

text \<open>
  C33: The old server program is the newer one without its checks.  It runs exactly if it has one
  argument, the file can be read, the address is well-formed and OpenSSL takes the certificate, of
  which a file that cannot be opened is an empty part; and when both programs serve with the same
  file they serve the same endpoint and document root on the same number of threads.
\<close>

theorem old_main_serves:
  "(\<exists>r. old_result (old_main P L A M argv) = Old_running r) = old_can_serve P L M argv \<and>
   (\<forall>r s. old_result (old_main P L A M argv) = Old_running r \<and> result (main P L B M argv c) = Serving s \<longrightarrow>
      old_workers r = workers s \<and> map_option concurrency (ioc s) = Some (old_concurrency r) \<and>
      (\<exists>ep root. old_listener r = construct A ep root \<and> Option.bind (ioc s) server = Some (listener_run
         (new_listener B (acceptor_answer (network M)) ep root (svc_settings s)))))"
proof (intro conjI allI impI)
  show "(\<exists>r. old_result (old_main P L A M argv) = Old_running r) = old_can_serve P L M argv"
  proof (cases "length argv = 2 \<and> read_json M (argv ! 1) \<noteq> None")
    case False
    then show ?thesis by (auto simp: old_main_def old_can_serve_def)
  next
    case True
    then obtain tree where tree: "length argv = 2" "read_json M (argv ! 1) = Some tree" by auto
    show ?thesis
      unfolding old_main_result [OF tree refl] old_can_serve_def server_load_server_certificate_def
        load_certificate_from_calls
      using tree by (auto simp: Let_def split: option.split sum.split)
  qed
next
  fix r s
  assume both: "old_result (old_main P L A M argv) = Old_running r \<and> result (main P L B M argv c) = Serving s"
  then obtain tree g address where g: "length argv = 2" "read_json M (argv ! 1) = Some tree"
    "g = new_settings P L static_memory tree"
    "make_address (network M) (c_str (interface_address g)) = Some address"
    and s: "s = snd (start B (network M) (new_service g))"
    using main_serving by metis
  from both old_main_result [OF g(1-3), of A] g(4) have r:
    "old_workers r = spawn (max 1 (sint (thread_io g)) - 1) 0"
    "old_concurrency r = max 1 (sint (thread_io g))"
    "old_listener r = construct A (address, interface_port g) (document_root g)"
    by (auto split: sum.splits)
  then show "old_workers r = workers s" "map_option concurrency (ioc s) = Some (old_concurrency r)"
    using g(4) unfolding s by (simp_all add: start_def new_service_def Let_def)
  show "\<exists>ep root. old_listener r = construct A ep root \<and> Option.bind (ioc s) server = Some (listener_run
         (new_listener B (acceptor_answer (network M)) ep root (svc_settings s)))"
    using r(3) g(4) unfolding s
    by (intro exI [of _ "(address, interface_port g)"] exI [of _ "document_root g"])
       (simp add: start_def new_service_def Let_def)
qed

text \<open>A listener that accepts for ever, counting what it has accepted.\<close>

definition counting_listener :: "nat listener_api" where
  "counting_listener = \<lparr>construct = (\<lambda>ep root. 0), advances = (\<lambda>n m. m = n + 1), has_work = (\<lambda>n. True)\<rparr>"

definition sample_old_main :: "nat old_process" where
  "sample_old_main = old_main ref_tree ref_lexical counting_listener
     (sample_machine\<lparr>file_contents := \<lambda>p. None\<rparr>) [''server'', ''cfg/settings.json'']"

theorem old_main_serves_witness:
  "\<exists>r. old_result sample_old_main = Old_running r"
proof -
  let ?g = "new_settings ref_tree ref_lexical static_memory sample_tree"
  have "interface_address ?g = ''127.0.0.1''" by code_simp
  then have "old_can_serve ref_tree ref_lexical (sample_machine\<lparr>file_contents := \<lambda>p. None\<rparr>)
      [''server'', ''cfg/settings.json'']"
    by (simp add: old_can_serve_def sample_machine_def test_setup_def sample_host_def c_str_def Let_def)
  with old_main_serves [of ref_tree ref_lexical counting_listener "sample_machine\<lparr>file_contents := \<lambda>p. None\<rparr>"]
  show ?thesis unfolding sample_old_main_def by blast
qed

text \<open>
  C34: The old server program ends after a signal, with success, and not before.  In every state that
  its run can reach, as long as no signal has been caught no thread has left \<open>run()\<close>; from then on
  at most as many events follow as there are workers in \<open>run()\<close> and two, one of them can happen
  until \<open>main\<close> has returned, and it returns success after all workers have exited.
\<close>

theorem old_main_ends:
  assumes "old_result (old_main P L A M argv) = Old_running r0" and "reach (\<lambda>r. r = r0) (old_step A) r"
  shows "(\<not> old_stopped r \<longrightarrow> old_phase r = Old_in_run \<and> old_exited r = 0 \<and> (\<exists>t. old_step A r Old_signal t)) \<and>
    (old_stopped r \<longrightarrow>
       (\<forall>n t. steps (old_step A) r n t \<longrightarrow> n \<le> old_workers r - old_exited r + 2) \<and>
       ((\<forall>code. old_phase r \<noteq> Old_returned code) \<longrightarrow> (\<exists>e t. old_step A r e t))) \<and>
    (\<forall>code. old_phase r = Old_returned code \<longrightarrow> code = exit_success \<and> old_exited r = old_workers r)"
proof -
  from assms(1) have "old_launched r0"
    unfolding old_main_def
    by (auto simp: Let_def old_launched_def split: if_splits option.splits prod.splits sum.splits)
  then have "reach old_launched (old_step A) r"
    by (intro reach_from [OF assms(2)] reach_init)
  then have inv: "old_inv r" by (rule old.inv_reach)
  have "\<exists>t. old_step A r Old_signal t" if "\<not> old_stopped r"
    using old_signal [of r, OF that _ _ refl] inv that by (auto simp: old_inv_def old_thread_in_run_def)
  moreover have "n \<le> old_workers r - old_exited r + 2" if "old_stopped r" "steps (old_step A) r n t" for n t
  proof -
    have "n + old_left t \<le> old_left r"
      by (rule steps_measure [where P = "\<lambda>r. old_inv r \<and> old_stopped r", OF old_left_step that(2)])
         (use inv that in auto)
    then show ?thesis by (auto simp: old_left_def split: old_phase.splits)
  qed
  ultimately show ?thesis using inv old_stopped_moves [OF inv] by (auto simp: old_inv_def)
qed

theorem old_main_ends_witness:
  "\<exists>r t. old_result sample_old_main = Old_running r \<and> old_step counting_listener r Old_signal t \<and>
     old_stopped t \<and> (\<exists>e u. old_step counting_listener t e u)"
proof -
  let ?g = "new_settings ref_tree ref_lexical static_memory sample_tree"
  have "interface_address ?g = ''127.0.0.1''" by code_simp
  then obtain r where r: "old_result sample_old_main = Old_running r" "\<not> old_stopped r" "old_phase r = Old_in_run"
    unfolding sample_old_main_def
    by (simp add: old_main_result [of _ _ sample_tree] sample_machine_def sample_host_def c_str_def
        server_load_server_certificate_def load_certificate_from_calls test_setup_def)
  note ends = old_main_ends [OF r(1) [unfolded sample_old_main_def]]
  from ends [OF reach_init] r(2) obtain t where t: "old_step counting_listener r Old_signal t" by blast
  then have "old_stopped t" "old_phase t = Old_in_run"
    using r(3) by (auto elim!: old_step.cases simp: old_on_signal_def)
  moreover have "reach (\<lambda>x. x = r) (old_step counting_listener) t"
    using t by (blast intro: reach.intros)
  ultimately have "\<exists>e u. old_step counting_listener t e u" using ends [of t] by auto
  with r t \<open>old_stopped t\<close> show ?thesis by blast
qed

end
