(* ===== verification/Unit_Tests.thy ===== *)
theory Unit_Tests
  imports Service Certificate
begin

text \<open>
  What the unit tests under \<open>src/tst/c++/systemicai/http/server/\<close> expect, in the model: the settings
  that \<open>settings_test.cpp\<close> reads from the text of \<open>settings_test.hpp\<close>, the defaults of the global
  settings, and the run of the service in \<open>server_test.cpp\<close>.
\<close>

section \<open>Settings\<close>

text \<open>The tree of the JSON text: its leaves, in their order.\<close>

definition test_json :: "(string \<times> string) list" where
  "test_json = [
     (''document.root'', ''./document-root''),
     (''service.interface.address'', ''0.0.0.0''), (''service.interface.port'', ''8080''),
     (''service.log.level'', ''debug''),
     (''service.ssl.certificate'', ''cfg/dumb.cert''), (''service.ssl.key'', ''cfg/dumb.key''),
     (''service.ssl.dh'', ''cfg/dumb.dh''),
     (''service.timeout.header'', ''15000''), (''service.timeout.put'', ''3000''),
     (''service.timeout.post'', ''3000''), (''service.timeout.get'', ''10000''),
     (''service.thread.io'', ''22'')]"

definition test_tree :: "string \<Rightarrow> string option" where
  "test_tree = fold (\<lambda>(p, v) t. pt_put ref_tree t p v) test_json (pt_empty ref_tree)"

definition test_settings :: settings where
  "test_settings = new_settings ref_tree ref_lexical sample_settings test_tree"

lemma test_conversions:
  "read_u16 ref_lexical ''8080'' = Some 8080" "read_i32 ref_lexical ''22'' = Some 22"
  "read_i32 ref_lexical ''15000'' = Some 15000" "read_u64 ref_lexical ''3000'' = Some 3000"
  "read_u64 ref_lexical ''10000'' = Some 10000" "to_lower ref_lexical ''debug'' = ''debug''"
  by code_simp+

theorem test_json_parsing:
  "log_level test_settings = ''debug''" "document_root test_settings = ''./document-root''"
  "interface_address test_settings = ''0.0.0.0''" "interface_port test_settings = 8080"
  "ssl_certificate test_settings = ''cfg/dumb.cert''" "ssl_key test_settings = ''cfg/dumb.key''"
  "ssl_dh test_settings = ''cfg/dumb.dh''" "timeout_header test_settings = 15000"
  "timeout_put test_settings = 3000" "timeout_post test_settings = 3000"
  "timeout_get test_settings = 10000" "thread_io test_settings = 22"
  by (simp_all add: test_settings_def new_settings_def load_def Let_def test_tree_def test_json_def
      get_or_put ref_tree_law test_conversions)

theorem test_settings_default:
  "log_level (new_settings ref_tree ref_lexical sample_settings (pt_empty ref_tree)) = ''info''"
  by code_simp

section \<open>The service\<close>

text \<open>The certificate of the test is loaded from three streams that are all readable.\<close>

theorem test_certificate: "fst (load_streams (\<lambda>c x. None) (Some cert) (Some key) (Some dh) []) = Inr ()"
  by (simp add: load_streams_def and_then_def ctx_call_def)

text \<open>
  Whatever the 22 threads do in between, the service does not run before \<open>start\<close>, runs after it and
  does not run after \<open>stop\<close>, nor once the thread that called \<open>start\<close> has been joined.
\<close>

theorem test_service:
  assumes "start B H (new_service test_settings) = (Blocked, s)"
  shows "\<not> running (new_service test_settings)" "running s" "workers s = 21"
    "\<exists>t. stop s = Inr t \<and> \<not> running t \<and> \<not> running (reset_ioc t)"
  using assms test_json_parsing(12)
  by (auto simp: start_def new_service_def running_def stop_def reset_ioc_def Let_def spawn_eq
      split: option.splits)

end
