(* ===== verification/Spec2Isabelle.thy ===== *)
theory Spec2Isabelle
  imports Http_Session_Props Http_Session_End Http_Session_Timer Http_Refinement Content_Props Connection_End
    Concurrent_Service Service_Calls Websocket_Props Settings_Props Client_Refinement Client_Program
    Program_Run Old_Program Unit_Tests
begin

text \<open>
  A verification development for the advanced flex server, a web server on Boost.Asio and
  Boost.Beast, under \<open>src/c++/systemicai/\<close>.

  \<^bold>\<open>The program.\<close>  \<open>cmd/httpd.cpp\<close> reads a JSON file into the global settings, loads a certificate into an
  SSL context and starts a service.  The service (\<open>http/server/service.hpp\<close>) owns an \<open>io_context\<close>,
  creates a listener on it, and runs it on a number of threads until it is stopped.  The listener
  (\<open>server.h\<close>, \<open>server.cpp\<close>) accepts connections and launches a detector for each, which finds out
  whether the peer speaks SSL and creates a plain or an SSL session (\<open>sessions.hpp\<close>).  A session
  reads requests, gives each to the handlers (\<open>handlers/handler.hpp\<close>), which send one response
  through the queue of the session, and keeps reading while the queue has room; a request to upgrade
  turns the connection into a WebSocket session, which echoes messages.  Besides, there is an
  HTTPS client (\<open>http/client/api.hpp\<close>) with its own settings, a program that runs one request of
  it (\<open>src/tst/c++/systemicai/http/client/api.cpp\<close>), and an older version of the server program
  (\<open>src/tst/c++/systemicai/http/server/server.cpp\<close>).

  \<^bold>\<open>The theories\<close>, in the order in which they build on each other:

  \<^item> \<open>Prelude\<close>: error codes, undefined behaviour as a value, streams with the sockets they own,
    reachable states with the locales \<open>invariant_of\<close> and \<open>simulation\<close> (an invariant, and the
    implementation of an abstract specification), runs, lists.
  \<^item> \<open>Functions\<close>: \<open>functions.cpp\<close>, that is \<open>mime_type\<close>, \<open>path_cat\<close> and \<open>fail\<close>.
  \<^item> \<open>Paths\<close>: specification; what a path names, by lexical resolution.
  \<^item> \<open>Property_Tree\<close>, \<open>Reference_Tree\<close>: the interface to Boost's property tree and its conversions with
    their documented laws, and one concrete instance that satisfies them.
  \<^item> \<open>Settings\<close>, \<open>Client_Settings\<close>: the two \<open>settings.h\<close>; \<open>Settings_Props\<close>: their properties.
  \<^item> \<open>Handlers\<close>: \<open>handlers/handler.hpp\<close> and \<open>handlers/default.hpp\<close>; \<open>Content_Props\<close>: the properties of
    what is answered.
  \<^item> \<open>Work_Queue\<close>: the class \<open>http_session::queue\<close>, its contract as the locale \<open>pipeline\<close>, and the
    queue under any sequence of calls.
  \<^item> \<open>Websocket_Session\<close>: \<open>websocket_session\<close>, its two derived classes and \<open>make_websocket_session\<close>,
    with the echo server as its specification; \<open>Websocket_Props\<close>: the properties.
  \<^item> \<open>Http_Session\<close>: the class template \<open>http_session\<close> and its plain and SSL instances;
    \<open>Http_Session_Inv\<close>: their invariants, proved once in the locale \<open>derived_session\<close> for any derived
    class and interpreted for both; \<open>Http_Session_Stream\<close>: where the stream is; \<open>Scenarios\<close>: concrete
    runs; \<open>Http_Session_Props\<close>: the properties; \<open>Http_Session_End\<close>: how a session ends;
    \<open>Http_Session_Timer\<close>: its timeouts; \<open>Http_Refinement\<close>: the abstract pipelined server and the
    proof that the sessions implement it.
  \<^item> \<open>Connection\<close>: \<open>detect_session\<close>, with the lifetimes of the settings, and the connection that the
    detector, the HTTP session and the WebSocket session form; \<open>Connection_Props\<close>: the properties;
    \<open>Connection_End\<close>: how it goes on and ends.
  \<^item> \<open>Listener\<close>: \<open>listener\<close>; \<open>Executor\<close>: its handlers on several threads, kept apart by its strands;
    \<open>Service\<close>: \<open>service\<close>, and what it does to all its connections; \<open>Concurrent_Service\<close>: the service
    with handlers under way on its threads, related to the atomic one; \<open>Service_Calls\<close>: \<open>running()\<close>
    called while the service moves.
  \<^item> \<open>Certificate\<close>: \<open>common/certificate.h\<close> and \<open>common/exception.h\<close>; \<open>Logging\<close>: what the programs use of
    Boost.Log; \<open>Httpd\<close>: \<open>cmd/httpd.cpp\<close>; \<open>Program_Run\<close>: the program from its command line to its
    connections.
  \<^item> \<open>Client\<close>: \<open>http/client/api.hpp\<close>; \<open>Client_Refinement\<close>: the exchange that it implements;
    \<open>Client_Program\<close>: the client program; \<open>Old_Program\<close>: the older server program.
  \<^item> \<open>Unit_Tests\<close>: what the repository's unit tests expect, in the model.

  \<^bold>\<open>How code and model correspond.\<close>  A class is a record of its members, and of the operations that it
  has outstanding; a member function is a function on the record, named as in the code where
  names do not clash.  Histories, which the code does not have, record what was done in which order.
  An asynchronous operation is counted as outstanding when it is initiated; its completion is an
  event, enabled only while it is outstanding, which runs the handler bound to it.  The order of
  events and their error codes are left open, so a statement about all reachable states is one
  about all interleavings of completions.  A handler is an atomic step, also of the service as a
  whole: \<open>Executor\<close>, for the listener, and \<open>Concurrent_Service\<close>, for the service with its calls from
  outside, show that the strands make this so although handlers of different connections run at the
  same time, and although \<open>stop\<close> does not wait for them.  A call that would be undefined (a failed assertion, an empty optional, a dangling
  reference, a null pointer, a stream that has been moved from) is a value of the type \<open>ub\<close>, and the step relations have no such step, so
  that where a step exists nothing undefined has happened.  A stream owns its socket; constructors that
  take a stream over, and \<open>release_stream\<close>, move it.  Integers keep their widths.

  \<^bold>\<open>What is assumed.\<close>  The libraries are arguments: the records \<open>beast_api\<close>, \<open>ptree_api\<close>, \<open>lexical\<close>,
  \<open>host\<close>, \<open>machine\<close>, \<open>client_machine\<close>, \<open>listener_api\<close> and the functions \<open>ctx_api\<close> and \<open>executor\<close>.
  What a theorem needs of them is a predicate whose name
  ends in \<open>_law\<close> and appears in its statement; each is shown to hold of a concrete instance.  A file that can be
  opened is its octets: a directory opened as a file and a file that changes while it is sent are
  outside the model.  So are exceptions from memory or thread creation, accesses of \<open>_ioc\<close> from two
  threads at the same instant (between two accesses anything may happen), handlers of a socket that start before the statement that launches its detector
  has ended, and a call of \<open>start\<close> while another is destroying its locals.

  \<^bold>\<open>What is shown.\<close>  Of sessions: responses are written in the order of the requests, one each and one
  at a time, from a bounded queue, the message staying alive during its write, as an abstract
  pipelined server has it that the sessions refine; with live settings one handler alone can be
  undefined, after the upgrade of an SSL session with responses waiting; no session stalls, what
  waits can be written, a closing response is the last, and a session that has stopped ends.  Of the
  handlers: one response on every branch, as tabulated, from files below the document
  root only.  Of the connection: which session is created, that its socket has exactly one owner, of
  the right type, and that the settings that the session refers to are destroyed before its first
  request, so that only WebSocket sessions, which implement an echo server, ever serve anything.
  A connection has one operation outstanding at a time, and ends after five events if it makes no
  WebSocket session; a session's timeouts are the code's, not those of the settings.
  Of the listener and the service: invariants over all their reachable states, progress and
  termination; that running on several threads adds no behaviour; what holds of every connection
  that has been accepted; and where calls from outside are undefined.  The program as a whole, on
  its threads, is shown to inherit this.  Of the client: that it implements an abstract exchange.  Of
  the settings: what is read, and what survives a round trip.  Of the programs: when they serve or
  request, how they end, and in what the old server program differs from the new one.  The
  statements carry the identifiers C1 to C40, in the order of their importance.

  \<^bold>\<open>Bounds.\<close>  No definition has fuel: all recursion is structural but for the loop \<open>spawn\<close> over a signed
  counter, which has a termination proof.  The queue's limit is the code's, eight.

  \<^bold>\<open>Not modelled:\<close>  the members of the handler registry that cannot be instantiated; the class
  \<open>listener\<close> of the old server program, whose header is not in the repository; the headers that only
  declare or include; build files.
\<close>

end
